(* ===== verification/Prelude.thy ===== *)
theory Prelude
  imports Main "HOL-Library.Word"
begin

text \<open>
  The vocabulary every other theory of the development shares.

  \<^item> Rust's fixed-width integers are words: \<open>u8\<close>, \<open>u16\<close>, \<open>u32\<close>.
  \<^item> A call of a Rust function ends in one of three ways: it returns \<open>Ok\<close>, it returns
    \<open>Err\<close>, or its thread panics.  The type \<open>outcome\<close> has one constructor for each, so
    that every error return and every \<open>panic!\<close> or \<open>unwrap\<close> of the sources is a value.
  \<^item> A method that changes state takes the state last and returns its outcome paired with
    the new state; \<open>and_then\<close> is the \<open>?\<close> operator on such results: it goes on after
    \<open>Ok\<close> and returns early, keeping the state reached, otherwise.

  The collections declared here gather the facts the component proofs share.
\<close>

type_synonym u8 = "8 word"
type_synonym u16 = "16 word"
type_synonym u32 = "32 word"

named_theorems state_frames \<open>fields an operation leaves unchanged\<close>

datatype ('e, 'a) outcome = Ok 'a | Err 'e | Panic

fun and_then ::
  "('e, 'a) outcome \<times> 's \<Rightarrow> ('a \<Rightarrow> 's \<Rightarrow> ('e, 'b) outcome \<times> 's) \<Rightarrow> ('e, 'b) outcome \<times> 's"
where
  "and_then (Ok a, s) f = f a s"
| "and_then (Err e, s) f = (Err e, s)"
| "and_then (Panic, s) f = (Panic, s)"

lemma and_then_Ok_iff:
  "and_then r f = (Ok b, t) \<longleftrightarrow> (\<exists>a s. r = (Ok a, s) \<and> f a s = (Ok b, t))"
  by (cases r; cases "fst r") auto

lemma and_then_Err_iff:
  "and_then r f = (Err e, t) \<longleftrightarrow>
     r = (Err e, t) \<or> (\<exists>a s. r = (Ok a, s) \<and> f a s = (Err e, t))"
  by (cases r; cases "fst r") auto

lemma and_then_snd_invariant:
  assumes "P (snd r)" and "\<And>a s. r = (Ok a, s) \<Longrightarrow> P (snd (f a s))"
  shows "P (snd (and_then r f))"
  using assms by (cases r; cases "fst r") auto

lemma and_then_no_panic:
  assumes "fst r \<noteq> Panic" and "\<And>a s. r = (Ok a, s) \<Longrightarrow> fst (f a s) \<noteq> Panic"
  shows "fst (and_then r f) \<noteq> Panic"
  using assms by (cases r; cases "fst r") auto

lemma and_then_panic_iff:
  assumes "\<And>a s. fst (f a s) \<noteq> Panic"
  shows "fst (and_then r f) = Panic \<longleftrightarrow> fst r = Panic"
  using assms by (cases r; cases "fst r") auto

lemma and_then_panic_state:
  assumes "fst (and_then r f) = Panic" "\<And>a s. fst (f a s) \<noteq> Panic"
  shows "snd (and_then r f) = snd r"
  using assms by (cases r; cases "fst r") auto

text \<open>The results of calling a state-changing method \<open>n\<close> times in a row.\<close>

fun repeat_call :: "('s \<Rightarrow> 'a \<times> 's) \<Rightarrow> nat \<Rightarrow> 's \<Rightarrow> 'a list \<times> 's" where
  "repeat_call f 0 s = ([], s)"
| "repeat_call f (Suc n) s =
     (let (x, t) = f s; (xs, u) = repeat_call f n t in (x # xs, u))"

subsection \<open>Maps as Rust's hash maps\<close>

text \<open>\<open>HashMap::entry\<close> with a vacant entry adds a key, and \<open>remove\<close> takes it away again.\<close>

lemma fun_upd_remove_vacant [simp]:
  "m k = None \<Longrightarrow> (m(k \<mapsto> v))(k := None) = m"
  by (auto simp: fun_eq_iff)

lemma ran_fun_upd_None: "v \<notin> ran m \<Longrightarrow> v \<notin> ran (m(k := None))"
  by (auto simp: ran_def)

lemma ran_empty_iff: "ran m = {} \<longleftrightarrow> m = Map.empty"
proof
  assume none: "ran m = {}"
  show "m = Map.empty"
  proof
    fix k
    show "m k = None"
      using none ranI [of m k] by (cases "m k") auto
  qed
qed simp

lemma ran_remove_inj:
  assumes "inj_on m (dom m)" "m k = Some v"
  shows "ran (m(k := None)) = ran m - {v}"
proof (rule set_eqI)
  fix w
  have "m j = Some v \<longleftrightarrow> j = k" for j
    using assms by (metis domI inj_onD)
  then show "w \<in> ran (m(k := None)) \<longleftrightarrow> w \<in> ran m - {v}"
    by (force simp: ran_def)
qed

end
