(* ===== verification/Up_Types.thy ===== *)
theory Up_Types
  imports Prelude
begin

text \<open>
  The uProtocol data the transport works on.  Their Rust declarations are in the
  third-party crate up-rust; the records below have the fields the sources read or set.
  What the sources only pass on or print (the text of a \<open>UStatus\<close>, the payload format, the
  protobuf bookkeeping) is left out, so a \<open>UStatus\<close> is its code.

  Every up-rust \<^emph>\<open>function\<close> the sources call is a field of the record \<open>up_rust_api\<close>,
  which the definitions take as an argument: nothing is assumed about those functions in a
  definition.  What a theorem needs of them is one of the locales at the end, whose laws are
  the documented behaviour of the crate, and \<open>ref_up_rust\<close> shows that the laws can hold.
\<close>

datatype ucode =
    OK | CANCELLED | UNKNOWN | INVALID_ARGUMENT | DEADLINE_EXCEEDED | NOT_FOUND
  | ALREADY_EXISTS | PERMISSION_DENIED | UNAUTHENTICATED | RESOURCE_EXHAUSTED
  | FAILED_PRECONDITION | ABORTED | OUT_OF_RANGE | UNIMPLEMENTED | INTERNAL
  | UNAVAILABLE | DATA_LOSS

text \<open>The status codes in the order of their protobuf values, 0 to 16.\<close>

instantiation ucode :: enum
begin

definition enum_ucode :: "ucode list" where
  "enum_ucode =
     [OK, CANCELLED, UNKNOWN, INVALID_ARGUMENT, DEADLINE_EXCEEDED, NOT_FOUND, ALREADY_EXISTS,
      PERMISSION_DENIED, RESOURCE_EXHAUSTED, FAILED_PRECONDITION, ABORTED, OUT_OF_RANGE,
      UNIMPLEMENTED, INTERNAL, UNAVAILABLE, DATA_LOSS, UNAUTHENTICATED]"

definition enum_all_ucode :: "(ucode \<Rightarrow> bool) \<Rightarrow> bool" where
  "enum_all_ucode P \<longleftrightarrow> list_all P enum_class.enum"

definition enum_ex_ucode :: "(ucode \<Rightarrow> bool) \<Rightarrow> bool" where
  "enum_ex_ucode P \<longleftrightarrow> list_ex P enum_class.enum"

instance
proof
  have every: "c \<in> set enum_class.enum" for c :: ucode
    by (cases c) (simp_all add: enum_ucode_def)
  then show all: "(UNIV :: ucode set) = set enum_class.enum" by blast
  show "distinct (enum_class.enum :: ucode list)" by (simp add: enum_ucode_def)
  show "enum_class.enum_all P \<longleftrightarrow> Ball UNIV P" for P :: "ucode \<Rightarrow> bool"
    using every by (auto simp: enum_all_ucode_def list_all_iff)
  show "enum_class.enum_ex P \<longleftrightarrow> Bex UNIV P" for P :: "ucode \<Rightarrow> bool"
    using every by (auto simp: enum_ex_ucode_def list_ex_iff)
qed

end

type_synonym 'a result = "(ucode, 'a) outcome"

text \<open>The type aliases of \<^verbatim>\<open>up-transport-vsomeip/src/lib.rs\<close>.\<close>

type_synonym AuthorityName = string
type_synonym UeId = u32
type_synonym ClientId = u16
type_synonym ApplicationName = string
type_synonym SomeIpRequestId = u32
type_synonym SessionId = u16
type_synonym ServiceId = u16
type_synonym InstanceId = u16
type_synonym MethodId = u16
type_synonym EventId = u16
type_synonym MessageHandlerId = nat

record uuri =
  authority_name :: AuthorityName
  ue_id :: UeId
  ue_version_major :: u32
  resource_id :: u32

text \<open>
  A \<open>UUID\<close> is only compared; a listener is an \<open>Arc\<close> of a trait object, and
  \<open>ComparableListener\<close> compares the addresses, so it is the identity of the allocation.
\<close>

datatype uuid = UUID nat

datatype listener = Listener nat

datatype umessage_type =
    UMESSAGE_TYPE_UNSPECIFIED | UMESSAGE_TYPE_PUBLISH | UMESSAGE_TYPE_REQUEST
  | UMESSAGE_TYPE_RESPONSE | UMESSAGE_TYPE_NOTIFICATION

text \<open>
  A protobuf enum field is an \<open>EnumOrUnknown\<close>: \<open>None\<close> here is an unknown number, which
  \<open>enum_value_or\<close> replaces by its argument.
\<close>

definition enum_value_or :: "'a option \<Rightarrow> 'a \<Rightarrow> 'a" where
  "enum_value_or v d = (case v of Some x \<Rightarrow> x | None \<Rightarrow> d)"

lemma enum_value_or_simps [simp]:
  "enum_value_or None d = d" "enum_value_or (Some x) d = x"
  by (simp_all add: enum_value_or_def)

record uattributes =
  msg_type :: "umessage_type option"
  msg_id :: "uuid option"
  msg_source :: "uuri option"
  msg_sink :: "uuri option"
  msg_ttl :: "u32 option"
  msg_reqid :: "uuid option"
  msg_commstatus :: "ucode option option"

record umessage =
  attributes :: "uattributes option"
  payload :: "u8 list option"

record up_rust_api =
  u_has_wildcard_authority :: "uuri \<Rightarrow> bool"
  u_has_wildcard_entity_type :: "uuri \<Rightarrow> bool"
  u_has_wildcard_entity_instance :: "uuri \<Rightarrow> bool"
  u_has_wildcard_version :: "uuri \<Rightarrow> bool"
  u_has_wildcard_resource_id :: "uuri \<Rightarrow> bool"
  u_any :: "uuri"
  u_try_from_parts :: "AuthorityName \<Rightarrow> u32 \<Rightarrow> u8 \<Rightarrow> u16 \<Rightarrow> uuri option"
  u_verify_rpc_response :: "uuri \<Rightarrow> bool"
  u_validate_attributes :: "uattributes \<Rightarrow> bool"
  u_attributes_default :: "uattributes"
  u_build_request :: "nat \<Rightarrow> uuri \<Rightarrow> uuri \<Rightarrow> u32 \<Rightarrow> u8 list \<Rightarrow> umessage option"
  u_build_response :: "nat \<Rightarrow> uuri \<Rightarrow> uuid \<Rightarrow> uuri \<Rightarrow> ucode \<Rightarrow> u8 list \<Rightarrow> umessage option"
  u_build_publish :: "nat \<Rightarrow> uuri \<Rightarrow> u8 list \<Rightarrow> umessage option"

text \<open>
  The three \<open>u_build_\<close> fields are \<open>UMessageBuilder\<close>'s \<open>request\<close>, \<open>response\<close> and
  \<open>publish\<close> followed by \<open>build_with_payload\<close>.  A builder makes up the message's
  identifier; its first argument stands for the entropy it draws.  An absent protobuf
  message field dereferences to the default value \<open>u_attributes_default\<close>.
\<close>

definition attributes_of :: "up_rust_api \<Rightarrow> umessage \<Rightarrow> uattributes" where
  "attributes_of U m = (case attributes m of Some a \<Rightarrow> a | None \<Rightarrow> u_attributes_default U)"

lemma attributes_of_Some [simp]: "attributes m = Some a \<Longrightarrow> attributes_of U m = a"
  by (simp add: attributes_of_def)

subsection \<open>What is documented of the crate\<close>

locale up_rust_uri =
  fixes U :: up_rust_api
  assumes try_from_parts_fields:
    "u_try_from_parts U a i v r = Some u \<Longrightarrow>
       u = \<lparr>authority_name = a, ue_id = i, ue_version_major = ucast v, resource_id = ucast r\<rparr>"

locale up_rust_builder =
  fixes U :: up_rust_api
  assumes build_request_fields:
    "u_build_request U n snk src ttl p = Some m \<Longrightarrow>
       payload m = Some p \<and> (\<exists>i. attributes m = Some
         \<lparr>msg_type = Some UMESSAGE_TYPE_REQUEST, msg_id = Some i, msg_source = Some src,
          msg_sink = Some snk, msg_ttl = Some ttl, msg_reqid = None, msg_commstatus = None\<rparr>)"
    and build_response_fields:
    "u_build_response U n snk req src c p = Some m \<Longrightarrow>
       payload m = Some p \<and> (\<exists>i ttl. attributes m = Some
         \<lparr>msg_type = Some UMESSAGE_TYPE_RESPONSE, msg_id = Some i, msg_source = Some src,
          msg_sink = Some snk, msg_ttl = ttl, msg_reqid = Some req,
          msg_commstatus = Some (Some c)\<rparr>)"
    and build_publish_fields:
    "u_build_publish U n src p = Some m \<Longrightarrow>
       payload m = Some p \<and> (\<exists>i ttl. attributes m = Some
         \<lparr>msg_type = Some UMESSAGE_TYPE_PUBLISH, msg_id = Some i, msg_source = Some src,
          msg_sink = None, msg_ttl = ttl, msg_reqid = None, msg_commstatus = None\<rparr>)"

locale up_rust_spec = up_rust_uri + up_rust_builder

subsection \<open>An instance for the witnesses\<close>

definition ref_up_rust :: up_rust_api where
  "ref_up_rust = \<lparr>
     u_has_wildcard_authority = (\<lambda>u. authority_name u = ''*''),
     u_has_wildcard_entity_type = (\<lambda>u. ucast (ue_id u) = (0xFFFF :: u16)),
     u_has_wildcard_entity_instance = (\<lambda>u. drop_bit 16 (ue_id u) = 0xFFFF),
     u_has_wildcard_version = (\<lambda>u. ue_version_major u = 0xFF),
     u_has_wildcard_resource_id = (\<lambda>u. resource_id u = 0xFFFF),
     u_any = \<lparr>authority_name = ''*'', ue_id = 0xFFFFFFFF, ue_version_major = 0xFF,
              resource_id = 0xFFFF\<rparr>,
     u_try_from_parts = (\<lambda>a i v r. Some \<lparr>authority_name = a, ue_id = i,
              ue_version_major = ucast v, resource_id = ucast r\<rparr>),
     u_verify_rpc_response = (\<lambda>u. resource_id u = 0),
     u_validate_attributes = (\<lambda>a. msg_source a \<noteq> None),
     u_attributes_default = \<lparr>msg_type = Some UMESSAGE_TYPE_UNSPECIFIED, msg_id = None,
              msg_source = None, msg_sink = None, msg_ttl = None, msg_reqid = None,
              msg_commstatus = None\<rparr>,
     u_build_request = (\<lambda>n snk src ttl p. Some \<lparr>attributes = Some
         \<lparr>msg_type = Some UMESSAGE_TYPE_REQUEST, msg_id = Some (UUID n), msg_source = Some src,
          msg_sink = Some snk, msg_ttl = Some ttl, msg_reqid = None, msg_commstatus = None\<rparr>,
          payload = Some p\<rparr>),
     u_build_response = (\<lambda>n snk req src c p. Some \<lparr>attributes = Some
         \<lparr>msg_type = Some UMESSAGE_TYPE_RESPONSE, msg_id = Some (UUID n), msg_source = Some src,
          msg_sink = Some snk, msg_ttl = None, msg_reqid = Some req,
          msg_commstatus = Some (Some c)\<rparr>, payload = Some p\<rparr>),
     u_build_publish = (\<lambda>n src p. Some \<lparr>attributes = Some
         \<lparr>msg_type = Some UMESSAGE_TYPE_PUBLISH, msg_id = Some (UUID n), msg_source = Some src,
          msg_sink = None, msg_ttl = None, msg_reqid = None, msg_commstatus = None\<rparr>,
          payload = Some p\<rparr>)\<rparr>"

interpretation ref_up: up_rust_spec ref_up_rust
  by unfold_locales (auto simp: ref_up_rust_def)

end
