(* ===== verification/Utils.thy ===== *)
theory Utils
  imports Up_Types
begin

unbundle bit_operations_syntax

text \<open>
  \<^verbatim>\<open>up-transport-vsomeip/src/utils.rs\<close>: taking 32-bit numbers apart and putting a
  SOME/IP request identifier together.  A Rust \<open>as\<close> cast between unsigned types is \<open>ucast\<close>.
  The lemmas show that the cuts and the composition are inverse to each other.
\<close>

definition any_uuri_fixed_authority_id :: "AuthorityName \<Rightarrow> UeId \<Rightarrow> uuri" where
  "any_uuri_fixed_authority_id a i =
     \<lparr>authority_name = a, ue_id = i, ue_version_major = 0xFF, resource_id = 0xFFFF\<rparr>"

definition split_u32_to_u16 :: "u32 \<Rightarrow> u16 \<times> u16" where
  "split_u32_to_u16 value =
     (let most_significant_bits = ucast (drop_bit 16 value);
          least_significant_bits = ucast (value AND 0xFFFF)
      in (most_significant_bits, least_significant_bits))"

definition split_u32_to_u8 :: "u32 \<Rightarrow> u8 \<times> u8 \<times> u8 \<times> u8" where
  "split_u32_to_u8 value =
     (let byte1 = ucast (drop_bit 24 value);
          byte2 = ucast (drop_bit 16 value AND 0xFF);
          byte3 = ucast (drop_bit 8 value AND 0xFF);
          byte4 = ucast (value AND 0xFF)
      in (byte1, byte2, byte3, byte4))"

definition create_request_id :: "ClientId \<Rightarrow> SessionId \<Rightarrow> SomeIpRequestId" where
  "create_request_id client_id session_id =
     (push_bit 16 (ucast client_id) OR ucast session_id)"

subsection \<open>Cutting and composing\<close>

lemma ucast_mask_u16: "ucast (v AND 0xFFFF) = (ucast v :: u16)" for v :: u32
proof -
  have m: "(0xFFFF :: u32) = mask 16" by (simp add: mask_eq_exp_minus_1)
  show ?thesis
    unfolding m by (rule bit_word_eqI) (auto simp: bit_simps)
qed

lemma ucast_mask_u8: "ucast (v AND 0xFF) = (ucast v :: u8)" for v :: u32
proof -
  have m: "(0xFF :: u32) = mask 8" by (simp add: mask_eq_exp_minus_1)
  show ?thesis
    unfolding m by (rule bit_word_eqI) (auto simp: bit_simps)
qed

lemma split_u32_to_u16_eq:
  "split_u32_to_u16 v = (ucast (drop_bit 16 v), ucast v)"
  by (simp add: split_u32_to_u16_def ucast_mask_u16)

lemma snd_split_u32_to_u16: "snd (split_u32_to_u16 v) = ucast v"
  by (simp add: split_u32_to_u16_eq)

lemma split_u32_to_u8_low: "snd (snd (snd (split_u32_to_u8 v))) = ucast v"
  by (simp add: split_u32_to_u8_def ucast_mask_u8)

lemma ucast_u16_u32_u16 [simp]: "ucast (ucast (x :: u16) :: u32) = x"
  by (rule bit_word_eqI) (auto simp: bit_simps)

lemma ucast_u8_u32_u8 [simp]: "ucast (ucast (x :: u8) :: u32) = x"
  by (rule bit_word_eqI) (auto simp: bit_simps)

lemma create_request_id_low: "ucast (create_request_id c s) = s"
  unfolding create_request_id_def
  by (rule bit_word_eqI) (auto simp: bit_simps)

lemma create_request_id_high: "ucast (drop_bit 16 (create_request_id c s)) = c"
  unfolding create_request_id_def
  by (rule bit_word_eqI) (auto simp: bit_simps dest: bit_imp_le_length)

lemma create_request_id_parts:
  "create_request_id (ucast (drop_bit 16 v)) (ucast v) = v"
  unfolding create_request_id_def
  by (rule bit_word_eqI) (auto simp: bit_simps dest: bit_imp_le_length)

end
