(* ===== verification/Determine_Type.thy ===== *)
theory Determine_Type
  imports Utils
begin

text \<open>
  \<^verbatim>\<open>up-transport-vsomeip/src/determine_message_type.rs\<close>: which kind of registration a
  pair of source and sink filters asks for.  The wildcard tests are up-rust's.
  The lemmas give the full case table, that the function never fails, and that the
  point-to-point test does not distinguish source from sink, which the transport relies on
  when it swaps the two.
\<close>

datatype registration_type = Publish | Request | Response | AllPointToPoint

definition wildcard_below_authority :: "up_rust_api \<Rightarrow> uuri \<Rightarrow> bool" where
  "wildcard_below_authority U u \<longleftrightarrow>
     u_has_wildcard_entity_type U u \<and> u_has_wildcard_entity_instance U u \<and>
     u_has_wildcard_version U u \<and> u_has_wildcard_resource_id U u"

definition determine_type :: "up_rust_api \<Rightarrow> uuri \<Rightarrow> uuri option \<Rightarrow> registration_type result" where
  "determine_type U source_filter sink_filter =
     (case sink_filter of
        Some sink_filter \<Rightarrow>
          let streamer_use_case =
                (\<not> u_has_wildcard_authority U source_filter \<and>
                 wildcard_below_authority U source_filter \<and>
                 \<not> u_has_wildcard_authority U sink_filter \<and>
                 wildcard_below_authority U sink_filter)
          in if streamer_use_case then Ok AllPointToPoint
             else if resource_id sink_filter = 0 then Ok Response
             else Ok Request
      | None \<Rightarrow> Ok Publish)"

text \<open>The filters that select every point-to-point message between two authorities.\<close>

definition streamer_filters :: "up_rust_api \<Rightarrow> uuri \<Rightarrow> uuri \<Rightarrow> bool" where
  "streamer_filters U src snk \<longleftrightarrow>
     \<not> u_has_wildcard_authority U src \<and> wildcard_below_authority U src \<and>
     \<not> u_has_wildcard_authority U snk \<and> wildcard_below_authority U snk"

lemma streamer_filters_sym: "streamer_filters U src snk \<longleftrightarrow> streamer_filters U snk src"
  by (auto simp: streamer_filters_def)

lemma determine_type_None [simp]: "determine_type U src None = Ok Publish"
  by (simp add: determine_type_def)

lemma determine_type_Some:
  "determine_type U src (Some snk) =
     (if streamer_filters U src snk then Ok AllPointToPoint
      else if resource_id snk = 0 then Ok Response else Ok Request)"
  by (simp add: determine_type_def streamer_filters_def Let_def)

lemma determine_type_total: "\<exists>t. determine_type U src snk = Ok t"
  by (cases snk) (auto simp: determine_type_Some)

lemma determine_type_cases:
  obtains (Ok) t where "determine_type U src snk = Ok t"
  using determine_type_total by blast

lemma determine_type_AllPointToPoint_iff:
  "determine_type U src snk = Ok AllPointToPoint \<longleftrightarrow>
     (\<exists>k. snk = Some k \<and> streamer_filters U src k)"
  by (cases snk) (auto simp: determine_type_Some)

lemma determine_type_not_point_to_point_swap:
  assumes "determine_type U src (Some snk) \<noteq> Ok AllPointToPoint"
  shows "determine_type U snk (Some src) \<noteq> Ok AllPointToPoint"
  using assms by (auto simp: determine_type_AllPointToPoint_iff streamer_filters_sym)

lemma determine_type_wildcard_source:
  "u_has_wildcard_authority U src \<Longrightarrow> determine_type U src snk \<noteq> Ok AllPointToPoint"
  by (auto simp: determine_type_AllPointToPoint_iff streamer_filters_def)

end
