(* ===== verification/Offered_Requested.thy ===== *)
theory Offered_Requested
  imports Up_Types
begin

text \<open>
  \<^verbatim>\<open>up-transport-vsomeip/src/storage/vsomeip_offered_requested.rs\<close>: four sets that
  remember which services and events were offered to or requested from vsomeip.  The four
  pairs of methods share one contract, the locale \<open>mark_registry\<close>; its lemmas are what
  the engine relies on to offer and request each item at most once.
\<close>

record offered_requested =
  offered_services :: "(ServiceId \<times> InstanceId \<times> MethodId) set"
  requested_services :: "(ServiceId \<times> InstanceId \<times> MethodId) set"
  offered_events :: "(ServiceId \<times> InstanceId \<times> EventId) set"
  requested_events :: "(ServiceId \<times> InstanceId \<times> MethodId) set"

definition offered_requested_new :: offered_requested where
  "offered_requested_new =
     \<lparr>offered_services = {}, requested_services = {}, offered_events = {}, requested_events = {}\<rparr>"

text \<open>\<open>HashSet::insert\<close> says whether the value was new.\<close>

definition is_service_offered ::
  "ServiceId \<Rightarrow> InstanceId \<Rightarrow> MethodId \<Rightarrow> offered_requested \<Rightarrow> bool" where
  "is_service_offered s i m r \<longleftrightarrow> (s, i, m) \<in> offered_services r"

definition insert_service_offered ::
  "ServiceId \<Rightarrow> InstanceId \<Rightarrow> MethodId \<Rightarrow> offered_requested \<Rightarrow> bool \<times> offered_requested" where
  "insert_service_offered s i m r =
     ((s, i, m) \<notin> offered_services r,
      r\<lparr>offered_services := insert (s, i, m) (offered_services r)\<rparr>)"

definition is_service_requested ::
  "ServiceId \<Rightarrow> InstanceId \<Rightarrow> MethodId \<Rightarrow> offered_requested \<Rightarrow> bool" where
  "is_service_requested s i m r \<longleftrightarrow> (s, i, m) \<in> requested_services r"

definition insert_service_requested ::
  "ServiceId \<Rightarrow> InstanceId \<Rightarrow> MethodId \<Rightarrow> offered_requested \<Rightarrow> bool \<times> offered_requested" where
  "insert_service_requested s i m r =
     ((s, i, m) \<notin> requested_services r,
      r\<lparr>requested_services := insert (s, i, m) (requested_services r)\<rparr>)"

definition is_event_offered ::
  "ServiceId \<Rightarrow> InstanceId \<Rightarrow> EventId \<Rightarrow> offered_requested \<Rightarrow> bool" where
  "is_event_offered s i e r \<longleftrightarrow> (s, i, e) \<in> offered_events r"

definition insert_event_offered ::
  "ServiceId \<Rightarrow> InstanceId \<Rightarrow> EventId \<Rightarrow> offered_requested \<Rightarrow> bool \<times> offered_requested" where
  "insert_event_offered s i e r =
     ((s, i, e) \<notin> offered_events r,
      r\<lparr>offered_events := insert (s, i, e) (offered_events r)\<rparr>)"

definition is_event_requested ::
  "ServiceId \<Rightarrow> InstanceId \<Rightarrow> EventId \<Rightarrow> offered_requested \<Rightarrow> bool" where
  "is_event_requested s i e r \<longleftrightarrow> (s, i, e) \<in> requested_events r"

definition insert_event_requested ::
  "ServiceId \<Rightarrow> InstanceId \<Rightarrow> EventId \<Rightarrow> offered_requested \<Rightarrow> bool \<times> offered_requested" where
  "insert_event_requested s i e r =
     ((s, i, e) \<notin> requested_events r,
      r\<lparr>requested_events := insert (s, i, e) (requested_events r)\<rparr>)"

subsection \<open>The contract of one pair of methods\<close>

locale mark_registry =
  fixes marked :: "'k \<Rightarrow> 's \<Rightarrow> bool"
    and mark :: "'k \<Rightarrow> 's \<Rightarrow> bool \<times> 's"
  assumes mark_fresh: "fst (mark k s) \<longleftrightarrow> \<not> marked k s"
    and marked_mark: "marked k (snd (mark j s)) \<longleftrightarrow> k = j \<or> marked k s"
    and mark_absorb: "marked k s \<Longrightarrow> snd (mark k s) = s"
begin

lemma mark_twice: "snd (mark k (snd (mark k s))) = snd (mark k s)"
  by (simp add: mark_absorb marked_mark)

lemma mark_again_not_fresh: "\<not> fst (mark k (snd (mark k s)))"
  by (simp add: mark_fresh marked_mark)

lemma marked_fold:
  "marked k (fold (\<lambda>j s. snd (mark j s)) ks s) \<longleftrightarrow> k \<in> set ks \<or> marked k s"
  by (induction ks arbitrary: s) (auto simp: marked_mark)

lemma mark_keeps: "marked k s \<Longrightarrow> marked k (snd (mark j s))"
  by (simp add: marked_mark)

end

interpretation offered_services: mark_registry
  "\<lambda>(s, i, m). is_service_offered s i m" "\<lambda>(s, i, m). insert_service_offered s i m"
  by unfold_locales
    (auto simp: is_service_offered_def insert_service_offered_def insert_absorb)

interpretation requested_services: mark_registry
  "\<lambda>(s, i, m). is_service_requested s i m" "\<lambda>(s, i, m). insert_service_requested s i m"
  by unfold_locales
    (auto simp: is_service_requested_def insert_service_requested_def insert_absorb)

interpretation offered_events: mark_registry
  "\<lambda>(s, i, e). is_event_offered s i e" "\<lambda>(s, i, e). insert_event_offered s i e"
  by unfold_locales
    (auto simp: is_event_offered_def insert_event_offered_def insert_absorb)

interpretation requested_events: mark_registry
  "\<lambda>(s, i, e). is_event_requested s i e" "\<lambda>(s, i, e). insert_event_requested s i e"
  by unfold_locales
    (auto simp: is_event_requested_def insert_event_requested_def insert_absorb)

end
