(* ===== verification/Rpc_Correlation.thy ===== *)
theory Rpc_Correlation
  imports Utils
begin

text \<open>
  \<^verbatim>\<open>up-transport-vsomeip/src/storage/rpc_correlation.rs\<close>: the registry that links a
  SOME/IP request identifier with the uProtocol request it belongs to, in both directions,
  and that counts the session identifiers of each vsomeip client.

  The session counter is a \<open>u16\<close> incremented with \<open>+=\<close>: at its largest value the
  increment panics in a build with overflow checks and wraps to 0 in one without.  The flag
  \<open>overflow_checks\<close> is that build setting.

  The locale \<open>rpc_correlation_contract\<close> is the contract of the trait
  \<open>RpcCorrelationRegistry\<close> over the three maps a registry stands for; it is interpreted
  here on the in-memory registry and in \<^verbatim>\<open>Storage.thy\<close> on the storage that delegates
  to it.
\<close>

record rpc_correlation =
  ue_request_correlation :: "SomeIpRequestId \<rightharpoonup> uuid \<times> uuri"
  me_request_correlation :: "uuid \<rightharpoonup> SomeIpRequestId"
  client_id_session_id_tracking :: "ClientId \<rightharpoonup> SessionId"

definition rpc_correlation_new :: rpc_correlation where
  "rpc_correlation_new =
     \<lparr>ue_request_correlation = Map.empty, me_request_correlation = Map.empty,
      client_id_session_id_tracking = Map.empty\<rparr>"

definition retrieve_session_id ::
  "bool \<Rightarrow> ClientId \<Rightarrow> rpc_correlation \<Rightarrow> SessionId result \<times> rpc_correlation" where
  "retrieve_session_id overflow_checks client_id r =
     (let tracking = client_id_session_id_tracking r;
          tracking = (case tracking client_id of
                        None \<Rightarrow> tracking(client_id \<mapsto> 1) | Some _ \<Rightarrow> tracking);
          current = (case tracking client_id of Some c \<Rightarrow> c | None \<Rightarrow> 1);
          r = r\<lparr>client_id_session_id_tracking := tracking\<rparr>
      in if overflow_checks \<and> current = 0xFFFF then (Panic, r)
         else (Ok current,
               r\<lparr>client_id_session_id_tracking := tracking(client_id \<mapsto> current + 1)\<rparr>))"

definition insert_ue_request_correlation ::
  "SomeIpRequestId \<Rightarrow> uuid \<Rightarrow> uuri \<Rightarrow> rpc_correlation \<Rightarrow> unit result \<times> rpc_correlation" where
  "insert_ue_request_correlation someip_request_id uprotocol_req_id source_uri r =
     (case ue_request_correlation r someip_request_id of
        Some _ \<Rightarrow> (Err ALREADY_EXISTS, r)
      | None \<Rightarrow> (Ok (), r\<lparr>ue_request_correlation :=
          (ue_request_correlation r)(someip_request_id \<mapsto> (uprotocol_req_id, source_uri))\<rparr>))"

definition remove_ue_request_correlation ::
  "SomeIpRequestId \<Rightarrow> rpc_correlation \<Rightarrow> (uuid \<times> uuri) result \<times> rpc_correlation" where
  "remove_ue_request_correlation someip_request_id r =
     (case ue_request_correlation r someip_request_id of
        None \<Rightarrow> (Err NOT_FOUND, r)
      | Some (uprotocol_req_id, source_uri) \<Rightarrow>
          (Ok (uprotocol_req_id, source_uri),
           r\<lparr>ue_request_correlation := (ue_request_correlation r)(someip_request_id := None)\<rparr>))"

definition insert_me_request_correlation ::
  "uuid \<Rightarrow> SomeIpRequestId \<Rightarrow> rpc_correlation \<Rightarrow> unit result \<times> rpc_correlation" where
  "insert_me_request_correlation uprotocol_req_id someip_request_id r =
     (case me_request_correlation r uprotocol_req_id of
        Some _ \<Rightarrow> (Err ALREADY_EXISTS, r)
      | None \<Rightarrow> (Ok (), r\<lparr>me_request_correlation :=
          (me_request_correlation r)(uprotocol_req_id \<mapsto> someip_request_id)\<rparr>))"

definition remove_me_request_correlation ::
  "uuid \<Rightarrow> rpc_correlation \<Rightarrow> SomeIpRequestId result \<times> rpc_correlation" where
  "remove_me_request_correlation uprotocol_req_id r =
     (case me_request_correlation r uprotocol_req_id of
        None \<Rightarrow> (Err NOT_FOUND, r)
      | Some someip_request_id \<Rightarrow>
          (Ok someip_request_id,
           r\<lparr>me_request_correlation := (me_request_correlation r)(uprotocol_req_id := None)\<rparr>))"

subsection \<open>The contract of a correlation table\<close>

text \<open>
  Both directions are the same kind of table: \<open>put\<close> refuses a key that is in use, \<open>take\<close>
  hands an entry out once.
\<close>

locale correlation_table =
  fixes table :: "'s \<Rightarrow> 'k \<rightharpoonup> 'v"
    and put :: "'k \<Rightarrow> 'v \<Rightarrow> 's \<Rightarrow> unit result \<times> 's"
    and take_out :: "'k \<Rightarrow> 's \<Rightarrow> 'v result \<times> 's"
  assumes put_vacant: "table s k = None \<Longrightarrow>
      \<exists>t. put k v s = (Ok (), t) \<and> table t = (table s)(k \<mapsto> v)"
    and put_occupied: "table s k = Some w \<Longrightarrow> put k v s = (Err ALREADY_EXISTS, s)"
    and take_present: "table s k = Some v \<Longrightarrow>
      \<exists>t. take_out k s = (Ok v, t) \<and> table t = (table s)(k := None)"
    and take_absent: "table s k = None \<Longrightarrow> take_out k s = (Err NOT_FOUND, s)"
begin

lemma put_Ok_iff:
  "fst (put k v s) = Ok () \<longleftrightarrow> table s k = None"
  using put_vacant [of s k v] put_occupied [of s k _ v] by (cases "table s k") auto

lemma put_then_take:
  assumes "put k v s = (Ok (), t)"
  shows "\<exists>u. take_out k t = (Ok v, u) \<and> table u = table s"
proof -
  have vac: "table s k = None"
    using put_Ok_iff [of k v s] assms by simp
  with put_vacant [of s k v] assms have t: "table t = (table s)(k \<mapsto> v)"
    by auto
  then have "table t k = Some v" by simp
  from take_present [OF this] t vac show ?thesis by (auto simp: fun_eq_iff)
qed

lemma take_only_once:
  assumes "take_out k s = (Ok v, t)"
  shows "take_out k t = (Err NOT_FOUND, t)"
proof (cases "table s k")
  case None
  with take_absent assms show ?thesis by fastforce
next
  case (Some w)
  with take_present [of s k w] assms have "table t k = None" by auto
  then show ?thesis by (rule take_absent)
qed

lemma put_keeps_other:
  assumes "k \<noteq> j" shows "table (snd (put k v s)) j = table s j"
  by (cases "table s k")
    (use assms put_vacant [of s k v] put_occupied [of s k _ v] in auto)

lemma take_keeps_other:
  assumes "k \<noteq> j" shows "table (snd (take_out k s)) j = table s j"
  by (cases "table s k")
    (use assms take_present [of s k] take_absent [of s k] in auto)

text \<open>An entry survives whatever is put or taken under other keys.\<close>

lemma put_survives:
  assumes put: "put k v s = (Ok (), t)"
    and others: "\<And>f. f \<in> set fs \<Longrightarrow> \<exists>j w. j \<noteq> k \<and>
        ((\<forall>x. f x = snd (put j w x)) \<or> (\<forall>x. f x = snd (take_out j x)))"
  shows "fst (take_out k (fold (\<lambda>f. f) fs t)) = Ok v"
proof -
  have keep: "table (fold (\<lambda>f. f) fs x) k = table x k" for x
    using others
  proof (induction fs arbitrary: x)
    case Nil
    then show ?case by simp
  next
    case (Cons f fs)
    from Cons.prems obtain j w where "j \<noteq> k"
      and "(\<forall>x. f x = snd (put j w x)) \<or> (\<forall>x. f x = snd (take_out j x))"
      by force
    then have "table (f x) k = table x k"
      using put_keeps_other take_keeps_other by metis
    moreover have "table (fold (\<lambda>f. f) fs (f x)) k = table (f x) k"
      using Cons.prems by (intro Cons.IH) auto
    ultimately show ?case by simp
  qed
  from put_vacant [of s k v] put put_Ok_iff [of k v s] have "table t k = Some v" by auto
  with keep have "table (fold (\<lambda>f. f) fs t) k = Some v" by simp
  from take_present [OF this] show ?thesis by auto
qed

end

text \<open>The whole trait: two tables and the session counter.\<close>

locale rpc_correlation_contract =
  ue: correlation_table ue_table "\<lambda>k v. put_ue k (fst v) (snd v)" take_ue +
  me: correlation_table me_table put_me take_me
  for ue_table :: "'s \<Rightarrow> SomeIpRequestId \<rightharpoonup> uuid \<times> uuri"
    and put_ue :: "SomeIpRequestId \<Rightarrow> uuid \<Rightarrow> uuri \<Rightarrow> 's \<Rightarrow> unit result \<times> 's"
    and take_ue :: "SomeIpRequestId \<Rightarrow> 's \<Rightarrow> (uuid \<times> uuri) result \<times> 's"
    and me_table :: "'s \<Rightarrow> uuid \<rightharpoonup> SomeIpRequestId"
    and put_me :: "uuid \<Rightarrow> SomeIpRequestId \<Rightarrow> 's \<Rightarrow> unit result \<times> 's"
    and take_me :: "uuid \<Rightarrow> 's \<Rightarrow> SomeIpRequestId result \<times> 's" +
  fixes sessions :: "'s \<Rightarrow> ClientId \<rightharpoonup> SessionId"
    and next_session :: "bool \<Rightarrow> ClientId \<Rightarrow> 's \<Rightarrow> SessionId result \<times> 's"
  assumes next_session_ok: "\<not> (oc \<and> sessions s c = Some 0xFFFF) \<Longrightarrow>
      \<exists>t. next_session oc c s =
            (Ok (case sessions s c of None \<Rightarrow> 1 | Some n \<Rightarrow> n), t) \<and>
          sessions t = (sessions s)(c \<mapsto> (case sessions s c of None \<Rightarrow> 1 | Some n \<Rightarrow> n) + 1) \<and>
          ue_table t = ue_table s \<and> me_table t = me_table s"
    and next_session_panic: "sessions s c = Some 0xFFFF \<Longrightarrow>
      next_session True c s = (Panic, s)"
    and take_ue_sessions: "sessions (snd (take_ue k s)) = sessions s"
    and put_ue_sessions: "sessions (snd (put_ue k i u s)) = sessions s"
begin

text \<open>Until the counter reaches its largest value the calls count upwards.\<close>

lemma next_session_counts:
  assumes "sessions s c = Some k" and "unat k + n \<le> 65535"
  shows "fst (repeat_call (next_session oc c) n s) = map (\<lambda>j. Ok (k + of_nat j)) [0..<n]"
  using assms
proof (induction n arbitrary: s k)
  case 0
  then show ?case by simp
next
  case (Suc n)
  have lt: "unat k < 65535" using Suc.prems(2) by simp
  then have ne: "k \<noteq> 0xFFFF" by auto
  then obtain t where step: "next_session oc c s = (Ok k, t)"
    and t: "sessions t c = Some (k + 1)"
    using next_session_ok [of oc s c] Suc.prems(1) by auto
  have "unat (k + 1) = unat k + 1"
    using lt by (simp add: unat_word_ariths)
  then have rest: "fst (repeat_call (next_session oc c) n t) = map (\<lambda>j. Ok (k + 1 + of_nat j)) [0..<n]"
    using Suc.prems(2) by (intro Suc.IH [OF t]) simp
  have "(map (\<lambda>j. Ok (k + of_nat j)) [0..<Suc n] :: SessionId result list) =
      Ok k # map (\<lambda>j. Ok (k + 1 + of_nat j)) [0..<n]"
    by (simp only: upt_conv_Cons [OF zero_less_Suc] map_Suc_upt [symmetric])
      (simp add: algebra_simps)
  with step rest show ?case by (simp add: case_prod_unfold del: upt_Suc)
qed

lemma next_session_state:
  assumes "sessions s c = Some k" and "unat k + n \<le> 65535"
  shows "sessions (snd (repeat_call (next_session oc c) n s)) c = Some (k + of_nat n)"
  using assms
proof (induction n arbitrary: s k)
  case (Suc n)
  have lt: "unat k < 65535" using Suc.prems(2) by simp
  then have "k \<noteq> 0xFFFF" by auto
  then obtain t where step: "next_session oc c s = (Ok k, t)" and t: "sessions t c = Some (k + 1)"
    using next_session_ok [of oc s c] Suc.prems(1) by auto
  have "unat (k + 1) = unat k + 1"
    using lt by (simp add: unat_word_ariths)
  with Suc.IH [OF t] Suc.prems(2) step show ?case
    by (simp add: case_prod_unfold Let_def algebra_simps)
qed simp

text \<open>The numbers a client that has no entry yet is given.\<close>

lemma first_sessions:
  assumes "sessions s c = None" "n \<le> 65534"
  shows "fst (repeat_call (next_session oc c) n s) = map (\<lambda>j. Ok (of_nat (Suc j))) [0..<n]"
    and "0 < n \<Longrightarrow> sessions (snd (repeat_call (next_session oc c) n s)) c = Some (of_nat (Suc n))"
proof -
  obtain t where step: "next_session oc c s = (Ok 1, t)" and t: "sessions t c = Some 2"
    using next_session_ok [of oc s c] assms(1) by auto
  have rest: "fst (repeat_call (next_session oc c) m t) = map (\<lambda>j. Ok (2 + of_nat j)) [0..<m]"
    "sessions (snd (repeat_call (next_session oc c) m t)) c = Some (2 + of_nat m)"
    if "Suc m = n" for m
    using next_session_counts [OF t, of m oc] next_session_state [OF t, of m oc] that assms(2)
    by simp_all
  show "fst (repeat_call (next_session oc c) n s) = map (\<lambda>j. Ok (of_nat (Suc j))) [0..<n]"
  proof (cases n)
    case (Suc m)
    have "(map (\<lambda>j. Ok (of_nat (Suc j))) [0..<Suc m] :: SessionId result list) =
        Ok 1 # map (\<lambda>j. Ok (2 + of_nat j)) [0..<m]"
      by (simp only: upt_conv_Cons [OF zero_less_Suc] map_Suc_upt [symmetric]) simp
    with Suc step rest(1) [of m] show ?thesis by (simp add: case_prod_unfold del: upt_Suc)
  qed simp
  show "sessions (snd (repeat_call (next_session oc c) n s)) c = Some (of_nat (Suc n))" if "0 < n"
    using step rest(2) [of "n - 1"] that
    by (cases n) (simp_all add: case_prod_unfold Let_def)
qed

end

interpretation rpc: rpc_correlation_contract
  ue_request_correlation insert_ue_request_correlation remove_ue_request_correlation
  me_request_correlation insert_me_request_correlation remove_me_request_correlation
  client_id_session_id_tracking retrieve_session_id
  by unfold_locales
    (auto simp: insert_ue_request_correlation_def remove_ue_request_correlation_def
      insert_me_request_correlation_def remove_me_request_correlation_def
      retrieve_session_id_def Let_def split: option.splits)

end
