(* ===== verification/Extern_Fns.thy ===== *)
theory Extern_Fns
  imports Up_Types
begin

text \<open>
  The process-wide statics and the two pools of \<open>extern "C"\<close> functions.

  \<^item> \<^verbatim>\<open>vsomeip-proc-macro/src/lib.rs\<close>: the macros that expand to \<open>n\<close> numbered functions,
    a match over them and a set of free numbers, and, for the state handlers, one bounded
    channel per number.
  \<^item> \<^verbatim>\<open>storage/application_state_availability_handler_registry.rs\<close>: taking a state handler
    number and giving it back.

  \<open>HashSet::iter().next()\<close> returns some element, in no specified order: the argument
  \<open>pick\<close> is that choice, and \<open>iterates_members\<close> says that it chooses a member.
  A \<open>Weak\<close> reference to a transport's storage is the identity of the allocation.
\<close>

datatype message_handler_fn_ptr = Extern_fn_message_handler nat

datatype state_handler_fn_ptr = Available_state_handler_extern_fn nat

datatype state_type = ST_REGISTERED | ST_DEREGISTERED

type_synonym storage_ref = nat

record statics =
  free_message_handler_ids :: "MessageHandlerId set"
  message_handler_id_to_transport_storage :: "MessageHandlerId \<rightharpoonup> storage_ref"
  free_state_handler_ids :: "nat set"
  available_state_channels :: "nat \<rightharpoonup> state_type list"
  init_done :: bool

definition num_message_handlers :: nat where "num_message_handlers = 10000"

definition num_state_handlers :: nat where "num_state_handlers = 1000"

definition state_channel_capacity :: nat where "state_channel_capacity = 1000"

definition iterates_members :: "(nat set \<Rightarrow> nat) \<Rightarrow> bool" where
  "iterates_members pick \<longleftrightarrow> (\<forall>ids. finite ids \<and> ids \<noteq> {} \<longrightarrow> pick ids \<in> ids)"

lemma iterates_members_Min: "iterates_members Min"
  by (simp add: iterates_members_def)

subsection \<open>The expansion of the macros\<close>

definition handler_ids_init :: "nat \<Rightarrow> nat set" where
  "handler_ids_init num_fns = fold insert [0..<num_fns] {}"

definition message_handler_match_arms :: "nat \<Rightarrow> (nat \<times> message_handler_fn_ptr) list" where
  "message_handler_match_arms num_fns =
     map (\<lambda>i. (i, Extern_fn_message_handler i)) [0..<num_fns]"

definition get_message_extern_fn :: "nat \<Rightarrow> message_handler_fn_ptr result" where
  "get_message_extern_fn message_handler_id =
     (case map_of (message_handler_match_arms num_message_handlers) message_handler_id of
        Some f \<Rightarrow> Ok f | None \<Rightarrow> Panic)"

definition state_handler_match_arms :: "nat \<Rightarrow> (nat \<times> state_handler_fn_ptr) list" where
  "state_handler_match_arms num_fns =
     map (\<lambda>i. (i, Available_state_handler_extern_fn i)) [0..<num_fns]"

text \<open>The receiver handed out is a clone of channel \<open>i\<close>'s, so it is named by \<open>i\<close>.\<close>

definition get_state_extern_fn ::
  "nat \<Rightarrow> statics \<Rightarrow> (state_handler_fn_ptr \<times> nat) result" where
  "get_state_extern_fn available_handler_id g =
     (case map_of (state_handler_match_arms num_state_handlers) available_handler_id of
        None \<Rightarrow> Panic
      | Some extern_fn \<Rightarrow>
          (case available_state_channels g available_handler_id of
             None \<Rightarrow> Panic
           | Some _ \<Rightarrow> Ok (extern_fn, available_handler_id)))"

definition initialize_sender_receiver :: "statics \<Rightarrow> statics" where
  "initialize_sender_receiver g =
     g\<lparr>available_state_channels :=
         fold (\<lambda>i m. m(i \<mapsto> [])) [0..<num_state_handlers] (available_state_channels g)\<rparr>"

text \<open>
  The state handler functions' shared body.  \<open>send\<close> on a full bounded channel blocks:
  then there is no next state.
\<close>

definition call_shared_state_fn :: "nat \<Rightarrow> state_type \<Rightarrow> statics \<Rightarrow> statics option" where
  "call_shared_state_fn available_handler_id available_state g =
     (case available_state_channels g available_handler_id of
        None \<Rightarrow> Some g
      | Some q \<Rightarrow>
          if length q < state_channel_capacity
          then Some (g\<lparr>available_state_channels :=
                 (available_state_channels g)(available_handler_id \<mapsto> q @ [available_state])\<rparr>)
          else None)"

text \<open>\<open>recv_timeout\<close> on a receiver: the oldest state sent, or a timeout.\<close>

definition recv_state :: "nat \<Rightarrow> statics \<Rightarrow> state_type option \<times> statics" where
  "recv_state receiver g =
     (case available_state_channels g receiver of
        Some (x # q) \<Rightarrow>
          (Some x, g\<lparr>available_state_channels := (available_state_channels g)(receiver \<mapsto> q)\<rparr>)
      | _ \<Rightarrow> (None, g))"

definition statics_init :: statics where
  "statics_init =
     \<lparr>free_message_handler_ids = handler_ids_init num_message_handlers,
      message_handler_id_to_transport_storage = Map.empty,
      free_state_handler_ids = handler_ids_init num_state_handlers,
      available_state_channels = Map.empty, init_done = False\<rparr>"

subsection \<open>The state handler registry\<close>

definition new_trait_obj :: "statics \<Rightarrow> statics" where
  "new_trait_obj g =
     (if init_done g then g else (initialize_sender_receiver g)\<lparr>init_done := True\<rparr>)"

definition get_state_handler ::
  "nat \<Rightarrow> statics \<Rightarrow> (state_handler_fn_ptr \<times> nat) result" where
  "get_state_handler state_handler_id g = get_state_extern_fn state_handler_id g"

definition free_state_handler_id :: "nat \<Rightarrow> statics \<Rightarrow> unit result \<times> statics" where
  "free_state_handler_id state_handler_id g =
     (Ok (), g\<lparr>free_state_handler_ids := insert state_handler_id (free_state_handler_ids g)\<rparr>)"

definition find_available_state_handler_id ::
  "(nat set \<Rightarrow> nat) \<Rightarrow> statics \<Rightarrow> nat result \<times> statics" where
  "find_available_state_handler_id pick g =
     (let ids = free_state_handler_ids g
      in if ids = {} then (Err RESOURCE_EXHAUSTED, g)
         else let i = pick ids in (Ok i, g\<lparr>free_state_handler_ids := ids - {i}\<rparr>))"

subsection \<open>What the expansion computes\<close>

lemma handler_ids_init_eq [simp]: "handler_ids_init n = {..<n}"
  by (auto simp: handler_ids_init_def simp flip: union_set_fold)

lemma map_of_map_upt: "map_of (map (\<lambda>i. (i, f i)) [0..<n]) i = (if i < n then Some (f i) else None)"
  by (simp add: map_of_map_restrict restrict_map_def)

lemma get_message_extern_fn_eq:
  "get_message_extern_fn i =
     (if i < num_message_handlers then Ok (Extern_fn_message_handler i) else Panic)"
  by (simp add: get_message_extern_fn_def message_handler_match_arms_def map_of_map_upt)

lemma get_state_handler_eq:
  "get_state_handler i g =
     (if i < num_state_handlers \<and> available_state_channels g i \<noteq> None
      then Ok (Available_state_handler_extern_fn i, i) else Panic)"
  by (auto simp: get_state_handler_def get_state_extern_fn_def state_handler_match_arms_def
      map_of_map_upt split: option.splits)

lemma fold_upd_upt:
  "fold (\<lambda>i m. m(i \<mapsto> v)) [0..<n] m i = (if i < n then Some v else m i)"
  by (induction n) auto

lemma new_trait_obj_channels:
  assumes "init_done g \<Longrightarrow> {..<num_state_handlers} \<subseteq> dom (available_state_channels g)"
  shows "{..<num_state_handlers} \<subseteq> dom (available_state_channels (new_trait_obj g))"
  using assms by (auto simp: new_trait_obj_def initialize_sender_receiver_def fold_upd_upt)

subsection \<open>The contract of a pool of numbers\<close>

locale id_pool =
  fixes free_ids :: "'g \<Rightarrow> nat set"
    and find_id :: "(nat set \<Rightarrow> nat) \<Rightarrow> 'g \<Rightarrow> nat result \<times> 'g"
    and free_id :: "nat \<Rightarrow> 'g \<Rightarrow> unit result \<times> 'g"
  assumes find_empty: "free_ids g = {} \<Longrightarrow> find_id pick g = (Err RESOURCE_EXHAUSTED, g)"
    and find_some: "free_ids g \<noteq> {} \<Longrightarrow> \<exists>h. find_id pick g = (Ok (pick (free_ids g)), h) \<and>
        free_ids h = free_ids g - {pick (free_ids g)}"
    and free_adds: "\<exists>h. free_id i g = (Ok (), h) \<and> free_ids h = insert i (free_ids g)"
begin

lemma find_OkD:
  assumes "iterates_members pick" "finite (free_ids g)" "find_id pick g = (Ok i, h)"
  shows "i \<in> free_ids g \<and> free_ids h = free_ids g - {i}"
  using assms find_empty [of g pick] find_some [of g pick]
  by (cases "free_ids g = {}") (auto simp: iterates_members_def)

lemma find_then_free:
  assumes "iterates_members pick" "finite (free_ids g)" "find_id pick g = (Ok i, h)"
  shows "\<exists>k. free_id i h = (Ok (), k) \<and> free_ids k = free_ids g"
  using find_OkD [OF assms] free_adds [of i h] by auto

lemma find_many:
  assumes "iterates_members pick" "finite (free_ids g)" "n \<le> card (free_ids g)"
  shows "\<exists>is. fst (repeat_call (find_id pick) n g) = map Ok is \<and> length is = n \<and>
           distinct is \<and> set is \<subseteq> free_ids g \<and>
           free_ids (snd (repeat_call (find_id pick) n g)) = free_ids g - set is"
  using assms(2,3)
proof (induction n arbitrary: g)
  case 0
  then show ?case by simp
next
  case (Suc n)
  then have "free_ids g \<noteq> {}" by auto
  then obtain h where step: "find_id pick g = (Ok (pick (free_ids g)), h)"
    using find_some by blast
  let ?i = "pick (free_ids g)"
  have i: "?i \<in> free_ids g" and h: "free_ids h = free_ids g - {?i}"
    using find_OkD [OF assms(1) Suc.prems(1) step] by auto
  then have "finite (free_ids h)" "n \<le> card (free_ids h)" using Suc.prems by auto
  from Suc.IH [OF this] obtain js where "fst (repeat_call (find_id pick) n h) = map Ok js"
    "length js = n" "distinct js" "set js \<subseteq> free_ids h"
    "free_ids (snd (repeat_call (find_id pick) n h)) = free_ids h - set js" by blast
  with step i h show ?case
    by (intro exI [of _ "?i # js"]) (auto simp: case_prod_unfold)
qed

end

interpretation state_pool: id_pool
  free_state_handler_ids find_available_state_handler_id free_state_handler_id
  by unfold_locales
    (auto simp: find_available_state_handler_id_def free_state_handler_id_def Let_def)

end
