(* ===== verification/Message_Handler_Registry.thy ===== *)
theory Message_Handler_Registry
  imports Extern_Fns
begin

text \<open>
  \<^verbatim>\<open>up-transport-vsomeip/src/storage/message_handler_registry.rs\<close>: handing out
  \<open>extern "C"\<close> functions to listeners and taking them back.

  The registry keeps a \<open>BiMap\<close> of the third-party crate bimap.  Its operations are the
  fields of \<open>bimap_api\<close>, an argument of the definitions; the locale \<open>bimap_spec\<close> states
  their documented laws (\<open>bm_ok\<close> is the crate's own representation invariant), and
  \<open>pair_bimap\<close> is an implementation that satisfies them.

  A method takes its locks before it changes anything, so it is one step on the pair of the
  process-wide \<open>statics\<close> and the registry's bimap (\<open>Registry_Locks\<close> has the locks one by one and
  shows that this is so).  The locale \<open>handler_registry_contract\<close> is the
  contract of the trait \<open>MessageHandlerRegistry\<close>: over the partial map from handler numbers
  to listener configurations the methods are an allocation, a deallocation and two queries.
\<close>

type_synonym listener_config = "uuri \<times> uuri option \<times> listener"

record 'bm bimap_api =
  bm_new :: 'bm
  bm_insert_no_overwrite :: "nat \<Rightarrow> listener_config \<Rightarrow> 'bm \<Rightarrow> 'bm option"
  bm_get_by_left :: "'bm \<Rightarrow> nat \<Rightarrow> listener_config option"
  bm_get_by_right :: "'bm \<Rightarrow> listener_config \<Rightarrow> nat option"
  bm_contains_left :: "'bm \<Rightarrow> nat \<Rightarrow> bool"
  bm_contains_right :: "'bm \<Rightarrow> listener_config \<Rightarrow> bool"
  bm_remove_by_left :: "nat \<Rightarrow> 'bm \<Rightarrow> (nat \<times> listener_config) option \<times> 'bm"
  bm_left_values :: "'bm \<Rightarrow> nat list"

locale bimap_spec =
  fixes B :: "'bm bimap_api" and bm_ok :: "'bm \<Rightarrow> bool"
  assumes new_ok: "bm_ok (bm_new B)" "bm_get_by_left B (bm_new B) i = None"
    and right_left: "bm_ok m \<Longrightarrow> bm_get_by_right B m c = Some i \<longleftrightarrow> bm_get_by_left B m i = Some c"
    and contains_left: "bm_ok m \<Longrightarrow> bm_contains_left B m i \<longleftrightarrow> bm_get_by_left B m i \<noteq> None"
    and contains_right: "bm_ok m \<Longrightarrow> bm_contains_right B m c \<longleftrightarrow> bm_get_by_right B m c \<noteq> None"
    and insert_refused: "bm_ok m \<Longrightarrow> bm_contains_left B m i \<or> bm_contains_right B m c \<Longrightarrow>
      bm_insert_no_overwrite B i c m = None"
    and insert_added: "bm_ok m \<Longrightarrow> \<not> bm_contains_left B m i \<Longrightarrow> \<not> bm_contains_right B m c \<Longrightarrow>
      \<exists>m'. bm_insert_no_overwrite B i c m = Some m' \<and> bm_ok m' \<and>
           bm_get_by_left B m' = (bm_get_by_left B m)(i \<mapsto> c)"
    and remove_present: "bm_ok m \<Longrightarrow> bm_get_by_left B m i = Some c \<Longrightarrow>
      \<exists>m'. bm_remove_by_left B i m = (Some (i, c), m') \<and> bm_ok m' \<and>
           bm_get_by_left B m' = (bm_get_by_left B m)(i := None)"
    and remove_absent: "bm_ok m \<Longrightarrow> bm_get_by_left B m i = None \<Longrightarrow>
      bm_remove_by_left B i m = (None, m)"
    and left_values: "bm_ok m \<Longrightarrow> set (bm_left_values B m) = dom (bm_get_by_left B m)"
      "bm_ok m \<Longrightarrow> distinct (bm_left_values B m)"

subsection \<open>The methods\<close>

datatype get_message_handler_error =
    ListenerIdAlreadyExists MessageHandlerId
  | ListenerConfigAlreadyExists message_handler_fn_ptr
  | OtherError ucode

datatype message_handler_id_and_listener_config_error =
    MessageHandlerIdAlreadyExists MessageHandlerId
  | BothListenerConfigAlreadyExists

definition find_available_message_handler_id ::
  "(nat set \<Rightarrow> nat) \<Rightarrow> nat set \<Rightarrow> nat result \<times> nat set" where
  "find_available_message_handler_id pick ids =
     (if ids = {} then (Err RESOURCE_EXHAUSTED, ids)
      else let i = pick ids in (Ok i, ids - {i}))"

definition free_message_handler_id :: "nat \<Rightarrow> nat set \<Rightarrow> unit result \<times> nat set" where
  "free_message_handler_id listener_id ids = (Ok (), insert listener_id ids)"

definition insert_message_handler_id_transport ::
  "nat \<Rightarrow> storage_ref \<Rightarrow> (nat \<rightharpoonup> storage_ref) \<Rightarrow> unit result \<times> (nat \<rightharpoonup> storage_ref)" where
  "insert_message_handler_id_transport listener_id transport m =
     (case m listener_id of
        None \<Rightarrow> (Ok (), m(listener_id \<mapsto> transport))
      | Some _ \<Rightarrow> (Err ALREADY_EXISTS, m))"

definition remove_message_handler_id_transport ::
  "nat \<Rightarrow> (nat \<rightharpoonup> storage_ref) \<Rightarrow> unit result \<times> (nat \<rightharpoonup> storage_ref)" where
  "remove_message_handler_id_transport listener_id m =
     (if listener_id \<in> dom m then (Ok (), m(listener_id := None)) else (Err NOT_FOUND, m))"

definition insert_message_handler_id_and_listener_config ::
  "'bm bimap_api \<Rightarrow> nat \<Rightarrow> listener_config \<Rightarrow> 'bm \<Rightarrow>
     (message_handler_id_and_listener_config_error, unit) outcome \<times> 'bm" where
  "insert_message_handler_id_and_listener_config B message_handler_id listener_config m =
     (case bm_insert_no_overwrite B message_handler_id listener_config m of
        Some m' \<Rightarrow> (Ok (), m')
      | None \<Rightarrow>
          if bm_contains_left B m message_handler_id
          then (Err (MessageHandlerIdAlreadyExists message_handler_id), m)
          else if bm_contains_right B m listener_config
          then (Err BothListenerConfigAlreadyExists, m)
          else (Ok (), m))"

definition remove_based_on_message_handler_id ::
  "'bm bimap_api \<Rightarrow> nat \<Rightarrow> 'bm \<Rightarrow> unit result \<times> 'bm" where
  "remove_based_on_message_handler_id B message_handler_id m =
     (case bm_remove_by_left B message_handler_id m of
        (None, m') \<Rightarrow> (Err NOT_FOUND, m')
      | (Some _, m') \<Rightarrow> (Ok (), m'))"

text \<open>
  The rollback steps are closures over the locked state, run in the order they were pushed.
\<close>

definition rollback_free_id :: "nat \<Rightarrow> statics \<Rightarrow> statics" where
  "rollback_free_id i g =
     g\<lparr>free_message_handler_ids := snd (free_message_handler_id i (free_message_handler_ids g))\<rparr>"

definition rollback_remove_transport :: "nat \<Rightarrow> statics \<Rightarrow> statics" where
  "rollback_remove_transport i g =
     g\<lparr>message_handler_id_to_transport_storage :=
         snd (remove_message_handler_id_transport i (message_handler_id_to_transport_storage g))\<rparr>"

definition run_rollback :: "(statics \<Rightarrow> statics) list \<Rightarrow> statics \<Rightarrow> statics" where
  "run_rollback rollback_steps g = fold (\<lambda>rollback_step g. rollback_step g) rollback_steps g"

definition get_message_handler ::
  "'bm bimap_api \<Rightarrow> (nat set \<Rightarrow> nat) \<Rightarrow> storage_ref \<Rightarrow> listener_config \<Rightarrow> statics \<times> 'bm \<Rightarrow>
     (get_message_handler_error, message_handler_fn_ptr) outcome \<times> statics \<times> 'bm" where
  "get_message_handler B pick transport_storage listener_config s =
     (let (g, m) = s in
      case find_available_message_handler_id pick (free_message_handler_ids g) of
        (Ok message_handler_id, ids) \<Rightarrow>
          let g = g\<lparr>free_message_handler_ids := ids\<rparr>;
              rollback_steps = [rollback_free_id message_handler_id];
              (insert_res, t) = insert_message_handler_id_transport message_handler_id
                 transport_storage (message_handler_id_to_transport_storage g);
              g = g\<lparr>message_handler_id_to_transport_storage := t\<rparr>
          in (case insert_res of
                Ok _ \<Rightarrow>
                  let rollback_steps =
                        rollback_steps @ [rollback_remove_transport message_handler_id];
                      (insert_res, m) = insert_message_handler_id_and_listener_config B
                         message_handler_id listener_config m
                  in (case insert_res of
                        Ok _ \<Rightarrow>
                          (case get_message_extern_fn message_handler_id of
                             Ok f \<Rightarrow> (Ok f, g, m)
                           | _ \<Rightarrow> (Panic, g, m))
                      | Err (MessageHandlerIdAlreadyExists listener_id) \<Rightarrow>
                          (Err (ListenerIdAlreadyExists listener_id),
                           run_rollback rollback_steps g, m)
                      | Err BothListenerConfigAlreadyExists \<Rightarrow>
                          (case get_message_extern_fn message_handler_id of
                             Ok f \<Rightarrow> (Err (ListenerConfigAlreadyExists f),
                                      run_rollback rollback_steps g, m)
                           | _ \<Rightarrow> (Panic, run_rollback rollback_steps g, m))
                      | Panic \<Rightarrow> (Panic, g, m))
              | Err err \<Rightarrow> (Err (OtherError err), run_rollback rollback_steps g, m)
              | Panic \<Rightarrow> (Panic, g, m))
      | (_, ids) \<Rightarrow>
          (Err (OtherError RESOURCE_EXHAUSTED), g\<lparr>free_message_handler_ids := ids\<rparr>, m))"

definition get_message_handler_id_for_listener_config ::
  "'bm bimap_api \<Rightarrow> 'bm \<Rightarrow> listener_config \<Rightarrow> nat option" where
  "get_message_handler_id_for_listener_config B m listener_config =
     bm_get_by_right B m listener_config"

definition release_message_handler ::
  "'bm bimap_api \<Rightarrow> listener_config \<Rightarrow> statics \<times> 'bm \<Rightarrow> unit result \<times> statics \<times> 'bm" where
  "release_message_handler B listener_config s =
     (let (g, m) = s in
      case get_message_handler_id_for_listener_config B m listener_config of
        None \<Rightarrow> (Err NOT_FOUND, g, m)
      | Some message_handler_id \<Rightarrow>
          let (_, ids) = free_message_handler_id message_handler_id (free_message_handler_ids g);
              g = g\<lparr>free_message_handler_ids := ids\<rparr>;
              (_, t) = remove_message_handler_id_transport message_handler_id
                 (message_handler_id_to_transport_storage g);
              g = g\<lparr>message_handler_id_to_transport_storage := t\<rparr>;
              (_, m) = remove_based_on_message_handler_id B message_handler_id m
          in (Ok (), g, m))"

definition get_message_handler_ids :: "'bm bimap_api \<Rightarrow> 'bm \<Rightarrow> nat list" where
  "get_message_handler_ids B m = bm_left_values B m"

definition get_listener_config_for_message_handler_id ::
  "'bm bimap_api \<Rightarrow> 'bm \<Rightarrow> nat \<Rightarrow> listener_config option" where
  "get_listener_config_for_message_handler_id B m message_handler_id =
     (case bm_get_by_left B m message_handler_id of
        None \<Rightarrow> None
      | Some (src, sink, comp_listener) \<Rightarrow> Some (src, sink, comp_listener))"

fun collect_listener_configs ::
  "'bm bimap_api \<Rightarrow> 'bm \<Rightarrow> nat list \<Rightarrow> listener_config list" where
  "collect_listener_configs B m [] = []"
| "collect_listener_configs B m (message_handler_id # ids) =
     (case get_listener_config_for_message_handler_id B m message_handler_id of
        None \<Rightarrow> collect_listener_configs B m ids
      | Some listener_config \<Rightarrow> listener_config # collect_listener_configs B m ids)"

definition get_all_listener_configs :: "'bm bimap_api \<Rightarrow> 'bm \<Rightarrow> listener_config list" where
  "get_all_listener_configs B m = collect_listener_configs B m (get_message_handler_ids B m)"

definition get_listener_for_message_handler_id ::
  "'bm bimap_api \<Rightarrow> 'bm \<Rightarrow> nat \<Rightarrow> listener option" where
  "get_listener_for_message_handler_id B m message_handler_id =
     (case bm_get_by_left B m message_handler_id of
        None \<Rightarrow> None
      | Some (_, _, comp_listener) \<Rightarrow> Some comp_listener)"

subsection \<open>The pool of message handler numbers\<close>

interpretation message_pool: id_pool
  "\<lambda>ids. ids" find_available_message_handler_id free_message_handler_id
  by unfold_locales
    (auto simp: find_available_message_handler_id_def free_message_handler_id_def Let_def)

subsection \<open>The invariant\<close>

text \<open>
  Every number below the number of generated functions is either free or assigned to one
  storage; the bimap of storage \<open>self\<close> lists exactly the numbers assigned to \<open>self\<close>.
\<close>

definition statics_ok :: "statics \<Rightarrow> bool" where
  "statics_ok g \<longleftrightarrow>
     dom (message_handler_id_to_transport_storage g) \<subseteq> {..<num_message_handlers} \<and>
     free_message_handler_ids g =
       {..<num_message_handlers} - dom (message_handler_id_to_transport_storage g)"

definition registry_inv ::
  "'bm bimap_api \<Rightarrow> ('bm \<Rightarrow> bool) \<Rightarrow> storage_ref \<Rightarrow> statics \<times> 'bm \<Rightarrow> bool" where
  "registry_inv B bm_ok self s \<longleftrightarrow>
     bm_ok (snd s) \<and> statics_ok (fst s) \<and>
     dom (bm_get_by_left B (snd s)) =
       {i. message_handler_id_to_transport_storage (fst s) i = Some self}"

lemma statics_ok_init: "statics_ok statics_init"
  by (simp add: statics_ok_def statics_init_def)

lemma statics_ok_finite: "statics_ok g \<Longrightarrow> finite (free_message_handler_ids g)"
  by (simp add: statics_ok_def)

lemma statics_ok_free:
  "statics_ok g \<Longrightarrow> i \<in> free_message_handler_ids g \<Longrightarrow>
     i < num_message_handlers \<and> message_handler_id_to_transport_storage g i = None"
  by (auto simp: statics_ok_def)

lemma statics_ok_assign:
  assumes "statics_ok g" "i \<in> free_message_handler_ids g"
  shows "statics_ok (g\<lparr>free_message_handler_ids := free_message_handler_ids g - {i},
    message_handler_id_to_transport_storage :=
      (message_handler_id_to_transport_storage g)(i \<mapsto> self)\<rparr>)"
  using assms by (auto simp: statics_ok_def)

lemma statics_ok_unassign:
  assumes "statics_ok g" "i < num_message_handlers"
  shows "statics_ok (g\<lparr>free_message_handler_ids := insert i (free_message_handler_ids g),
    message_handler_id_to_transport_storage :=
      (message_handler_id_to_transport_storage g)(i := None)\<rparr>)"
  using assms by (auto simp: statics_ok_def)

lemma rollback_restores:
  assumes "i \<in> free_message_handler_ids g" "message_handler_id_to_transport_storage g i = None"
  shows "run_rollback [rollback_free_id i, rollback_remove_transport i]
    (g\<lparr>free_message_handler_ids := free_message_handler_ids g - {i},
       message_handler_id_to_transport_storage :=
         (message_handler_id_to_transport_storage g)(i \<mapsto> self)\<rparr>) = g"
  using assms
  by (cases g) (auto simp: run_rollback_def rollback_free_id_def rollback_remove_transport_def
      free_message_handler_id_def remove_message_handler_id_transport_def fun_eq_iff)

subsection \<open>What the methods do on a well-formed registry\<close>

lemmas get_message_handler_unfold =
  get_message_handler_def find_available_message_handler_id_def
  insert_message_handler_id_transport_def insert_message_handler_id_and_listener_config_def

context bimap_spec
begin

lemma contains_right_iff: "bm_ok m \<Longrightarrow> bm_contains_right B m c \<longleftrightarrow> c \<in> ran (bm_get_by_left B m)"
  by (auto simp: contains_right right_left [symmetric] ran_def)

lemma left_view_inj: "bm_ok m \<Longrightarrow> inj_on (bm_get_by_left B m) (dom (bm_get_by_left B m))"
  by (rule inj_onI) (auto simp: right_left [symmetric])

lemma registry_inv_dom:
  assumes "registry_inv B bm_ok self (g, m)"
  shows "bm_get_by_left B m i = None \<longleftrightarrow>
    message_handler_id_to_transport_storage g i \<noteq> Some self"
proof -
  have "i \<in> dom (bm_get_by_left B m) \<longleftrightarrow>
      i \<in> {i. message_handler_id_to_transport_storage g i = Some self}"
    using assms by (simp add: registry_inv_def)
  then show ?thesis unfolding domIff mem_Collect_eq by blast
qed

lemma get_exhausted:
  "free_message_handler_ids g = {} \<Longrightarrow>
     get_message_handler B pick self c (g, m) = (Err (OtherError RESOURCE_EXHAUSTED), g, m)"
  by (simp add: get_message_handler_unfold)

lemma get_duplicate:
  assumes inv: "registry_inv B bm_ok self (g, m)" and pick: "iterates_members pick"
    and free: "free_message_handler_ids g \<noteq> {}" and dup: "c \<in> ran (bm_get_by_left B m)"
  shows "get_message_handler B pick self c (g, m) =
    (Err (ListenerConfigAlreadyExists
       (Extern_fn_message_handler (pick (free_message_handler_ids g)))), g, m)"
proof -
  let ?i = "pick (free_message_handler_ids g)"
  from inv have ok: "bm_ok m" "statics_ok g" by (auto simp: registry_inv_def)
  then have i: "?i \<in> free_message_handler_ids g"
    using pick free statics_ok_finite by (auto simp: iterates_members_def)
  with ok have lt: "?i < num_message_handlers"
    and vac: "message_handler_id_to_transport_storage g ?i = None"
    using statics_ok_free by auto
  then have "bm_get_by_left B m ?i = None"
    by (simp add: registry_inv_dom [OF inv])
  then have "\<not> bm_contains_left B m ?i" "bm_contains_right B m c"
    using ok dup by (auto simp: contains_left contains_right_iff)
  then show ?thesis
    using free vac lt ok insert_refused [of m ?i c] rollback_restores [OF i vac, of self]
    by (simp add: get_message_handler_unfold Let_def get_message_extern_fn_eq)
qed

lemma get_fresh:
  assumes inv: "registry_inv B bm_ok self (g, m)" and pick: "iterates_members pick"
    and free: "free_message_handler_ids g \<noteq> {}" and new: "c \<notin> ran (bm_get_by_left B m)"
    and i: "i = pick (free_message_handler_ids g)"
  shows "\<exists>m'. get_message_handler B pick self c (g, m) =
      (Ok (Extern_fn_message_handler i),
       g\<lparr>free_message_handler_ids := free_message_handler_ids g - {i},
         message_handler_id_to_transport_storage :=
           (message_handler_id_to_transport_storage g)(i \<mapsto> self)\<rparr>, m') \<and>
    bm_ok m' \<and> bm_get_by_left B m' = (bm_get_by_left B m)(i \<mapsto> c) \<and>
    i \<in> free_message_handler_ids g"
proof -
  from inv have ok: "bm_ok m" "statics_ok g" by (auto simp: registry_inv_def)
  then have mem: "i \<in> free_message_handler_ids g"
    using pick free statics_ok_finite i by (auto simp: iterates_members_def)
  with ok have lt: "i < num_message_handlers"
    and vac: "message_handler_id_to_transport_storage g i = None"
    using statics_ok_free by auto
  then have "bm_get_by_left B m i = None"
    by (simp add: registry_inv_dom [OF inv])
  then have "\<not> bm_contains_left B m i" "\<not> bm_contains_right B m c"
    using ok new by (auto simp: contains_left contains_right_iff)
  from insert_added [OF ok(1) this] obtain m' where
    "bm_insert_no_overwrite B i c m = Some m'" "bm_ok m'"
    "bm_get_by_left B m' = (bm_get_by_left B m)(i \<mapsto> c)" by blast
  with mem free vac lt i show ?thesis
    by (simp add: get_message_handler_unfold Let_def get_message_extern_fn_eq)
qed

lemma release_unknown:
  "bm_ok m \<Longrightarrow> c \<notin> ran (bm_get_by_left B m) \<Longrightarrow>
     release_message_handler B c (g, m) = (Err NOT_FOUND, g, m)"
  using contains_right [of m c] contains_right_iff [of m c]
  by (simp add: release_message_handler_def get_message_handler_id_for_listener_config_def)

lemma release_known:
  assumes inv: "registry_inv B bm_ok self (g, m)" and i: "bm_get_by_left B m i = Some c"
  shows "\<exists>m'. release_message_handler B c (g, m) =
      (Ok (), g\<lparr>free_message_handler_ids := insert i (free_message_handler_ids g),
         message_handler_id_to_transport_storage :=
           (message_handler_id_to_transport_storage g)(i := None)\<rparr>, m') \<and>
    bm_ok m' \<and> bm_get_by_left B m' = (bm_get_by_left B m)(i := None)"
proof -
  from inv have ok: "bm_ok m" by (auto simp: registry_inv_def)
  from remove_present [OF this i] obtain m' where
    "bm_remove_by_left B i m = (Some (i, c), m')" "bm_ok m'"
    "bm_get_by_left B m' = (bm_get_by_left B m)(i := None)" by blast
  moreover have "bm_get_by_right B m c = Some i" using ok i by (simp add: right_left)
  moreover have "message_handler_id_to_transport_storage g i = Some self"
    using registry_inv_dom [OF inv, of i] i by simp
  ultimately show ?thesis
    by (auto simp: release_message_handler_def get_message_handler_id_for_listener_config_def
        free_message_handler_id_def remove_message_handler_id_transport_def
        remove_based_on_message_handler_id_def Let_def)
qed

lemma collect_listener_configs_eq:
  "set is \<subseteq> dom (bm_get_by_left B m) \<Longrightarrow>
     collect_listener_configs B m is = map (\<lambda>i. the (bm_get_by_left B m i)) is"
  by (induction "is") (auto simp: get_listener_config_for_message_handler_id_def)

lemma get_all_listener_configs_set:
  assumes "bm_ok m"
  shows "set (get_all_listener_configs B m) = ran (bm_get_by_left B m)"
    and "distinct (get_all_listener_configs B m)"
proof -
  have eq: "get_all_listener_configs B m =
      map (\<lambda>i. the (bm_get_by_left B m i)) (bm_left_values B m)"
    unfolding get_all_listener_configs_def get_message_handler_ids_def
    by (rule collect_listener_configs_eq) (simp add: left_values assms)
  show "set (get_all_listener_configs B m) = ran (bm_get_by_left B m)"
    unfolding eq by (force simp: left_values assms ran_def dom_def image_def)
  have "inj_on (\<lambda>i. the (bm_get_by_left B m i)) (set (bm_left_values B m))"
    using left_view_inj [OF assms]
    by (auto simp: left_values assms inj_on_def dom_def)
  then show "distinct (get_all_listener_configs B m)"
    unfolding eq by (simp add: distinct_map left_values assms)
qed

lemma get_listener_eq:
  "get_listener_for_message_handler_id B m i =
     map_option (\<lambda>(_, _, l). l) (bm_get_by_left B m i)"
  by (auto simp: get_listener_for_message_handler_id_def split: option.splits)

end

end
