(* ===== verification/Handler_Contract.thy ===== *)
theory Handler_Contract
  imports Message_Handler_Registry
begin

text \<open>
  The contract of the trait \<open>MessageHandlerRegistry\<close>, its consequences, and the proof that
  the in-memory registry keeps it over every bimap that satisfies \<open>bimap_spec\<close>.  The
  abstract state is the partial map \<open>view\<close> from handler numbers to listener configurations
  and the set \<open>free\<close> of unassigned numbers.
\<close>

locale handler_registry_contract =
  fixes inv :: "'s \<Rightarrow> bool"
    and view :: "'s \<Rightarrow> nat \<rightharpoonup> listener_config"
    and free :: "'s \<Rightarrow> nat set"
    and get_handler :: "(nat set \<Rightarrow> nat) \<Rightarrow> listener_config \<Rightarrow> 's \<Rightarrow>
      (get_message_handler_error, message_handler_fn_ptr) outcome \<times> 's"
    and release :: "listener_config \<Rightarrow> 's \<Rightarrow> unit result \<times> 's"
    and all_configs :: "'s \<Rightarrow> listener_config list"
    and listener_of :: "'s \<Rightarrow> nat \<Rightarrow> listener option"
  assumes view_inj: "inv s \<Longrightarrow> inj_on (view s) (dom (view s))"
    and free_unused: "inv s \<Longrightarrow> i \<in> free s \<Longrightarrow> view s i = None"
    and free_finite: "inv s \<Longrightarrow> finite (free s)"
    and exhausted: "inv s \<Longrightarrow> free s = {} \<Longrightarrow>
      get_handler pick c s = (Err (OtherError RESOURCE_EXHAUSTED), s)"
    and duplicate: "inv s \<Longrightarrow> iterates_members pick \<Longrightarrow> free s \<noteq> {} \<Longrightarrow> c \<in> ran (view s) \<Longrightarrow>
      get_handler pick c s =
        (Err (ListenerConfigAlreadyExists (Extern_fn_message_handler (pick (free s)))), s)"
    and fresh: "inv s \<Longrightarrow> iterates_members pick \<Longrightarrow> free s \<noteq> {} \<Longrightarrow> c \<notin> ran (view s) \<Longrightarrow>
      \<exists>t. get_handler pick c s = (Ok (Extern_fn_message_handler (pick (free s))), t) \<and>
          inv t \<and> view t = (view s)(pick (free s) \<mapsto> c) \<and> free t = free s - {pick (free s)}"
    and unknown: "inv s \<Longrightarrow> c \<notin> ran (view s) \<Longrightarrow> release c s = (Err NOT_FOUND, s)"
    and known: "inv s \<Longrightarrow> view s i = Some c \<Longrightarrow>
      \<exists>t. release c s = (Ok (), t) \<and> inv t \<and> view t = (view s)(i := None) \<and>
          free t = insert i (free s)"
    and all_configs_set: "inv s \<Longrightarrow> set (all_configs s) = ran (view s)"
    and listener_view: "listener_of s i = map_option (\<lambda>(_, _, l). l) (view s i)"
begin

lemma get_cases [consumes 2, case_names exhausted duplicate fresh]:
  assumes "inv s" "iterates_members pick"
  obtains
    "free s = {}" "get_handler pick c s = (Err (OtherError RESOURCE_EXHAUSTED), s)"
  | f where "free s \<noteq> {}" "c \<in> ran (view s)"
      "get_handler pick c s = (Err (ListenerConfigAlreadyExists f), s)"
  | i t where "i = pick (free s)" "i \<in> free s" "c \<notin> ran (view s)"
      "get_handler pick c s = (Ok (Extern_fn_message_handler i), t)" "inv t"
      "view t = (view s)(i \<mapsto> c)" "free t = free s - {i}"
proof (cases "free s = {}")
  case True
  with that(1) exhausted [OF assms(1)] show ?thesis by blast
next
  case False
  with assms free_finite [OF assms(1)] have "pick (free s) \<in> free s"
    by (simp add: iterates_members_def)
  show ?thesis
  proof (cases "c \<in> ran (view s)")
    case True
    show ?thesis by (rule that(2) [OF False True duplicate [OF assms False True]])
  next
    case unfiled: False
    from fresh [OF assms False unfiled] obtain t where
      t: "get_handler pick c s = (Ok (Extern_fn_message_handler (pick (free s))), t)" "inv t"
        "view t = (view s)(pick (free s) \<mapsto> c)" "free t = free s - {pick (free s)}" by blast
    show ?thesis by (rule that(3) [OF refl \<open>pick (free s) \<in> free s\<close> unfiled t])
  qed
qed

lemma get_inv:
  assumes "inv s" "iterates_members pick" shows "inv (snd (get_handler pick c s))"
  using assms by (cases rule: get_cases [of s pick c]) (use assms in simp_all)

lemma get_no_panic:
  assumes "inv s" "iterates_members pick" shows "fst (get_handler pick c s) \<noteq> Panic"
  using assms by (cases rule: get_cases [of s pick c]) simp_all

lemma get_error_unchanged:
  assumes "inv s" "iterates_members pick" "get_handler pick c s = (Err e, t)" shows "t = s"
  using assms(1,2) by (cases rule: get_cases [of s pick c]) (use assms(3) in simp_all)

lemma get_Ok_iff:
  assumes "inv s" "iterates_members pick"
  shows "(\<exists>f t. get_handler pick c s = (Ok f, t)) \<longleftrightarrow> free s \<noteq> {} \<and> c \<notin> ran (view s)"
  using assms by (cases rule: get_cases [of s pick c]) auto

lemma get_then_dispatch:
  assumes "inv s" "iterates_members pick"
    and "get_handler pick (src, snk, l) s = (Ok (Extern_fn_message_handler i), t)"
  shows "listener_of t i = Some l \<and> i \<in> free s \<and> view t = (view s)(i \<mapsto> (src, snk, l))"
  using assms(1,2) by (cases rule: get_cases [of s pick "(src, snk, l)"])
    (use assms(3) in \<open>auto simp: listener_view\<close>)

lemma get_then_release:
  assumes "inv s" "iterates_members pick" "get_handler pick c s = (Ok f, t)"
  shows "\<exists>u. release c t = (Ok (), u) \<and> inv u \<and> view u = view s \<and> free u = free s"
  using assms(1,2)
proof (cases rule: get_cases [of s pick c])
  case (fresh i t')
  with assms(3) have t: "t' = t" by simp
  with fresh have "view t i = Some c" by simp
  from known [OF _ this] t fresh obtain u where "release c t = (Ok (), u)" "inv u"
    "view u = (view t)(i := None)" "free u = insert i (free t)" by blast
  with fresh t free_unused [OF assms(1), of i] show ?thesis
    by (auto simp: fun_eq_iff)
qed (use assms(3) in simp_all)

lemma release_cases [consumes 1, case_names unknown known]:
  assumes "inv s"
  obtains "c \<notin> ran (view s)" "release c s = (Err NOT_FOUND, s)"
  | i t where "view s i = Some c" "release c s = (Ok (), t)" "inv t"
      "view t = (view s)(i := None)" "free t = insert i (free s)"
proof (cases "c \<in> ran (view s)")
  case False
  with that(1) unknown [OF assms] show ?thesis by blast
next
  case True
  then obtain i where "view s i = Some c" by (force simp: ran_def)
  with that(2) known [OF assms] show ?thesis by blast
qed

lemma release_inv: assumes "inv s" shows "inv (snd (release c s))"
  using assms by (cases rule: release_cases [of s c]) (use assms in simp_all)

lemma release_no_panic: assumes "inv s" shows "fst (release c s) \<noteq> Panic"
  using assms by (cases rule: release_cases [of s c]) simp_all

lemma release_configs:
  assumes "inv s" shows "ran (view (snd (release c s))) = ran (view s) - {c}"
  using assms
proof (cases rule: release_cases [of s c])
  case (known i t)
  with ran_remove_inj [OF view_inj [OF assms]] show ?thesis by simp
qed simp

lemma release_free_grows: assumes "inv s" shows "free s \<subseteq> free (snd (release c s))"
  using assms by (cases rule: release_cases [of s c]) auto

lemma release_all:
  assumes "inv s"
  shows "inv (fold (\<lambda>c s. snd (release c s)) cs s) \<and>
    ran (view (fold (\<lambda>c s. snd (release c s)) cs s)) = ran (view s) - set cs"
  using assms
proof (induction cs arbitrary: s)
  case (Cons c cs)
  from Cons.IH [OF release_inv [OF Cons.prems]] show ?case
    by (auto simp: release_configs [OF Cons.prems])
qed simp

lemma release_all_configs:
  assumes "inv s"
  shows "view (fold (\<lambda>c s. snd (release c s)) (all_configs s) s) = Map.empty"
proof -
  have "ran (view (fold (\<lambda>c s. snd (release c s)) (all_configs s) s)) = {}"
    using release_all [OF assms, of "all_configs s"] all_configs_set [OF assms] by simp
  then show ?thesis by (simp add: ran_empty_iff)
qed

end

sublocale bimap_spec \<subseteq> handlers: handler_registry_contract
  "registry_inv B bm_ok self" "\<lambda>s. bm_get_by_left B (snd s)"
  "\<lambda>s. free_message_handler_ids (fst s)" "\<lambda>pick. get_message_handler B pick self"
  "release_message_handler B" "\<lambda>s. get_all_listener_configs B (snd s)"
  "\<lambda>s. get_listener_for_message_handler_id B (snd s)"
  for self
proof (unfold_locales, goal_cases)
  case (1 s)
  then have "bm_ok (snd s)" by (simp add: registry_inv_def)
  then show ?case by (rule left_view_inj)
next
  case (2 s i)
  then show ?case
    using registry_inv_dom [of self "fst s" "snd s" i] statics_ok_free [of "fst s" i]
    by (simp add: registry_inv_def)
next
  case (3 s)
  then show ?case by (simp add: registry_inv_def statics_ok_finite)
next
  case (4 s pick c)
  then show ?case using get_exhausted [of "fst s" pick self c "snd s"] by simp
next
  case (5 s pick c)
  then show ?case using get_duplicate [of self "fst s" "snd s" pick c] by simp
next
  case (6 s pick c)
  let ?i = "pick (free_message_handler_ids (fst s))"
  from 6 obtain m' where g: "get_message_handler B pick self c s =
      (Ok (Extern_fn_message_handler ?i),
       (fst s)\<lparr>free_message_handler_ids := free_message_handler_ids (fst s) - {?i},
         message_handler_id_to_transport_storage :=
           (message_handler_id_to_transport_storage (fst s))(?i \<mapsto> self)\<rparr>, m')"
    "bm_ok m'" "bm_get_by_left B m' = (bm_get_by_left B (snd s))(?i \<mapsto> c)"
    "?i \<in> free_message_handler_ids (fst s)"
    using get_fresh [of self "fst s" "snd s" pick c ?i] by auto
  with 6 show ?case
    using statics_ok_assign [of "fst s" ?i self] by (auto simp: registry_inv_def)
next
  case (7 s c)
  then show ?case using release_unknown [of "snd s" c "fst s"] by (simp add: registry_inv_def)
next
  case (8 s i c)
  then have inv: "registry_inv B bm_ok self (fst s, snd s)" by simp
  from release_known [OF inv 8(2)] obtain m' where
    "release_message_handler B c s = (Ok (),
       (fst s)\<lparr>free_message_handler_ids := insert i (free_message_handler_ids (fst s)),
         message_handler_id_to_transport_storage :=
           (message_handler_id_to_transport_storage (fst s))(i := None)\<rparr>, m')"
    "bm_ok m'" "bm_get_by_left B m' = (bm_get_by_left B (snd s))(i := None)"
    unfolding prod.collapse by blast
  moreover have "message_handler_id_to_transport_storage (fst s) i = Some self"
    using registry_inv_dom [OF inv, of i] 8 by simp
  ultimately show ?case
    using 8 statics_ok_unassign [of "fst s" i]
    by (auto simp: registry_inv_def statics_ok_def)
next
  case (9 s)
  then show ?case by (simp add: get_all_listener_configs_set registry_inv_def)
next
  case (10 s i)
  show ?case by (rule get_listener_eq)
qed

subsection \<open>A bimap for the witnesses\<close>

text \<open>A list of pairs in which no left value and no right value occurs twice.\<close>

type_synonym pairs = "(nat \<times> listener_config) list"

definition pair_bimap :: "pairs bimap_api" where
  "pair_bimap = \<lparr>
     bm_new = [],
     bm_insert_no_overwrite = (\<lambda>i c m.
       if (\<exists>p \<in> set m. fst p = i \<or> snd p = c) then None else Some ((i, c) # m)),
     bm_get_by_left = map_of,
     bm_get_by_right = (\<lambda>m. map_of (map (\<lambda>(i, c). (c, i)) m)),
     bm_contains_left = (\<lambda>m i. i \<in> fst ` set m),
     bm_contains_right = (\<lambda>m c. c \<in> snd ` set m),
     bm_remove_by_left = (\<lambda>i m. (map_option (Pair i) (map_of m i), filter (\<lambda>p. fst p \<noteq> i) m)),
     bm_left_values = map fst\<rparr>"

definition pairs_ok :: "pairs \<Rightarrow> bool" where
  "pairs_ok m \<longleftrightarrow> distinct (map fst m) \<and> distinct (map snd m)"

lemma map_of_filter_key:
  "map_of (filter (\<lambda>p. fst p \<noteq> i) m) = (map_of m)(i := None)"
  by (induction m) (auto simp: fun_eq_iff)

lemma pairs_ok_filter: "pairs_ok m \<Longrightarrow> pairs_ok (filter P m)"
  by (auto simp: pairs_ok_def distinct_map intro: inj_on_subset)

interpretation pairs: bimap_spec pair_bimap pairs_ok
proof (unfold_locales, goal_cases)
  case (3 m c i)
  have swap: "distinct (map fst (map (\<lambda>(i, c). (c, i)) m))"
    using 3 by (simp add: pairs_ok_def comp_def case_prod_unfold)
  have "map_of (map (\<lambda>(i, c). (c, i)) m) c = Some i \<longleftrightarrow> (i, c) \<in> set m"
    by (subst map_of_eq_Some_iff [OF swap]) auto
  moreover have "map_of m i = Some c \<longleftrightarrow> (i, c) \<in> set m"
    using 3 by (simp add: pairs_ok_def)
  ultimately show ?case by (simp add: pair_bimap_def)
next
  case (4 m i)
  then show ?case by (simp add: pair_bimap_def map_of_eq_None_iff)
next
  case (5 m c)
  then show ?case by (force simp: pair_bimap_def map_of_eq_None_iff image_iff)
next
  case (6 m i c)
  then show ?case by (force simp: pair_bimap_def)
next
  case (9 m i)
  then show ?case by (force simp: pair_bimap_def map_of_eq_None_iff intro!: filter_True)
qed (auto simp: pair_bimap_def pairs_ok_def map_of_filter_key
      dom_map_of_conv_image_fst pairs_ok_filter [unfolded pairs_ok_def] intro: rev_image_eqI)

end
