(* ===== verification/Vsomeip_Config.thy ===== *)
theory Vsomeip_Config
  imports Utils
begin

text \<open>
  \<^verbatim>\<open>up-transport-vsomeip/src/vsomeip_config.rs\<close>: reading the application and the
  services out of a vsomeip JSON configuration file.  File access and serde_json are the
  fields of \<open>json_api\<close>; the string functions \<open>trim_start_matches\<close> and
  \<open>from_str_radix\<close> of the standard library are modelled.  The lemmas compare the checked
  digit loop with the positional value and give the round trip of hexadecimal numbers.
\<close>

record 'v json_api =
  j_exists :: "string \<Rightarrow> bool"
  j_read_to_string :: "string \<Rightarrow> string option"
  j_from_str :: "string \<Rightarrow> 'v option"
  j_get :: "'v \<Rightarrow> string \<Rightarrow> 'v option"
  j_as_array :: "'v \<Rightarrow> 'v list option"
  j_string :: "'v \<Rightarrow> string option"

record ServiceConfig =
  sc_service :: ServiceId
  sc_instance :: InstanceId

record VsomeipApplicationConfig =
  app_name :: ApplicationName
  app_id :: ClientId

definition VsomeipApplicationConfig_new ::
  "string \<Rightarrow> ClientId \<Rightarrow> VsomeipApplicationConfig" where
  "VsomeipApplicationConfig_new n i = \<lparr>app_name = n, app_id = i\<rparr>"

subsection \<open>Hexadecimal numbers\<close>

fun trim_start_matches_0x :: "string \<Rightarrow> string" where
  "trim_start_matches_0x (c # d # s) =
     (if c = CHR ''0'' \<and> d = CHR ''x'' then trim_start_matches_0x s else c # d # s)"
| "trim_start_matches_0x s = s"

definition to_digit_16 :: "char \<Rightarrow> nat option" where
  "to_digit_16 c =
     (let n = of_char c in
      if 48 \<le> n \<and> n \<le> 57 then Some (n - 48)
      else if 97 \<le> n \<and> n \<le> 102 then Some (n - 87)
      else if 65 \<le> n \<and> n \<le> 70 then Some (n - 55)
      else None)"

fun checked_digits_16 :: "nat \<Rightarrow> string \<Rightarrow> nat option" where
  "checked_digits_16 result [] = Some result"
| "checked_digits_16 result (c # cs) =
     (case to_digit_16 c of
        None \<Rightarrow> None
      | Some x \<Rightarrow>
          if result * 16 > 0xFFFF then None
          else if result * 16 + x > 0xFFFF then None
          else checked_digits_16 (result * 16 + x) cs)"

definition u16_from_str_radix_16 :: "string \<Rightarrow> u16 option" where
  "u16_from_str_radix_16 src =
     map_option of_nat
       (if src = [] \<or> src = ''+'' \<or> src = ''-'' then None
        else if hd src = CHR ''+'' then checked_digits_16 0 (tl src)
        else checked_digits_16 0 src)"

definition deserialize_hex_u16 :: "'v json_api \<Rightarrow> 'v \<Rightarrow> u16 option" where
  "deserialize_hex_u16 J v =
     (case j_string J v of
        None \<Rightarrow> None
      | Some hex_str \<Rightarrow> u16_from_str_radix_16 (trim_start_matches_0x hex_str))"

subsection \<open>The configuration file\<close>

definition read_json_file :: "'v json_api \<Rightarrow> string \<Rightarrow> 'v option" where
  "read_json_file J file_path =
     (case j_read_to_string J file_path of
        None \<Rightarrow> None
      | Some content \<Rightarrow> j_from_str J content)"

text \<open>The derived \<open>Deserialize\<close> reads every field from the object by its name.\<close>

definition application_from_value :: "'v json_api \<Rightarrow> 'v \<Rightarrow> VsomeipApplicationConfig option" where
  "application_from_value J v =
     (case (Option.bind (j_get J v ''name'') (j_string J),
            Option.bind (j_get J v ''id'') (deserialize_hex_u16 J)) of
        (Some n, Some i) \<Rightarrow> Some \<lparr>app_name = n, app_id = i\<rparr>
      | _ \<Rightarrow> None)"

definition service_from_value :: "'v json_api \<Rightarrow> 'v \<Rightarrow> ServiceConfig option" where
  "service_from_value J v =
     (case (Option.bind (j_get J v ''service'') (deserialize_hex_u16 J),
            Option.bind (j_get J v ''instance'') (deserialize_hex_u16 J)) of
        (Some s, Some i) \<Rightarrow> Some \<lparr>sc_service = s, sc_instance = i\<rparr>
      | _ \<Rightarrow> None)"

definition extract_application ::
  "'v json_api \<Rightarrow> string \<Rightarrow> VsomeipApplicationConfig result" where
  "extract_application J file_path =
     (case read_json_file J file_path of
        None \<Rightarrow> Err INVALID_ARGUMENT
      | Some json_data \<Rightarrow>
          (case Option.bind (j_get J json_data ''applications'') (j_as_array J) of
             None \<Rightarrow> Err INVALID_ARGUMENT
           | Some [] \<Rightarrow> Err INVALID_ARGUMENT
           | Some (a # _) \<Rightarrow>
               (case application_from_value J a of
                  None \<Rightarrow> Err INVALID_ARGUMENT
                | Some app_config \<Rightarrow> Ok app_config)))"

definition extract_services :: "'v json_api \<Rightarrow> string \<Rightarrow> ServiceConfig list result" where
  "extract_services J file_path =
     (case read_json_file J file_path of
        None \<Rightarrow> Err INVALID_ARGUMENT
      | Some json_data \<Rightarrow>
          (case Option.bind (j_get J json_data ''services'') (j_as_array J) of
             None \<Rightarrow> Err INVALID_ARGUMENT
           | Some [] \<Rightarrow> Err INVALID_ARGUMENT
           | Some (v # vs) \<Rightarrow>
               (case those (map (service_from_value J) (v # vs)) of
                  None \<Rightarrow> Err INVALID_ARGUMENT
                | Some service_configs \<Rightarrow> Ok service_configs)))"

subsection \<open>The digit loop computes the positional value\<close>

definition hex_value :: "nat \<Rightarrow> string \<Rightarrow> nat" where
  "hex_value acc s = foldl (\<lambda>a c. a * 16 + the (to_digit_16 c)) acc s"

lemma hex_value_ge: "acc \<le> hex_value acc s"
proof (induction s arbitrary: acc)
  case (Cons c s)
  have "acc \<le> acc * 16 + the (to_digit_16 c)" by simp
  also have "\<dots> \<le> hex_value (acc * 16 + the (to_digit_16 c)) s" by (rule Cons.IH)
  finally show ?case by (simp add: hex_value_def)
qed (simp add: hex_value_def)

lemma hex_value_Cons:
  "hex_value acc (c # s) = hex_value (acc * 16 + the (to_digit_16 c)) s"
  by (simp add: hex_value_def)

lemma checked_digits_16_eq:
  assumes "acc \<le> 0xFFFF"
  shows "checked_digits_16 acc s =
    (if (\<forall>c \<in> set s. to_digit_16 c \<noteq> None) \<and> hex_value acc s \<le> 0xFFFF
     then Some (hex_value acc s) else None)"
  using assms
proof (induction s arbitrary: acc)
  case (Cons c s)
  show ?case
  proof (cases "to_digit_16 c")
    case (Some x)
    have "acc * 16 + x \<le> hex_value acc (c # s)"
      using hex_value_ge [of "acc * 16 + x" s] Some by (simp add: hex_value_Cons)
    then show ?thesis
      using Cons.IH [of "acc * 16 + x"] Some by (auto simp: hex_value_Cons)
  qed simp
qed (simp add: hex_value_def)

text \<open>Four digits of a 16-bit number, most significant first.\<close>

definition hex_char :: "nat \<Rightarrow> char" where
  "hex_char d = ''0123456789abcdef'' ! d"

definition to_hex_u16 :: "u16 \<Rightarrow> string" where
  "to_hex_u16 w = map (\<lambda>k. hex_char (unat w div 16 ^ k mod 16)) [3, 2, 1, 0]"

lemma to_digit_hex_char: "d < 16 \<Longrightarrow> to_digit_16 (hex_char d) = Some d"
proof -
  assume "d < 16"
  then have "d \<in> set [0..<16]" by simp
  moreover have "list_all (\<lambda>d. to_digit_16 (hex_char d) = Some d) [0..<16]"
    by (simp add: upt_rec hex_char_def to_digit_16_def)
  ultimately show ?thesis by (auto simp: list_all_iff)
qed

lemma hex_char_not_x: "d < 16 \<Longrightarrow> hex_char d \<noteq> CHR ''x'' \<and> hex_char d \<noteq> CHR ''+'' \<and>
    hex_char d \<noteq> CHR ''-''"
  by (drule to_digit_hex_char) (auto simp: to_digit_16_def)

lemma hex_value_nibbles:
  assumes "n < 65536"
  shows "hex_value 0 (map (\<lambda>k. hex_char (n div 16 ^ k mod 16)) [3, 2, 1, 0]) = n"
proof -
  let ?a = "n div 16" and ?b = "n div 16 div 16" and ?c = "n div 16 div 16 div 16"
  have parts: "n div 256 = ?b" "n div 4096 = ?c"
    by (simp_all add: div_mult2_eq [symmetric])
  have c: "?c < 16" using assms by (simp add: div_mult2_eq [symmetric])
  have digits: "((?c * 16 + ?b mod 16) * 16 + ?a mod 16) * 16 + n mod 16 = n"
    by (simp only: div_mult_mod_eq)
  have "hex_value 0 (map (\<lambda>k. hex_char (n div 16 ^ k mod 16)) [3, 2, 1, 0]) =
      ((?c * 16 + ?b mod 16) * 16 + ?a mod 16) * 16 + n mod 16"
    using c by (simp add: hex_value_def to_digit_hex_char parts)
  with digits show ?thesis by (simp only:)
qed

lemma checked_digits_to_hex: "checked_digits_16 0 (to_hex_u16 w) = Some (unat w)"
proof -
  have lt: "unat w < 65536" using unsigned_less [of w] by simp
  have "hex_value 0 (to_hex_u16 w) = unat w"
    unfolding to_hex_u16_def by (rule hex_value_nibbles [OF lt])
  moreover have "\<forall>c \<in> set (to_hex_u16 w). to_digit_16 c \<noteq> None"
    by (simp add: to_hex_u16_def to_digit_hex_char)
  ultimately show ?thesis using lt by (subst checked_digits_16_eq) auto
qed

lemma trim_no_prefix:
  "s = [] \<or> tl s = [] \<or> hd (tl s) \<noteq> CHR ''x'' \<Longrightarrow> trim_start_matches_0x s = s"
  by (induction s rule: trim_start_matches_0x.induct) auto

lemma from_str_radix_to_hex: "u16_from_str_radix_16 (to_hex_u16 w) = Some w"
proof -
  have "hd (to_hex_u16 w) \<noteq> CHR ''+''"
    by (simp add: to_hex_u16_def hex_char_not_x)
  moreover have "to_hex_u16 w \<noteq> []" "to_hex_u16 w \<noteq> ''+''" "to_hex_u16 w \<noteq> ''-''"
    by (simp_all add: to_hex_u16_def)
  ultimately show ?thesis
    by (simp add: u16_from_str_radix_16_def checked_digits_to_hex)
qed

lemma trim_to_hex: "trim_start_matches_0x (to_hex_u16 w) = to_hex_u16 w"
  by (rule trim_no_prefix) (simp add: to_hex_u16_def hex_char_not_x)

end
