(* ===== verification/Vsomeip_Api.thy ===== *)
theory Vsomeip_Api
  imports Extern_Fns Utils
begin

text \<open>
  The C++ library vsomeip as the Rust code sees it, and the wrappers of
  \<^verbatim>\<open>vsomeip-sys/src/glue_additions.rs\<close> with behaviour of their own.

  The library itself is outside the repository.  Calls that act on it are recorded: a
  \<open>vs_call\<close> is a call of one of its methods, with the arguments it was given, and the state
  of a run holds the list \<open>hist\<close> of the calls made so far, the oldest first.  What the
  library answers is a function of that history: these functions are the fields of
  \<open>vsomeip_api\<close>, an argument of the definitions.  A message is the record of the values the
  code sets and reads.
\<close>

datatype return_code =
    E_OK | E_NOT_OK | E_UNKNOWN_SERVICE | E_UNKNOWN_METHOD | E_NOT_READY | E_NOT_REACHABLE
  | E_TIMEOUT | E_WRONG_PROTOCOL_VERSION | E_WRONG_INTERFACE_VERSION | E_MALFORMED_MESSAGE
  | E_WRONG_MESSAGE_TYPE | E_UNKNOWN | E_OTHER nat

datatype message_type = MT_REQUEST | MT_NOTIFICATION | MT_RESPONSE | MT_ERROR | MT_OTHER nat

text \<open>The buffer of a payload; \<open>None\<close> is a null data pointer.\<close>

type_synonym vpayload = "u8 list option"

record vmessage =
  v_service :: ServiceId
  v_instance :: InstanceId
  v_method :: MethodId
  v_client :: ClientId
  v_session :: SessionId
  v_interface_version :: u8
  v_return_code :: return_code
  v_message_type :: message_type
  v_payload :: "vpayload option"

datatype vs_call =
    CreateApplication ApplicationName "string option"
  | Init ApplicationName
  | RegisterStateHandler ApplicationName state_handler_fn_ptr
  | UnregisterStateHandler ApplicationName
  | StartApplication ApplicationName
  | StopApplication ApplicationName
  | OfferService ApplicationName ServiceId InstanceId u8 u32
  | OfferEvent ApplicationName ServiceId InstanceId EventId EventId
  | RequestService ApplicationName ServiceId InstanceId u8 u32
  | RequestEvent ApplicationName ServiceId InstanceId EventId EventId
  | Subscribe ApplicationName ServiceId InstanceId EventId u8 EventId
  | RegisterMessageHandler ApplicationName ServiceId InstanceId MethodId message_handler_fn_ptr
  | UnregisterMessageHandler ApplicationName ServiceId InstanceId MethodId
  | Notify ApplicationName ServiceId InstanceId EventId vpayload bool
  | SendMessage ApplicationName vmessage

record vsomeip_api =
  ANY_INSTANCE :: InstanceId
  ANY_MAJOR :: u8
  ANY_MINOR :: u32
  DEFAULT_MINOR :: u32
  vs_application_exists :: "vs_call list \<Rightarrow> ApplicationName \<Rightarrow> bool"
  vs_creates_application :: "vs_call list \<Rightarrow> ApplicationName \<Rightarrow> string option \<Rightarrow> bool"
  vs_get_client :: "vs_call list \<Rightarrow> ApplicationName \<Rightarrow> ClientId"
  vs_reported_states :: "vs_call list \<Rightarrow> ApplicationName \<Rightarrow> state_type list"
  vs_create_request :: vmessage
  vs_create_message :: vmessage
  vs_get_request :: "vmessage \<Rightarrow> SomeIpRequestId"

text \<open>
  \<open>get_application\<close> gives a null pointer when there is no such application, which
  \<open>make_application_wrapper\<close> turns into \<open>None\<close>; a wrapper stands for the application's name.
\<close>

definition get_application ::
  "vsomeip_api \<Rightarrow> vs_call list \<Rightarrow> ApplicationName \<Rightarrow> ApplicationName option" where
  "get_application V h a = (if vs_application_exists V h a then Some a else None)"

lemma get_application_simps [simp]:
  "vs_application_exists V h a \<Longrightarrow> get_application V h a = Some a"
  "\<not> vs_application_exists V h a \<Longrightarrow> get_application V h a = None"
  by (simp_all add: get_application_def)

subsection \<open>Payloads\<close>

definition set_data_safe :: "u8 list \<Rightarrow> vpayload" where
  "set_data_safe data =
     (let len = of_nat (length data) :: u32 in Some (take (unat len) data))"

definition get_data_safe :: "vpayload \<Rightarrow> u8 list" where
  "get_data_safe p = (case p of None \<Rightarrow> [] | Some data_slice \<Rightarrow> data_slice)"

definition set_message_payload :: "vpayload \<Rightarrow> vmessage \<Rightarrow> vmessage" where
  "set_message_payload p m = m\<lparr>v_payload := Some p\<rparr>"

definition get_message_payload :: "vmessage \<Rightarrow> vpayload option" where
  "get_message_payload m = v_payload m"

lemma get_data_set_data:
  "length data < 2 ^ 32 \<Longrightarrow> get_data_safe (set_data_safe data) = data"
  by (simp add: get_data_safe_def set_data_safe_def Let_def unat_of_nat)

text \<open>What is documented of the library: a request identifier is client and session.\<close>

locale vsomeip_request_ids =
  fixes V :: vsomeip_api
  assumes get_request_parts: "vs_get_request V m = create_request_id (v_client m) (v_session m)"

text \<open>
  And an application that was created can be retrieved by its name while the code still holds
  it: \<open>get_application\<close> finds it after \<open>create_application\<close>, \<open>init\<close> and
  \<open>register_state_handler\<close>, which is when the starting thread looks for it.
\<close>

locale vsomeip_applications =
  fixes V :: vsomeip_api
  assumes created_application_exists: "vs_creates_application V h a c \<Longrightarrow>
    vs_application_exists V (h @ [CreateApplication a c, Init a, RegisterStateHandler a f]) a"

subsection \<open>An instance for the witnesses\<close>

definition blank_message :: "message_type \<Rightarrow> vmessage" where
  "blank_message t = \<lparr>v_service = 0, v_instance = 0, v_method = 0, v_client = 0, v_session = 0,
     v_interface_version = 0, v_return_code = E_OK, v_message_type = t, v_payload = None\<rparr>"

fun creates :: "ApplicationName \<Rightarrow> vs_call \<Rightarrow> bool" where
  "creates a (CreateApplication b _) \<longleftrightarrow> a = b"
| "creates a _ \<longleftrightarrow> False"

definition ref_vsomeip :: vsomeip_api where
  "ref_vsomeip = \<lparr>
     ANY_INSTANCE = 0xFFFF, ANY_MAJOR = 0xFF, ANY_MINOR = 0xFFFFFFFF, DEFAULT_MINOR = 0,
     vs_application_exists = (\<lambda>h a. list_ex (creates a) h),
     vs_creates_application = (\<lambda>h a p. True),
     vs_get_client = (\<lambda>h a. 0x0345),
     vs_reported_states = (\<lambda>h a. [ST_REGISTERED]),
     vs_create_request = blank_message MT_REQUEST,
     vs_create_message = blank_message MT_RESPONSE,
     vs_get_request = (\<lambda>m. create_request_id (v_client m) (v_session m))\<rparr>"

lemma ref_vsomeip_simps [simp]:
  "ANY_INSTANCE ref_vsomeip = 0xFFFF" "ANY_MAJOR ref_vsomeip = 0xFF"
  "ANY_MINOR ref_vsomeip = 0xFFFFFFFF" "DEFAULT_MINOR ref_vsomeip = 0"
  "vs_application_exists ref_vsomeip h a \<longleftrightarrow> list_ex (creates a) h"
  "vs_creates_application ref_vsomeip h a p" "vs_get_client ref_vsomeip h a = 0x0345"
  "vs_reported_states ref_vsomeip h a = [ST_REGISTERED]"
  "vs_get_request ref_vsomeip m = create_request_id (v_client m) (v_session m)"
  by (simp_all add: ref_vsomeip_def)

interpretation ref_vs: vsomeip_request_ids ref_vsomeip
  by unfold_locales simp

interpretation ref_apps: vsomeip_applications ref_vsomeip
  by unfold_locales simp

end
