(* ===== verification/Storage.thy ===== *)
theory Storage
  imports Offered_Requested Rpc_Correlation Handler_Contract Vsomeip_Config Vsomeip_Api
begin

text \<open>
  \<^verbatim>\<open>up-transport-vsomeip/src/storage.rs\<close>: the state one transport keeps, and the trait
  implementations that delegate to its registries.  Every contract interpreted for a registry
  is interpreted here for the storage.  The runtime handle is not modelled.

  \<open>core\<close> is what a running transport works on: the process-wide statics, the calls made to
  vsomeip, the identity of the storage's allocation and the storage.  The engine and the
  transport extend it.
\<close>

record 'bm transport_storage =
  vsomeip_application_config :: VsomeipApplicationConfig
  storage_uri :: uuri
  remote_authority :: AuthorityName
  message_handler_registry :: 'bm
  rpc_registry :: rpc_correlation
  offered_registry :: offered_requested

record 'bm core =
  statics :: statics
  hist :: "vs_call list"
  self :: storage_ref
  storage :: "'bm transport_storage"

definition transport_storage_new ::
  "'bm bimap_api \<Rightarrow> VsomeipApplicationConfig \<Rightarrow> uuri \<Rightarrow> AuthorityName \<Rightarrow> 'bm transport_storage" where
  "transport_storage_new B config u remote =
     \<lparr>vsomeip_application_config = config, storage_uri = u, remote_authority = remote,
      message_handler_registry = bm_new B, rpc_registry = rpc_correlation_new,
      offered_registry = offered_requested_new\<rparr>"

definition get_local_authority :: "'bm transport_storage \<Rightarrow> AuthorityName" where
  "get_local_authority st = authority_name (storage_uri st)"

definition get_ue_id :: "'bm transport_storage \<Rightarrow> UeId" where
  "get_ue_id st = ue_id (storage_uri st)"

subsection \<open>Delegation\<close>

definition on_rpc ::
  "(rpc_correlation \<Rightarrow> 'a \<times> rpc_correlation) \<Rightarrow> 'bm transport_storage \<Rightarrow>
     'a \<times> 'bm transport_storage" where
  "on_rpc f st = (let (x, r) = f (rpc_registry st) in (x, st\<lparr>rpc_registry := r\<rparr>))"

definition storage_retrieve_session_id ::
  "bool \<Rightarrow> ClientId \<Rightarrow> 'bm transport_storage \<Rightarrow> SessionId result \<times> 'bm transport_storage" where
  "storage_retrieve_session_id oc c = on_rpc (retrieve_session_id oc c)"

definition storage_insert_ue_request_correlation ::
  "SomeIpRequestId \<Rightarrow> uuid \<Rightarrow> uuri \<Rightarrow> 'bm transport_storage \<Rightarrow> unit result \<times> 'bm transport_storage" where
  "storage_insert_ue_request_correlation k i u = on_rpc (insert_ue_request_correlation k i u)"

definition storage_remove_ue_request_correlation ::
  "SomeIpRequestId \<Rightarrow> 'bm transport_storage \<Rightarrow> (uuid \<times> uuri) result \<times> 'bm transport_storage" where
  "storage_remove_ue_request_correlation k = on_rpc (remove_ue_request_correlation k)"

definition storage_insert_me_request_correlation ::
  "uuid \<Rightarrow> SomeIpRequestId \<Rightarrow> 'bm transport_storage \<Rightarrow> unit result \<times> 'bm transport_storage" where
  "storage_insert_me_request_correlation i k = on_rpc (insert_me_request_correlation i k)"

definition storage_remove_me_request_correlation ::
  "uuid \<Rightarrow> 'bm transport_storage \<Rightarrow> SomeIpRequestId result \<times> 'bm transport_storage" where
  "storage_remove_me_request_correlation i = on_rpc (remove_me_request_correlation i)"

definition on_offered ::
  "(offered_requested \<Rightarrow> 'a \<times> offered_requested) \<Rightarrow> 'bm transport_storage \<Rightarrow>
     'a \<times> 'bm transport_storage" where
  "on_offered f st = (let (x, r) = f (offered_registry st) in (x, st\<lparr>offered_registry := r\<rparr>))"

definition storage_is_service_offered ::
  "ServiceId \<Rightarrow> InstanceId \<Rightarrow> MethodId \<Rightarrow> 'bm transport_storage \<Rightarrow> bool" where
  "storage_is_service_offered s i m st = is_service_offered s i m (offered_registry st)"

definition storage_insert_service_offered ::
  "ServiceId \<Rightarrow> InstanceId \<Rightarrow> MethodId \<Rightarrow> 'bm transport_storage \<Rightarrow> bool \<times> 'bm transport_storage" where
  "storage_insert_service_offered s i m = on_offered (insert_service_offered s i m)"

definition storage_is_service_requested ::
  "ServiceId \<Rightarrow> InstanceId \<Rightarrow> MethodId \<Rightarrow> 'bm transport_storage \<Rightarrow> bool" where
  "storage_is_service_requested s i m st = is_service_requested s i m (offered_registry st)"

definition storage_insert_service_requested ::
  "ServiceId \<Rightarrow> InstanceId \<Rightarrow> MethodId \<Rightarrow> 'bm transport_storage \<Rightarrow> bool \<times> 'bm transport_storage" where
  "storage_insert_service_requested s i m = on_offered (insert_service_requested s i m)"

definition storage_is_event_offered ::
  "ServiceId \<Rightarrow> InstanceId \<Rightarrow> EventId \<Rightarrow> 'bm transport_storage \<Rightarrow> bool" where
  "storage_is_event_offered s i e st = is_event_offered s i e (offered_registry st)"

definition storage_insert_event_offered ::
  "ServiceId \<Rightarrow> InstanceId \<Rightarrow> EventId \<Rightarrow> 'bm transport_storage \<Rightarrow> bool \<times> 'bm transport_storage" where
  "storage_insert_event_offered s i e = on_offered (insert_event_offered s i e)"

definition storage_is_event_requested ::
  "ServiceId \<Rightarrow> InstanceId \<Rightarrow> EventId \<Rightarrow> 'bm transport_storage \<Rightarrow> bool" where
  "storage_is_event_requested s i e st = is_event_requested s i e (offered_registry st)"

definition storage_insert_event_requested ::
  "ServiceId \<Rightarrow> InstanceId \<Rightarrow> EventId \<Rightarrow> 'bm transport_storage \<Rightarrow> bool \<times> 'bm transport_storage" where
  "storage_insert_event_requested s i e = on_offered (insert_event_requested s i e)"

definition storage_get_message_handler ::
  "'bm bimap_api \<Rightarrow> (nat set \<Rightarrow> nat) \<Rightarrow> storage_ref \<Rightarrow> listener_config \<Rightarrow>
     statics \<times> 'bm transport_storage \<Rightarrow>
     (get_message_handler_error, message_handler_fn_ptr) outcome \<times> statics \<times> 'bm transport_storage" where
  "storage_get_message_handler B pick me c s =
     (let (g, st) = s;
          (x, g, m) = get_message_handler B pick me c (g, message_handler_registry st)
      in (x, g, st\<lparr>message_handler_registry := m\<rparr>))"

definition storage_release_message_handler ::
  "'bm bimap_api \<Rightarrow> listener_config \<Rightarrow> statics \<times> 'bm transport_storage \<Rightarrow>
     unit result \<times> statics \<times> 'bm transport_storage" where
  "storage_release_message_handler B c s =
     (let (g, st) = s;
          (x, g, m) = release_message_handler B c (g, message_handler_registry st)
      in (x, g, st\<lparr>message_handler_registry := m\<rparr>))"

definition storage_get_all_listener_configs ::
  "'bm bimap_api \<Rightarrow> 'bm transport_storage \<Rightarrow> listener_config list" where
  "storage_get_all_listener_configs B st = get_all_listener_configs B (message_handler_registry st)"

definition storage_get_listener_for_message_handler_id ::
  "'bm bimap_api \<Rightarrow> 'bm transport_storage \<Rightarrow> nat \<Rightarrow> listener option" where
  "storage_get_listener_for_message_handler_id B st i =
     get_listener_for_message_handler_id B (message_handler_registry st) i"

subsection \<open>The storage keeps the contracts of its registries\<close>

lemmas storage_rpc_defs =
  on_rpc_def storage_retrieve_session_id_def storage_insert_ue_request_correlation_def
  storage_remove_ue_request_correlation_def storage_insert_me_request_correlation_def
  storage_remove_me_request_correlation_def

interpretation storage_rpc: rpc_correlation_contract
  "\<lambda>st. ue_request_correlation (rpc_registry st)"
  storage_insert_ue_request_correlation storage_remove_ue_request_correlation
  "\<lambda>st. me_request_correlation (rpc_registry st)"
  storage_insert_me_request_correlation storage_remove_me_request_correlation
  "\<lambda>st. client_id_session_id_tracking (rpc_registry st)" storage_retrieve_session_id
  by unfold_locales
    (auto simp: storage_rpc_defs insert_ue_request_correlation_def
      remove_ue_request_correlation_def insert_me_request_correlation_def
      remove_me_request_correlation_def retrieve_session_id_def Let_def split: option.splits)

lemmas storage_offered_defs =
  on_offered_def
  storage_is_service_offered_def storage_insert_service_offered_def
  is_service_offered_def insert_service_offered_def
  storage_is_service_requested_def storage_insert_service_requested_def
  is_service_requested_def insert_service_requested_def
  storage_is_event_offered_def storage_insert_event_offered_def
  is_event_offered_def insert_event_offered_def
  storage_is_event_requested_def storage_insert_event_requested_def
  is_event_requested_def insert_event_requested_def

interpretation storage_offered_services: mark_registry
  "\<lambda>(s, i, m). storage_is_service_offered s i m" "\<lambda>(s, i, m). storage_insert_service_offered s i m"
  by unfold_locales (auto simp: storage_offered_defs insert_absorb)

interpretation storage_requested_services: mark_registry
  "\<lambda>(s, i, m). storage_is_service_requested s i m" "\<lambda>(s, i, m). storage_insert_service_requested s i m"
  by unfold_locales (auto simp: storage_offered_defs insert_absorb)

interpretation storage_offered_events: mark_registry
  "\<lambda>(s, i, e). storage_is_event_offered s i e" "\<lambda>(s, i, e). storage_insert_event_offered s i e"
  by unfold_locales (auto simp: storage_offered_defs insert_absorb)

interpretation storage_requested_events: mark_registry
  "\<lambda>(s, i, e). storage_is_event_requested s i e" "\<lambda>(s, i, e). storage_insert_event_requested s i e"
  by unfold_locales (auto simp: storage_offered_defs insert_absorb)

definition storage_inv ::
  "'bm bimap_api \<Rightarrow> ('bm \<Rightarrow> bool) \<Rightarrow> storage_ref \<Rightarrow> statics \<times> 'bm transport_storage \<Rightarrow> bool" where
  "storage_inv B bm_ok me s \<longleftrightarrow>
     registry_inv B bm_ok me (fst s, message_handler_registry (snd s))"

definition storage_view :: "'bm bimap_api \<Rightarrow> 'bm transport_storage \<Rightarrow> nat \<rightharpoonup> listener_config" where
  "storage_view B st = bm_get_by_left B (message_handler_registry st)"

lemma storage_get_eq:
  "get_message_handler B pick me c (fst s, message_handler_registry (snd s)) = (x, t) \<Longrightarrow>
     storage_get_message_handler B pick me c s =
       (x, fst t, (snd s)\<lparr>message_handler_registry := snd t\<rparr>)"
  by (simp add: storage_get_message_handler_def case_prod_unfold)

lemma storage_release_eq:
  "release_message_handler B c (fst s, message_handler_registry (snd s)) = (x, t) \<Longrightarrow>
     storage_release_message_handler B c s =
       (x, fst t, (snd s)\<lparr>message_handler_registry := snd t\<rparr>)"
  by (simp add: storage_release_message_handler_def case_prod_unfold)

sublocale bimap_spec \<subseteq> storage_handlers: handler_registry_contract
  "storage_inv B bm_ok me" "\<lambda>s. storage_view B (snd s)"
  "\<lambda>s. free_message_handler_ids (fst s)" "\<lambda>pick. storage_get_message_handler B pick me"
  "storage_release_message_handler B" "\<lambda>s. storage_get_all_listener_configs B (snd s)"
  "\<lambda>s. storage_get_listener_for_message_handler_id B (snd s)"
  for me
proof (unfold_locales, goal_cases)
  case (1 s)
  then show ?case
    using handlers.view_inj [of me "(fst s, message_handler_registry (snd s))"]
    by (simp add: storage_inv_def storage_view_def)
next
  case (2 s i)
  then show ?case
    using handlers.free_unused [of me "(fst s, message_handler_registry (snd s))" i]
    by (simp add: storage_inv_def storage_view_def)
next
  case (3 s)
  then show ?case
    using handlers.free_finite [of me "(fst s, message_handler_registry (snd s))"]
    by (simp add: storage_inv_def)
next
  case (4 s pick c)
  then show ?case
    using handlers.exhausted [of me "(fst s, message_handler_registry (snd s))" pick c]
    by (simp add: storage_inv_def storage_get_eq)
next
  case (5 s pick c)
  then show ?case
    using handlers.duplicate [of me "(fst s, message_handler_registry (snd s))" pick c]
    by (simp add: storage_inv_def storage_view_def storage_get_eq)
next
  case (6 s pick c)
  then obtain t where
    t: "get_message_handler B pick me c (fst s, message_handler_registry (snd s)) =
       (Ok (Extern_fn_message_handler (pick (free_message_handler_ids (fst s)))), t)"
    "registry_inv B bm_ok me t"
    "bm_get_by_left B (snd t) = (storage_view B (snd s))(pick (free_message_handler_ids (fst s)) \<mapsto> c)"
    "free_message_handler_ids (fst t) =
       free_message_handler_ids (fst s) - {pick (free_message_handler_ids (fst s))}"
    using handlers.fresh [of me "(fst s, message_handler_registry (snd s))" pick c]
    by (auto simp: storage_inv_def storage_view_def)
  then show ?case
    by (simp add: storage_get_eq [OF t(1)] storage_inv_def storage_view_def)
next
  case (7 s c)
  then show ?case
    using handlers.unknown [of me "(fst s, message_handler_registry (snd s))" c]
    by (simp add: storage_inv_def storage_view_def storage_release_eq)
next
  case (8 s i c)
  then obtain t where
    t: "release_message_handler B c (fst s, message_handler_registry (snd s)) = (Ok (), t)"
    "registry_inv B bm_ok me t" "bm_get_by_left B (snd t) = (storage_view B (snd s))(i := None)"
    "free_message_handler_ids (fst t) = insert i (free_message_handler_ids (fst s))"
    using handlers.known [of me "(fst s, message_handler_registry (snd s))" i c]
    by (auto simp: storage_inv_def storage_view_def)
  then show ?case
    by (simp add: storage_release_eq [OF t(1)] storage_inv_def storage_view_def)
next
  case (9 s)
  then show ?case
    using handlers.all_configs_set [of me "(fst s, message_handler_registry (snd s))"]
    by (simp add: storage_inv_def storage_view_def storage_get_all_listener_configs_def)
next
  case (10 s i)
  show ?case
    by (simp add: storage_get_listener_for_message_handler_id_def storage_view_def get_listener_eq)
qed

end
