(* ===== verification/Message_Conversions.thy ===== *)
theory Message_Conversions
  imports Determine_Type Storage
begin

text \<open>
  \<^verbatim>\<open>up-transport-vsomeip/src/message_conversions.rs\<close>: uProtocol messages to vsomeip
  messages and back.  The functions run on a \<open>core\<close> state; \<open>app\<close> is the application the
  wrapper stands for, and \<open>n\<close> is the entropy the message builder draws.

  The lemmas say what each conversion sets, that a response finds the request it answers
  through the correlation tables (both when this side asked and when it was asked), that an
  event is offered once.  The properties are in \<^verbatim>\<open>Conversion_Properties.thy\<close>.
\<close>

text \<open>Running a registry method, and recording a call of vsomeip.\<close>

definition on_storage ::
  "('bm transport_storage \<Rightarrow> 'a \<times> 'bm transport_storage) \<Rightarrow> ('bm, 'z) core_scheme \<Rightarrow>
     'a \<times> ('bm, 'z) core_scheme" where
  "on_storage f w = (let (x, st) = f (storage w) in (x, w\<lparr>storage := st\<rparr>))"

definition call_vs :: "vs_call \<Rightarrow> ('bm, 'z) core_scheme \<Rightarrow> ('bm, 'z) core_scheme" where
  "call_vs c w = w\<lparr>hist := hist w @ [c]\<rparr>"

text \<open>
  The registration wrappers of \<^verbatim>\<open>vsomeip-sys/src/glue_additions.rs\<close>, each over a C++ function
  of \<^verbatim>\<open>glue/application_registrations.cpp\<close>: an event belongs to one event group, and the
  function pointer becomes the handler vsomeip calls (\<open>Glue_Registrations\<close> has the steps between).
\<close>

definition request_single_event_safe ::
  "ApplicationName \<Rightarrow> ServiceId \<Rightarrow> InstanceId \<Rightarrow> EventId \<Rightarrow> EventId \<Rightarrow>
     ('bm, 'z) core_scheme \<Rightarrow> ('bm, 'z) core_scheme" where
  [simp]: "request_single_event_safe app service inst notifier eventgroup =
     call_vs (RequestEvent app service inst notifier eventgroup)"

definition offer_single_event_safe ::
  "ApplicationName \<Rightarrow> ServiceId \<Rightarrow> InstanceId \<Rightarrow> EventId \<Rightarrow> EventId \<Rightarrow>
     ('bm, 'z) core_scheme \<Rightarrow> ('bm, 'z) core_scheme" where
  [simp]: "offer_single_event_safe app service inst notifier eventgroup =
     call_vs (OfferEvent app service inst notifier eventgroup)"

definition register_message_handler_fn_ptr_safe ::
  "ApplicationName \<Rightarrow> ServiceId \<Rightarrow> InstanceId \<Rightarrow> MethodId \<Rightarrow> message_handler_fn_ptr \<Rightarrow>
     ('bm, 'z) core_scheme \<Rightarrow> ('bm, 'z) core_scheme" where
  [simp]: "register_message_handler_fn_ptr_safe app service inst the_method fn_ptr_handler =
     call_vs (RegisterMessageHandler app service inst the_method fn_ptr_handler)"

definition register_state_handler_fn_ptr_safe ::
  "ApplicationName \<Rightarrow> state_handler_fn_ptr \<Rightarrow> ('bm, 'z) core_scheme \<Rightarrow> ('bm, 'z) core_scheme" where
  [simp]: "register_state_handler_fn_ptr_safe app fn_ptr_handler =
     call_vs (RegisterStateHandler app fn_ptr_handler)"

subsection \<open>From uProtocol to vsomeip\<close>

definition umsg_publish_to_vsomeip_notification ::
  "up_rust_api \<Rightarrow> vsomeip_api \<Rightarrow> umessage \<Rightarrow> ApplicationName \<Rightarrow> ('bm, 'z) core_scheme \<Rightarrow>
     (ServiceId \<times> InstanceId \<times> EventId) result \<times> ('bm, 'z) core_scheme" where
  "umsg_publish_to_vsomeip_notification U V umsg app w =
     (case msg_source (attributes_of U umsg) of
        None \<Rightarrow> (Err INVALID_ARGUMENT, w)
      | Some source \<Rightarrow>
          let (_, service_id) = split_u32_to_u16 (ue_id source);
              instance_id = 1;
              (_, event_id) = split_u32_to_u16 (resource_id source)
          in if \<not> storage_is_event_offered service_id instance_id event_id (storage w)
             then let w = call_vs (OfferService app service_id instance_id
                                     (ANY_MAJOR V) (ANY_MINOR V)) w;
                      w = offer_single_event_safe app service_id instance_id event_id event_id w;
                      (_, w) = on_storage
                                 (storage_insert_event_offered service_id instance_id event_id) w
                  in (Ok (service_id, instance_id, event_id), w)
             else (Ok (service_id, instance_id, event_id), w))"

definition umsg_request_to_vsomeip_message ::
  "up_rust_api \<Rightarrow> vsomeip_api \<Rightarrow> bool \<Rightarrow> umessage \<Rightarrow> ApplicationName \<Rightarrow> ('bm, 'z) core_scheme \<Rightarrow>
     vmessage result \<times> ('bm, 'z) core_scheme" where
  "umsg_request_to_vsomeip_message U V overflow_checks umsg app w =
     (case msg_source (attributes_of U umsg) of
        None \<Rightarrow> (Err INVALID_ARGUMENT, w)
      | Some source \<Rightarrow>
     (case msg_sink (attributes_of U umsg) of
        None \<Rightarrow> (Err INVALID_ARGUMENT, w)
      | Some sink \<Rightarrow>
          let vsomeip_msg = vs_create_request V;
              (_, service_id) = split_u32_to_u16 (ue_id sink);
              vsomeip_msg = vsomeip_msg\<lparr>v_service := service_id\<rparr>;
              vsomeip_msg = vsomeip_msg\<lparr>v_instance := 1\<rparr>;
              (_, method_id) = split_u32_to_u16 (resource_id sink);
              vsomeip_msg = vsomeip_msg\<lparr>v_method := method_id\<rparr>;
              (_, _, _, interface_version) = split_u32_to_u8 (ue_version_major sink);
              vsomeip_msg = vsomeip_msg\<lparr>v_interface_version := interface_version\<rparr>
          in (case msg_id (attributes_of U umsg) of
                None \<Rightarrow> (Err INVALID_ARGUMENT, w)
              | Some req_id \<Rightarrow>
                  let app_client_id = vs_get_client V (hist w) app
                  in and_then
                       (on_storage (storage_retrieve_session_id overflow_checks app_client_id) w)
                       (\<lambda>app_session_id w.
                          let app_request_id = create_request_id app_client_id app_session_id
                          in and_then
                               (on_storage (storage_insert_ue_request_correlation
                                  app_request_id req_id source) w)
                               (\<lambda>_ w. (Ok (vsomeip_msg\<lparr>v_return_code := E_OK\<rparr>), w))))))"

fun ucode_to_vsomeip_err_code :: "ucode \<Rightarrow> return_code" where
  "ucode_to_vsomeip_err_code OK = E_OK"
| "ucode_to_vsomeip_err_code INVALID_ARGUMENT = E_WRONG_MESSAGE_TYPE"
| "ucode_to_vsomeip_err_code DEADLINE_EXCEEDED = E_TIMEOUT"
| "ucode_to_vsomeip_err_code NOT_FOUND = E_UNKNOWN_SERVICE"
| "ucode_to_vsomeip_err_code UNAVAILABLE = E_UNKNOWN_SERVICE"
| "ucode_to_vsomeip_err_code DATA_LOSS = E_MALFORMED_MESSAGE"
| "ucode_to_vsomeip_err_code INTERNAL = E_NOT_REACHABLE"
| "ucode_to_vsomeip_err_code UNKNOWN = E_NOT_OK"
| "ucode_to_vsomeip_err_code FAILED_PRECONDITION = E_WRONG_PROTOCOL_VERSION"
| "ucode_to_vsomeip_err_code _ = E_UNKNOWN"

definition umsg_response_to_vsomeip_message ::
  "up_rust_api \<Rightarrow> vsomeip_api \<Rightarrow> umessage \<Rightarrow> ('bm, 'z) core_scheme \<Rightarrow>
     vmessage result \<times> ('bm, 'z) core_scheme" where
  "umsg_response_to_vsomeip_message U V umsg w =
     (case msg_source (attributes_of U umsg) of
        None \<Rightarrow> (Err INVALID_ARGUMENT, w)
      | Some source \<Rightarrow>
          let vsomeip_msg = vs_create_message V;
              (_, service_id) = split_u32_to_u16 (ue_id source);
              vsomeip_msg = vsomeip_msg\<lparr>v_service := service_id\<rparr>;
              vsomeip_msg = vsomeip_msg\<lparr>v_instance := 1\<rparr>;
              (_, method_id) = split_u32_to_u16 (resource_id source);
              vsomeip_msg = vsomeip_msg\<lparr>v_method := method_id\<rparr>;
              (_, _, _, interface_version) = split_u32_to_u8 (ue_version_major source);
              vsomeip_msg = vsomeip_msg\<lparr>v_interface_version := interface_version\<rparr>
          in (case msg_reqid (attributes_of U umsg) of
                None \<Rightarrow> (Err INVALID_ARGUMENT, w)
              | Some req_id \<Rightarrow>
                  and_then (on_storage (storage_remove_me_request_correlation req_id) w)
                    (\<lambda>request_id w.
                       let (client_id, session_id) = split_u32_to_u16 request_id;
                           vsomeip_msg = vsomeip_msg\<lparr>v_client := client_id\<rparr>;
                           vsomeip_msg = vsomeip_msg\<lparr>v_session := session_id\<rparr>;
                           (commstatus, vsomeip_msg_type) =
                             (case msg_commstatus (attributes_of U umsg) of
                                Some commstatus \<Rightarrow>
                                  (enum_value_or commstatus UNIMPLEMENTED, MT_ERROR)
                              | None \<Rightarrow> (UNIMPLEMENTED, MT_RESPONSE));
                           vsomeip_msg = vsomeip_msg\<lparr>v_return_code :=
                             ucode_to_vsomeip_err_code commstatus\<rparr>;
                           vsomeip_msg = vsomeip_msg\<lparr>v_message_type := vsomeip_msg_type\<rparr>
                       in (Ok vsomeip_msg, w))))"

subsection \<open>From vsomeip to uProtocol\<close>

text \<open>\<open>try_into\<close> from \<open>u32\<close> to \<open>u8\<close>.\<close>

definition u8_try_from :: "u32 \<Rightarrow> u8 option" where
  "u8_try_from v = (if v < 256 then Some (ucast v) else None)"

definition convert_vsomeip_mt_request_to_umsg ::
  "up_rust_api \<Rightarrow> vsomeip_api \<Rightarrow> nat \<Rightarrow> AuthorityName \<Rightarrow> uuri \<Rightarrow> AuthorityName \<Rightarrow> vmessage \<Rightarrow>
     u8 list \<Rightarrow> ('bm, 'z) core_scheme \<Rightarrow> umessage result \<times> ('bm, 'z) core_scheme" where
  "convert_vsomeip_mt_request_to_umsg U V n authority self_uuri mechatronics_authority
       vsomeip_message payload_bytes w =
     (let request_id = vs_get_request V vsomeip_message;
          service_id = v_service vsomeip_message;
          method_id = v_method vsomeip_message;
          interface_version = v_interface_version vsomeip_message
      in case u_try_from_parts U authority (ucast service_id) interface_version method_id of
           None \<Rightarrow> (Err INVALID_ARGUMENT, w)
         | Some sink \<Rightarrow>
        (case u8_try_from (ue_version_major self_uuri) of
           None \<Rightarrow> (Panic, w)
         | Some version \<Rightarrow>
        (case u_try_from_parts U mechatronics_authority (ue_id self_uuri) version 0 of
           None \<Rightarrow> (Err INVALID_ARGUMENT, w)
         | Some source \<Rightarrow>
        (case u_build_request U n sink source 1000 payload_bytes of
           None \<Rightarrow> (Err INTERNAL, w)
         | Some umsg \<Rightarrow>
        (case msg_id (attributes_of U umsg) of
           None \<Rightarrow> (Err INVALID_ARGUMENT, w)
         | Some req_id \<Rightarrow>
             and_then (on_storage (storage_insert_me_request_correlation req_id request_id) w)
               (\<lambda>_ w. (Ok umsg, w)))))))"

definition convert_vsomeip_mt_response_to_umsg ::
  "up_rust_api \<Rightarrow> vsomeip_api \<Rightarrow> nat \<Rightarrow> AuthorityName \<Rightarrow> vmessage \<Rightarrow> u8 list \<Rightarrow>
     ('bm, 'z) core_scheme \<Rightarrow> umessage result \<times> ('bm, 'z) core_scheme" where
  "convert_vsomeip_mt_response_to_umsg U V n mechatronics_authority vsomeip_message
       payload_bytes w =
     (let request_id = vs_get_request V vsomeip_message;
          service_id = v_service vsomeip_message;
          method_id = v_method vsomeip_message;
          interface_version = v_interface_version vsomeip_message
      in case u_try_from_parts U mechatronics_authority (ucast service_id)
                interface_version method_id of
           None \<Rightarrow> (Err INVALID_ARGUMENT, w)
         | Some source \<Rightarrow>
             and_then (on_storage (storage_remove_ue_request_correlation request_id) w)
               (\<lambda>(req_id, sink) w.
                  case u_build_response U n sink req_id source OK payload_bytes of
                    None \<Rightarrow> (Err INTERNAL, w)
                  | Some umsg \<Rightarrow> (Ok umsg, w)))"

fun vsomeip_err_code_to_ucode :: "return_code \<Rightarrow> ucode" where
  "vsomeip_err_code_to_ucode E_OK = OK"
| "vsomeip_err_code_to_ucode E_WRONG_MESSAGE_TYPE = INVALID_ARGUMENT"
| "vsomeip_err_code_to_ucode E_UNKNOWN_METHOD = INVALID_ARGUMENT"
| "vsomeip_err_code_to_ucode E_TIMEOUT = DEADLINE_EXCEEDED"
| "vsomeip_err_code_to_ucode E_UNKNOWN_SERVICE = NOT_FOUND"
| "vsomeip_err_code_to_ucode E_NOT_READY = UNAVAILABLE"
| "vsomeip_err_code_to_ucode E_MALFORMED_MESSAGE = DATA_LOSS"
| "vsomeip_err_code_to_ucode E_NOT_REACHABLE = INTERNAL"
| "vsomeip_err_code_to_ucode E_NOT_OK = UNKNOWN"
| "vsomeip_err_code_to_ucode E_WRONG_PROTOCOL_VERSION = FAILED_PRECONDITION"
| "vsomeip_err_code_to_ucode E_WRONG_INTERFACE_VERSION = FAILED_PRECONDITION"
| "vsomeip_err_code_to_ucode _ = UNKNOWN"

definition convert_vsomeip_mt_error_to_umsg ::
  "up_rust_api \<Rightarrow> vsomeip_api \<Rightarrow> nat \<Rightarrow> AuthorityName \<Rightarrow> vmessage \<Rightarrow> u8 list \<Rightarrow>
     ('bm, 'z) core_scheme \<Rightarrow> umessage result \<times> ('bm, 'z) core_scheme" where
  "convert_vsomeip_mt_error_to_umsg U V n mechatronics_authority vsomeip_message
       payload_bytes w =
     (let request_id = vs_get_request V vsomeip_message;
          service_id = v_service vsomeip_message;
          method_id = v_method vsomeip_message;
          interface_version = v_interface_version vsomeip_message
      in case u_try_from_parts U mechatronics_authority (ucast service_id)
                interface_version method_id of
           None \<Rightarrow> (Err INVALID_ARGUMENT, w)
         | Some source \<Rightarrow>
             and_then (on_storage (storage_remove_ue_request_correlation request_id) w)
               (\<lambda>(req_id, sink) w.
                  let comm_status = vsomeip_err_code_to_ucode (v_return_code vsomeip_message)
                  in case u_build_response U n sink req_id source comm_status payload_bytes of
                       None \<Rightarrow> (Err INTERNAL, w)
                     | Some umsg \<Rightarrow> (Ok umsg, w)))"

definition convert_vsomeip_mt_notification_to_umsg ::
  "up_rust_api \<Rightarrow> nat \<Rightarrow> AuthorityName \<Rightarrow> vmessage \<Rightarrow> u8 list \<Rightarrow>
     ('bm, 'z) core_scheme \<Rightarrow> umessage result \<times> ('bm, 'z) core_scheme" where
  "convert_vsomeip_mt_notification_to_umsg U n mechatronics_authority vsomeip_message
       payload_bytes w =
     (let service_id = v_service vsomeip_message;
          method_id = v_method vsomeip_message;
          interface_version = 1
      in case u_try_from_parts U mechatronics_authority (ucast service_id)
                interface_version method_id of
           None \<Rightarrow> (Err INVALID_ARGUMENT, w)
         | Some source \<Rightarrow>
             (case u_build_publish U n source payload_bytes of
                None \<Rightarrow> (Err INTERNAL, w)
              | Some umsg \<Rightarrow> (Ok umsg, w)))"

definition convert_vsomeip_msg_to_umsg ::
  "up_rust_api \<Rightarrow> vsomeip_api \<Rightarrow> nat \<Rightarrow> AuthorityName \<Rightarrow> uuri \<Rightarrow> AuthorityName \<Rightarrow> vmessage \<Rightarrow>
     ('bm, 'z) core_scheme \<Rightarrow> umessage result \<times> ('bm, 'z) core_scheme" where
  "convert_vsomeip_msg_to_umsg U V n authority self_uuri mechatronics_authority
       vsomeip_message w =
     (let msg_type = v_message_type vsomeip_message
      in case get_message_payload vsomeip_message of
           None \<Rightarrow> (Err INTERNAL, w)
         | Some payload_wrapper \<Rightarrow>
             let payload_bytes = get_data_safe payload_wrapper
             in (case msg_type of
                   MT_REQUEST \<Rightarrow> convert_vsomeip_mt_request_to_umsg U V n authority self_uuri
                       mechatronics_authority vsomeip_message payload_bytes w
                 | MT_NOTIFICATION \<Rightarrow> convert_vsomeip_mt_notification_to_umsg U n
                       mechatronics_authority vsomeip_message payload_bytes w
                 | MT_RESPONSE \<Rightarrow> convert_vsomeip_mt_response_to_umsg U V n
                       mechatronics_authority vsomeip_message payload_bytes w
                 | MT_ERROR \<Rightarrow> convert_vsomeip_mt_error_to_umsg U V n
                       mechatronics_authority vsomeip_message payload_bytes w
                 | MT_OTHER _ \<Rightarrow> (Err OUT_OF_RANGE, w)))"

subsection \<open>Views of the correlation registry\<close>

definition ue_table :: "('bm, 'z) core_scheme \<Rightarrow> SomeIpRequestId \<rightharpoonup> uuid \<times> uuri" where
  "ue_table w = ue_request_correlation (rpc_registry (storage w))"

definition me_table :: "('bm, 'z) core_scheme \<Rightarrow> uuid \<rightharpoonup> SomeIpRequestId" where
  "me_table w = me_request_correlation (rpc_registry (storage w))"

definition session_table :: "('bm, 'z) core_scheme \<Rightarrow> ClientId \<rightharpoonup> SessionId" where
  "session_table w = client_id_session_id_tracking (rpc_registry (storage w))"

definition current_session :: "ClientId \<Rightarrow> ('bm, 'z) core_scheme \<Rightarrow> SessionId" where
  "current_session c w = (case session_table w c of None \<Rightarrow> 1 | Some s \<Rightarrow> s)"

text \<open>The identifier the next request of the application is filed under.\<close>

definition next_request_id ::
  "vsomeip_api \<Rightarrow> ApplicationName \<Rightarrow> ('bm, 'z) core_scheme \<Rightarrow> SomeIpRequestId" where
  "next_request_id V app w =
     (let c = vs_get_client V (hist w) app in create_request_id c (current_session c w))"

lemmas table_defs = ue_table_def me_table_def session_table_def

lemma on_storage_simps [simp]:
  "fst (on_storage f w) = fst (f (storage w))"
  "storage (snd (on_storage f w)) = snd (f (storage w))"
  "statics (snd (on_storage f w)) = statics w"
  "hist (snd (on_storage f w)) = hist w"
  "self (snd (on_storage f w)) = self w"
  "core.more (snd (on_storage f w)) = core.more w"
  by (simp_all add: on_storage_def case_prod_unfold Let_def)

lemma call_vs_simps [simp]:
  "hist (call_vs c w) = hist w @ [c]" "statics (call_vs c w) = statics w"
  "storage (call_vs c w) = storage w" "self (call_vs c w) = self w"
  "core.more (call_vs c w) = core.more w"
  by (simp_all add: call_vs_def)

lemma retrieve_session_step:
  assumes "\<not> (oc \<and> session_table w c = Some 0xFFFF)"
  shows "\<exists>w'. on_storage (storage_retrieve_session_id oc c) w = (Ok (current_session c w), w') \<and>
    session_table w' = (session_table w)(c \<mapsto> current_session c w + 1) \<and>
    ue_table w' = ue_table w \<and> me_table w' = me_table w \<and>
    w' = w\<lparr>storage := storage w'\<rparr>"
proof -
  obtain t where t: "storage_retrieve_session_id oc c (storage w) = (Ok (current_session c w), t)"
    "client_id_session_id_tracking (rpc_registry t) =
       (session_table w)(c \<mapsto> current_session c w + 1)"
    "ue_request_correlation (rpc_registry t) = ue_table w"
    "me_request_correlation (rpc_registry t) = me_table w"
    using storage_rpc.next_session_ok [of oc "storage w" c] assms
    unfolding table_defs current_session_def by blast
  then show ?thesis
    by (simp add: on_storage_def table_defs)
qed

lemma retrieve_session_panic:
  "session_table w c = Some 0xFFFF \<Longrightarrow>
     on_storage (storage_retrieve_session_id True c) w = (Panic, w)"
  using storage_rpc.next_session_panic [of "storage w" c]
  by (simp add: on_storage_def table_defs)

lemma insert_ue_step:
  assumes "ue_table w k = None"
  shows "\<exists>w'. on_storage (storage_insert_ue_request_correlation k i u) w = (Ok (), w') \<and>
    ue_table w' = (ue_table w)(k \<mapsto> (i, u)) \<and> me_table w' = me_table w \<and>
    session_table w' = session_table w \<and> w' = w\<lparr>storage := storage w'\<rparr>"
  using assms
  by (simp add: on_storage_def table_defs storage_rpc_defs insert_ue_request_correlation_def)

lemma insert_ue_occupied:
  "ue_table w k = Some x \<Longrightarrow>
     on_storage (storage_insert_ue_request_correlation k i u) w = (Err ALREADY_EXISTS, w)"
  using storage_rpc.ue.put_occupied [of "storage w" k x "(i, u)"]
  by (simp add: on_storage_def table_defs)

lemma remove_ue_step:
  assumes "ue_table w k = Some x"
  shows "\<exists>w'. on_storage (storage_remove_ue_request_correlation k) w = (Ok x, w') \<and>
    ue_table w' = (ue_table w)(k := None) \<and> me_table w' = me_table w \<and>
    session_table w' = session_table w \<and> w' = w\<lparr>storage := storage w'\<rparr>"
  using assms
  by (cases x)
    (simp add: on_storage_def table_defs storage_rpc_defs remove_ue_request_correlation_def)

lemma remove_ue_absent:
  "ue_table w k = None \<Longrightarrow>
     on_storage (storage_remove_ue_request_correlation k) w = (Err NOT_FOUND, w)"
  using storage_rpc.ue.take_absent [of "storage w" k] by (simp add: on_storage_def table_defs)

lemma insert_me_step:
  assumes "me_table w i = None"
  shows "\<exists>w'. on_storage (storage_insert_me_request_correlation i k) w = (Ok (), w') \<and>
    me_table w' = (me_table w)(i \<mapsto> k) \<and> ue_table w' = ue_table w \<and>
    session_table w' = session_table w \<and> w' = w\<lparr>storage := storage w'\<rparr>"
  using assms
  by (simp add: on_storage_def table_defs storage_rpc_defs insert_me_request_correlation_def)

lemma insert_me_occupied:
  "me_table w i = Some k' \<Longrightarrow>
     on_storage (storage_insert_me_request_correlation i k) w = (Err ALREADY_EXISTS, w)"
  using storage_rpc.me.put_occupied [of "storage w" i k' k]
  by (simp add: on_storage_def table_defs)

lemma remove_me_step:
  assumes "me_table w i = Some k"
  shows "\<exists>w'. on_storage (storage_remove_me_request_correlation i) w = (Ok k, w') \<and>
    me_table w' = (me_table w)(i := None) \<and> ue_table w' = ue_table w \<and>
    session_table w' = session_table w \<and> w' = w\<lparr>storage := storage w'\<rparr>"
  using assms
  by (simp add: on_storage_def table_defs storage_rpc_defs remove_me_request_correlation_def)

lemma remove_me_absent:
  "me_table w i = None \<Longrightarrow>
     on_storage (storage_remove_me_request_correlation i) w = (Err NOT_FOUND, w)"
  using storage_rpc.me.take_absent [of "storage w" i] by (simp add: on_storage_def table_defs)

subsection \<open>What a conversion sets and stores\<close>

lemmas split_simps = split_u32_to_u16_eq split_u32_to_u8_low case_prod_unfold Let_def

text \<open>The vsomeip message a request becomes.\<close>

definition request_message :: "vsomeip_api \<Rightarrow> uuri \<Rightarrow> vmessage" where
  "request_message V snk =
     (vs_create_request V)\<lparr>v_service := ucast (ue_id snk), v_instance := 1,
        v_method := ucast (resource_id snk), v_interface_version := ucast (ue_version_major snk),
        v_return_code := E_OK\<rparr>"

lemma request_unfold:
  assumes "msg_source (attributes_of U umsg) = Some src"
    and "msg_sink (attributes_of U umsg) = Some snk" and "msg_id (attributes_of U umsg) = Some i"
    and "c = vs_get_client V (hist w) app"
  shows "umsg_request_to_vsomeip_message U V oc umsg app w =
    and_then (on_storage (storage_retrieve_session_id oc c) w)
      (\<lambda>s w. and_then (on_storage (storage_insert_ue_request_correlation
                 (create_request_id c s) i src) w)
        (\<lambda>_ w. (Ok (request_message V snk), w)))"
  using assms
  by (simp add: umsg_request_to_vsomeip_message_def split_simps request_message_def)

text \<open>The vsomeip message a response becomes, for the request it answers.\<close>

definition response_message ::
  "vsomeip_api \<Rightarrow> uuri \<Rightarrow> SomeIpRequestId \<Rightarrow> ucode option option \<Rightarrow> vmessage" where
  "response_message V src k commstatus =
     (vs_create_message V)\<lparr>v_service := ucast (ue_id src), v_instance := 1,
        v_method := ucast (resource_id src), v_interface_version := ucast (ue_version_major src),
        v_client := fst (split_u32_to_u16 k), v_session := snd (split_u32_to_u16 k),
        v_return_code := (case commstatus of
           Some c \<Rightarrow> ucode_to_vsomeip_err_code (enum_value_or c UNIMPLEMENTED)
         | None \<Rightarrow> E_UNKNOWN),
        v_message_type := (case commstatus of Some c \<Rightarrow> MT_ERROR | None \<Rightarrow> MT_RESPONSE)\<rparr>"

lemma response_unfold:
  assumes "msg_source (attributes_of U umsg) = Some src"
    and "msg_reqid (attributes_of U umsg) = Some i"
  shows "umsg_response_to_vsomeip_message U V umsg w =
    and_then (on_storage (storage_remove_me_request_correlation i) w)
      (\<lambda>k w. (Ok (response_message V src k (msg_commstatus (attributes_of U umsg))), w))"
  using assms
  by (auto simp: umsg_response_to_vsomeip_message_def split_simps response_message_def
      split: option.splits intro!: arg_cong [where f = "and_then _"] ext)

lemma request_accepted:
  assumes attrs: "msg_source (attributes_of U umsg) = Some src"
      "msg_sink (attributes_of U umsg) = Some snk" "msg_id (attributes_of U umsg) = Some i"
    and c: "c = vs_get_client V (hist w) app"
    and room: "\<not> (oc \<and> session_table w c = Some 0xFFFF)"
    and free: "ue_table w (next_request_id V app w) = None"
  shows "\<exists>w'. umsg_request_to_vsomeip_message U V oc umsg app w = (Ok (request_message V snk), w') \<and>
    ue_table w' = (ue_table w)(next_request_id V app w \<mapsto> (i, src)) \<and>
    session_table w' = (session_table w)(c \<mapsto> current_session c w + 1) \<and>
    me_table w' = me_table w \<and> w' = w\<lparr>storage := storage w'\<rparr>"
proof -
  from retrieve_session_step [OF room] obtain w1 where
    r: "on_storage (storage_retrieve_session_id oc c) w = (Ok (current_session c w), w1)"
    and w1: "session_table w1 = (session_table w)(c \<mapsto> current_session c w + 1)"
      "ue_table w1 = ue_table w" "me_table w1 = me_table w" "w1 = w\<lparr>storage := storage w1\<rparr>"
    by blast
  let ?k = "create_request_id c (current_session c w)"
  have k: "next_request_id V app w = ?k" by (simp add: next_request_id_def c Let_def)
  with free w1 have "ue_table w1 ?k = None" by simp
  from insert_ue_step [OF this, of i src] obtain w2 where
    "on_storage (storage_insert_ue_request_correlation ?k i src) w1 = (Ok (), w2)"
    "ue_table w2 = (ue_table w1)(?k \<mapsto> (i, src))" "me_table w2 = me_table w1"
    "session_table w2 = session_table w1" "w2 = w1\<lparr>storage := storage w2\<rparr>"
    by blast
  with r w1 k request_unfold [OF attrs c] show ?thesis
    by (intro exI [of _ w2]) (simp, metis core.surjective core.update_convs(4))
qed

lemma request_occupied:
  assumes attrs: "msg_source (attributes_of U umsg) = Some src"
      "msg_sink (attributes_of U umsg) = Some snk" "msg_id (attributes_of U umsg) = Some i"
    and c: "c = vs_get_client V (hist w) app"
    and room: "\<not> (oc \<and> session_table w c = Some 0xFFFF)"
    and used: "ue_table w (next_request_id V app w) = Some x"
  shows "\<exists>w'. umsg_request_to_vsomeip_message U V oc umsg app w = (Err ALREADY_EXISTS, w') \<and>
    ue_table w' = ue_table w \<and> me_table w' = me_table w \<and>
    session_table w' = (session_table w)(c \<mapsto> current_session c w + 1) \<and>
    w' = w\<lparr>storage := storage w'\<rparr>"
proof -
  from retrieve_session_step [OF room] obtain w1 where
    r: "on_storage (storage_retrieve_session_id oc c) w = (Ok (current_session c w), w1)"
    and w1: "session_table w1 = (session_table w)(c \<mapsto> current_session c w + 1)"
      "ue_table w1 = ue_table w" "me_table w1 = me_table w" "w1 = w\<lparr>storage := storage w1\<rparr>"
    by blast
  let ?k = "create_request_id c (current_session c w)"
  have k: "next_request_id V app w = ?k" by (simp add: next_request_id_def c Let_def)
  with used w1 have "ue_table w1 ?k = Some x" by simp
  with insert_ue_occupied [OF this, of i src] r w1 request_unfold [OF attrs c] show ?thesis
    by simp
qed

lemma request_OkE:
  assumes "umsg_request_to_vsomeip_message U V oc umsg app w = (Ok m, w')"
  obtains src snk i where
    "msg_source (attributes_of U umsg) = Some src" "msg_sink (attributes_of U umsg) = Some snk"
    "msg_id (attributes_of U umsg) = Some i" "m = request_message V snk"
    "ue_table w (next_request_id V app w) = None"
    "ue_table w' = (ue_table w)(next_request_id V app w \<mapsto> (i, src))"
    "me_table w' = me_table w" "w' = w\<lparr>storage := storage w'\<rparr>"
proof -
  from assms obtain src snk i where attrs: "msg_source (attributes_of U umsg) = Some src"
    "msg_sink (attributes_of U umsg) = Some snk" "msg_id (attributes_of U umsg) = Some i"
    by (auto simp: umsg_request_to_vsomeip_message_def split_simps split: option.splits)
  let ?c = "vs_get_client V (hist w) app"
  have room: "\<not> (oc \<and> session_table w ?c = Some 0xFFFF)"
  proof
    assume "oc \<and> session_table w ?c = Some 0xFFFF"
    with retrieve_session_panic [of w ?c] request_unfold [OF attrs refl, where w = w and V = V]
      assms show False by simp
  qed
  have "ue_table w (next_request_id V app w) = None"
    using assms request_occupied [OF attrs refl room]
    by (cases "ue_table w (next_request_id V app w)") auto
  with request_accepted [OF attrs refl room this] assms that [OF attrs] show ?thesis
    by auto
qed

text \<open>Responses and errors are the same conversion with a different status.\<close>

definition answer_status :: "vmessage \<Rightarrow> ucode" where
  "answer_status r = (if v_message_type r = MT_RESPONSE then OK
                      else vsomeip_err_code_to_ucode (v_return_code r))"

lemma answer_unfold:
  assumes "v_message_type r \<in> {MT_RESPONSE, MT_ERROR}" and "get_message_payload r = Some p"
  shows "convert_vsomeip_msg_to_umsg U V n auth me remote r w =
    (case u_try_from_parts U remote (ucast (v_service r)) (v_interface_version r) (v_method r) of
       None \<Rightarrow> (Err INVALID_ARGUMENT, w)
     | Some src \<Rightarrow> and_then (on_storage (storage_remove_ue_request_correlation (vs_get_request V r)) w)
         (\<lambda>(i, snk) w. case u_build_response U n snk i src (answer_status r) (get_data_safe p) of
              None \<Rightarrow> (Err INTERNAL, w) | Some umsg \<Rightarrow> (Ok umsg, w)))"
  using assms
  by (auto simp: convert_vsomeip_msg_to_umsg_def convert_vsomeip_mt_response_to_umsg_def
      convert_vsomeip_mt_error_to_umsg_def answer_status_def Let_def split: option.split)

lemma answer_known:
  assumes r: "v_message_type r \<in> {MT_RESPONSE, MT_ERROR}" "get_message_payload r = Some p"
    and src: "u_try_from_parts U remote (ucast (v_service r)) (v_interface_version r) (v_method r) = Some src"
    and entry: "ue_table w (vs_get_request V r) = Some (i, snk)"
    and build: "u_build_response U n snk i src (answer_status r) (get_data_safe p) = Some resp"
  shows "\<exists>w'. convert_vsomeip_msg_to_umsg U V n auth me remote r w = (Ok resp, w') \<and>
    ue_table w' = (ue_table w)(vs_get_request V r := None) \<and> me_table w' = me_table w \<and>
    w' = w\<lparr>storage := storage w'\<rparr>"
  using remove_ue_step [OF entry] answer_unfold [OF r, where w = w and U = U and V = V] src build
  by fastforce

lemma answer_unknown:
  assumes r: "v_message_type r \<in> {MT_RESPONSE, MT_ERROR}" "get_message_payload r = Some p"
    and none: "ue_table w (vs_get_request V r) = None"
  shows "convert_vsomeip_msg_to_umsg U V n auth me remote r w =
    (Err (if u_try_from_parts U remote (ucast (v_service r)) (v_interface_version r) (v_method r) = None
          then INVALID_ARGUMENT else NOT_FOUND), w)"
  using answer_unfold [OF r, where w = w and U = U and V = V] remove_ue_absent [OF none]
  by (auto split: option.splits)

end
