(* ===== verification/Transport_Engine.thy ===== *)
theory Transport_Engine
  imports Message_Conversions
begin

text \<open>
  \<^verbatim>\<open>up-transport-vsomeip/src/transport_engine.rs\<close>: the engine, a thread that takes
  commands out of a channel, one at a time, and makes the vsomeip calls.

  The registries a command carries are the transport's own storage, and the one-shot channel
  it carries back its result is the result of \<open>execute\<close>.  \<open>event_loop\<close> is the loop over the
  commands received; a panic inside a command ends the engine's thread.

  The thread \<open>create_app\<close> spawns, and what vsomeip reports from it, are taken to run before
  the engine looks at the state channel; reports that come later than the 50 milliseconds it
  waits are not among \<open>vs_reported_states\<close>.

  The lemmas describe the calls each command makes, that what has been requested or offered
  before is not requested or offered again, which part of the state the engine leaves alone,
  and which commands cannot panic.
\<close>

datatype command =
    RegisterListener uuri "uuri option" registration_type message_handler_fn_ptr ApplicationName
  | UnregisterListener uuri "uuri option" registration_type ApplicationName
  | Send umessage registration_type ApplicationName
  | StartVsomeipApp ClientId ApplicationName
  | StopVsomeipApp ApplicationName

definition on_statics ::
  "(statics \<Rightarrow> 'a \<times> statics) \<Rightarrow> ('bm, 'z) core_scheme \<Rightarrow> 'a \<times> ('bm, 'z) core_scheme" where
  "on_statics f w = (let (x, g) = f (statics w) in (x, w\<lparr>statics := g\<rparr>))"

subsection \<open>Applications\<close>

definition storage_find_state_handler_id ::
  "(nat set \<Rightarrow> nat) \<Rightarrow> ('bm, 'z) core_scheme \<Rightarrow> nat result \<times> ('bm, 'z) core_scheme" where
  "storage_find_state_handler_id pick = on_statics (find_available_state_handler_id pick)"

definition storage_get_state_handler ::
  "nat \<Rightarrow> ('bm, 'z) core_scheme \<Rightarrow> (state_handler_fn_ptr \<times> nat) result" where
  "storage_get_state_handler i w = get_state_handler i (statics w)"

definition storage_free_state_handler_id ::
  "nat \<Rightarrow> ('bm, 'z) core_scheme \<Rightarrow> unit result \<times> ('bm, 'z) core_scheme" where
  "storage_free_state_handler_id i = on_statics (free_state_handler_id i)"

text \<open>
  vsomeip calls the registered function once for every state it reports; a call that finds
  the channel full blocks vsomeip's thread, and with it the calls after it.
\<close>

fun report_states :: "nat \<Rightarrow> state_type list \<Rightarrow> statics \<Rightarrow> statics" where
  "report_states i [] g = g"
| "report_states i (s # ss) g =
     (case call_shared_state_fn i s g of None \<Rightarrow> g | Some g' \<Rightarrow> report_states i ss g')"

text \<open>
  The body of the thread that starts the application; its result is dropped.  The thread runs
  beside the one that waits for a state for 50 milliseconds; the model lets it come to the call
  of \<open>start\<close> before that wait is over.
\<close>

definition start_thread ::
  "vsomeip_api \<Rightarrow> ApplicationName \<Rightarrow> ('bm, 'z) core_scheme \<Rightarrow>
     unit result \<times> ('bm, 'z) core_scheme" where
  "start_thread V app_name_start w =
     (case get_application V (hist w) app_name_start of
        None \<Rightarrow> (Err INTERNAL, w)
      | Some application_wrapper \<Rightarrow> (Ok (), call_vs (StartApplication application_wrapper) w))"

definition create_app ::
  "vsomeip_api \<Rightarrow> (nat set \<Rightarrow> nat) \<Rightarrow> ApplicationName \<Rightarrow> string option \<Rightarrow>
     ('bm, 'z) core_scheme \<Rightarrow> unit result \<times> ('bm, 'z) core_scheme" where
  "create_app V pick app config w =
     (case get_application V (hist w) app of
        Some _ \<Rightarrow> (Err ALREADY_EXISTS, w)
      | None \<Rightarrow>
          and_then (storage_find_state_handler_id pick w) (\<lambda>state_handler_id w.
            case storage_get_state_handler state_handler_id w of
              Ok (available_state_handler_fn_ptr, receiver) \<Rightarrow>
                let created = vs_creates_application V (hist w) app config;
                    w = call_vs (CreateApplication app config) w
                in if \<not> created then (Err INTERNAL, w)
                   else
                     let w = call_vs (Init app) w;
                         w = register_state_handler_fn_ptr_safe app available_state_handler_fn_ptr w;
                         (_, w) = start_thread V app w;
                         w = w\<lparr>statics := report_states receiver
                               (vs_reported_states V (hist w) app) (statics w)\<rparr>;
                         (received, w) = on_statics (recv_state receiver) w
                     in (case received of
                           None \<Rightarrow> (Err INTERNAL, w)
                         | Some app_state \<Rightarrow>
                             let w = call_vs (UnregisterStateHandler app) w
                             in storage_free_state_handler_id state_handler_id w)
            | Err e \<Rightarrow> (Err e, w)
            | Panic \<Rightarrow> (Panic, w)))"

definition start_vsomeip_app_internal ::
  "vsomeip_api \<Rightarrow> (nat set \<Rightarrow> nat) \<Rightarrow> ApplicationName \<Rightarrow> string option \<Rightarrow>
     ('bm, 'z) core_scheme \<Rightarrow> unit result \<times> ('bm, 'z) core_scheme" where
  "start_vsomeip_app_internal V pick app config w =
     and_then (create_app V pick app config w) (\<lambda>_ w. (Ok (), w))"

definition stop_vsomeip_app_internal ::
  "vsomeip_api \<Rightarrow> ApplicationName \<Rightarrow> ('bm, 'z) core_scheme \<Rightarrow>
     unit result \<times> ('bm, 'z) core_scheme" where
  "stop_vsomeip_app_internal V app w =
     (case get_application V (hist w) app of
        None \<Rightarrow> (Err INTERNAL, w)
      | Some app_wrapper \<Rightarrow> (Ok (), call_vs (StopApplication app_wrapper) w))"

subsection \<open>Listeners\<close>

text \<open>The arms of \<^verbatim>\<open>register_listener_internal\<close>.\<close>

definition register_publish_listener ::
  "vsomeip_api \<Rightarrow> uuri \<Rightarrow> message_handler_fn_ptr \<Rightarrow>
     ApplicationName \<Rightarrow> ('bm, 'z) core_scheme \<Rightarrow> unit result \<times> ('bm, 'z) core_scheme" where
  [simp]: "register_publish_listener V source_filter msg_handler app w =
     (let (_, service_id) = split_u32_to_u16 (ue_id source_filter);
          instance_id = 1;
          (_, event_id) = split_u32_to_u16 (resource_id source_filter);
          w = (if \<not> storage_is_event_requested service_id instance_id event_id (storage w)
               then let w = call_vs (RequestService app service_id instance_id
                                       (ANY_MAJOR V) (ANY_MINOR V)) w;
                        w = request_single_event_safe app service_id instance_id event_id event_id w;
                        w = call_vs (Subscribe app service_id instance_id event_id
                                       (ANY_MAJOR V) event_id) w
                    in snd (on_storage
                         (storage_insert_event_requested service_id instance_id event_id) w)
               else w);
          w = register_message_handler_fn_ptr_safe app service_id instance_id event_id msg_handler w
      in (Ok (), w))"

definition register_request_listener ::
  "vsomeip_api \<Rightarrow> uuri option \<Rightarrow> message_handler_fn_ptr \<Rightarrow>
     ApplicationName \<Rightarrow> ('bm, 'z) core_scheme \<Rightarrow> unit result \<times> ('bm, 'z) core_scheme" where
  [simp]: "register_request_listener V sink_filter msg_handler app w =
     (case sink_filter of
        None \<Rightarrow> (Err INVALID_ARGUMENT, w)
      | Some sink_filter \<Rightarrow>
          let (_, service_id) = split_u32_to_u16 (ue_id sink_filter);
              instance_id = 1;
              (_, method_id) = split_u32_to_u16 (resource_id sink_filter);
              (_, _, _, major_version) = split_u32_to_u8 (ue_version_major sink_filter);
              w = (if \<not> storage_is_service_offered service_id instance_id method_id (storage w)
                   then let w = call_vs (OfferService app service_id instance_id
                                           major_version (DEFAULT_MINOR V)) w
                        in snd (on_storage
                             (storage_insert_service_offered service_id instance_id method_id) w)
                   else w);
              w = register_message_handler_fn_ptr_safe app service_id (ANY_INSTANCE V)
                    method_id msg_handler w
          in (Ok (), w))"

definition register_response_listener ::
  "vsomeip_api \<Rightarrow> uuri \<Rightarrow> message_handler_fn_ptr \<Rightarrow>
     ApplicationName \<Rightarrow> ('bm, 'z) core_scheme \<Rightarrow> unit result \<times> ('bm, 'z) core_scheme" where
  [simp]: "register_response_listener V source_filter msg_handler app w =
     (let (_, service_id) = split_u32_to_u16 (ue_id source_filter);
          instance_id = ANY_INSTANCE V;
          (_, method_id) = split_u32_to_u16 (resource_id source_filter);
          w = (if \<not> storage_is_service_requested service_id instance_id method_id (storage w)
               then let w = call_vs (RequestService app service_id instance_id
                                       (ANY_MAJOR V) (ANY_MINOR V)) w
                    in snd (on_storage
                         (storage_insert_service_requested service_id instance_id method_id) w)
               else w);
          w = register_message_handler_fn_ptr_safe app service_id instance_id method_id msg_handler w
      in (Ok (), w))"

definition register_listener_internal ::
  "vsomeip_api \<Rightarrow> uuri \<Rightarrow> uuri option \<Rightarrow> registration_type \<Rightarrow> message_handler_fn_ptr \<Rightarrow>
     ApplicationName \<Rightarrow> ('bm, 'z) core_scheme \<Rightarrow> unit result \<times> ('bm, 'z) core_scheme" where
  "register_listener_internal V source_filter sink_filter registration_type msg_handler app w =
     (case registration_type of
        Publish \<Rightarrow> register_publish_listener V source_filter msg_handler app w
      | Request \<Rightarrow> register_request_listener V sink_filter msg_handler app w
      | Response \<Rightarrow> register_response_listener V source_filter msg_handler app w
      | AllPointToPoint \<Rightarrow> (Err INTERNAL, w))"

definition unregister_listener_internal ::
  "vsomeip_api \<Rightarrow> uuri \<Rightarrow> uuri option \<Rightarrow> registration_type \<Rightarrow> ApplicationName \<Rightarrow>
     ('bm, 'z) core_scheme \<Rightarrow> unit result \<times> ('bm, 'z) core_scheme" where
  "unregister_listener_internal V source_filter sink_filter registration_type app w =
     (case registration_type of
        Publish \<Rightarrow>
          let (_, service_id) = split_u32_to_u16 (ue_id source_filter);
              instance_id = ANY_INSTANCE V;
              (_, method_id) = split_u32_to_u16 (resource_id source_filter)
          in (Ok (), call_vs (UnregisterMessageHandler app service_id instance_id method_id) w)
      | Request \<Rightarrow>
          (case sink_filter of
             None \<Rightarrow> (Err INVALID_ARGUMENT, w)
           | Some sink_filter \<Rightarrow>
               let (_, service_id) = split_u32_to_u16 (ue_id sink_filter);
                   instance_id = ANY_INSTANCE V;
                   (_, method_id) = split_u32_to_u16 (resource_id sink_filter)
               in (Ok (), call_vs (UnregisterMessageHandler app service_id instance_id method_id) w))
      | Response \<Rightarrow>
          (case sink_filter of
             None \<Rightarrow> (Err INVALID_ARGUMENT, w)
           | Some sink_filter \<Rightarrow>
               let (_, service_id) = split_u32_to_u16 (ue_id sink_filter);
                   instance_id = ANY_INSTANCE V;
                   (_, method_id) = split_u32_to_u16 (resource_id sink_filter)
               in (Ok (), call_vs (UnregisterMessageHandler app service_id instance_id method_id) w))
      | AllPointToPoint \<Rightarrow> (Err INTERNAL, w))"

subsection \<open>Sending\<close>

definition send_internal ::
  "up_rust_api \<Rightarrow> vsomeip_api \<Rightarrow> bool \<Rightarrow> umessage \<Rightarrow> ApplicationName \<Rightarrow>
     ('bm, 'z) core_scheme \<Rightarrow> unit result \<times> ('bm, 'z) core_scheme" where
  "send_internal U V overflow_checks umsg app w =
     (let bytes = (case payload umsg of Some bytes \<Rightarrow> bytes | None \<Rightarrow> []);
          vsomeip_payload = set_data_safe bytes
      in case enum_value_or (msg_type (attributes_of U umsg)) UMESSAGE_TYPE_UNSPECIFIED of
           UMESSAGE_TYPE_UNSPECIFIED \<Rightarrow> (Err INVALID_ARGUMENT, w)
         | UMESSAGE_TYPE_NOTIFICATION \<Rightarrow> (Err INVALID_ARGUMENT, w)
         | UMESSAGE_TYPE_PUBLISH \<Rightarrow>
             and_then (umsg_publish_to_vsomeip_notification U V umsg app w)
               (\<lambda>(service_id, instance_id, event_id) w.
                  (Ok (), call_vs (Notify app service_id instance_id event_id
                                     vsomeip_payload True) w))
         | UMESSAGE_TYPE_REQUEST \<Rightarrow>
             and_then (umsg_request_to_vsomeip_message U V overflow_checks umsg app w)
               (\<lambda>vsomeip_msg w.
                  let vsomeip_msg = set_message_payload vsomeip_payload vsomeip_msg
                  in (Ok (), call_vs (SendMessage app vsomeip_msg) w))
         | UMESSAGE_TYPE_RESPONSE \<Rightarrow>
             and_then (umsg_response_to_vsomeip_message U V umsg w)
               (\<lambda>vsomeip_msg w.
                  let vsomeip_msg = set_message_payload vsomeip_payload vsomeip_msg
                  in (Ok (), call_vs (SendMessage app vsomeip_msg) w)))"

subsection \<open>The loop\<close>

definition execute ::
  "up_rust_api \<Rightarrow> vsomeip_api \<Rightarrow> (nat set \<Rightarrow> nat) \<Rightarrow> bool \<Rightarrow> string option \<Rightarrow> command \<Rightarrow>
     ('bm, 'z) core_scheme \<Rightarrow> unit result \<times> ('bm, 'z) core_scheme" where
  "execute U V pick overflow_checks config cmd w =
     (case cmd of
        RegisterListener src sink registration_type msg_handler app \<Rightarrow>
          (case get_application V (hist w) app of
             None \<Rightarrow> (Err INTERNAL, w)
           | Some application_wrapper \<Rightarrow>
               register_listener_internal V src sink registration_type msg_handler
                 application_wrapper w)
      | UnregisterListener src sink registration_type app \<Rightarrow>
          (case get_application V (hist w) app of
             None \<Rightarrow> (Err INTERNAL, w)
           | Some application_wrapper \<Rightarrow>
               unregister_listener_internal V src sink registration_type application_wrapper w)
      | Send umsg message_type app \<Rightarrow>
          (case get_application V (hist w) app of
             None \<Rightarrow> (Err INTERNAL, w)
           | Some application_wrapper \<Rightarrow>
               send_internal U V overflow_checks umsg application_wrapper w)
      | StartVsomeipApp client_id app \<Rightarrow> start_vsomeip_app_internal V pick app config w
      | StopVsomeipApp app \<Rightarrow> stop_vsomeip_app_internal V app w)"

text \<open>
  The answers to the commands handled, and whether the engine is still alive after them: a
  panic ends the thread, and the commands behind it are dropped unanswered.
\<close>

fun event_loop ::
  "up_rust_api \<Rightarrow> vsomeip_api \<Rightarrow> (nat set \<Rightarrow> nat) \<Rightarrow> bool \<Rightarrow> string option \<Rightarrow> command list \<Rightarrow>
     ('bm, 'z) core_scheme \<Rightarrow> unit result list \<times> bool \<times> ('bm, 'z) core_scheme" where
  "event_loop U V pick oc config [] w = ([], True, w)"
| "event_loop U V pick oc config (cmd # cmds) w =
     (case execute U V pick oc config cmd w of
        (Panic, w) \<Rightarrow> ([], False, w)
      | (res, w) \<Rightarrow>
          let (answers, alive, w) = event_loop U V pick oc config cmds w
          in (res # answers, alive, w))"

subsection \<open>What the engine leaves alone\<close>

text \<open>
  Everything but the history of calls, the pool of state handlers, the correlation tables
  and the marks of what was offered and requested.
\<close>

definition untouched ::
  "('bm, 'z) core_scheme \<Rightarrow> (nat set \<times> (nat \<rightharpoonup> storage_ref) \<times> bool) \<times>
     ('bm \<times> VsomeipApplicationConfig \<times> uuri \<times> AuthorityName) \<times> storage_ref \<times> 'z" where
  "untouched w =
     ((free_message_handler_ids (statics w), message_handler_id_to_transport_storage (statics w),
       init_done (statics w)),
      (message_handler_registry (storage w), vsomeip_application_config (storage w),
       storage_uri (storage w), remote_authority (storage w)), self w, core.more w)"

lemma untouched_call_vs [state_frames]: "untouched (call_vs c w) = untouched w"
  by (simp add: untouched_def)

lemma untouched_on_rpc:
  "untouched (snd (on_storage (on_rpc f) w)) = untouched w"
  by (simp add: untouched_def on_rpc_def case_prod_unfold Let_def)

lemma untouched_on_offered:
  "untouched (snd (on_storage (on_offered f) w)) = untouched w"
  by (simp add: untouched_def on_offered_def case_prod_unfold Let_def)

lemma untouched_registries [state_frames]:
  "untouched (snd (on_storage (storage_retrieve_session_id oc c) w)) = untouched w"
  "untouched (snd (on_storage (storage_insert_ue_request_correlation k i u) w)) = untouched w"
  "untouched (snd (on_storage (storage_remove_ue_request_correlation k) w)) = untouched w"
  "untouched (snd (on_storage (storage_insert_me_request_correlation i k) w)) = untouched w"
  "untouched (snd (on_storage (storage_remove_me_request_correlation i) w)) = untouched w"
  "untouched (snd (on_storage (storage_insert_service_offered s j m) w)) = untouched w"
  "untouched (snd (on_storage (storage_insert_service_requested s j m) w)) = untouched w"
  "untouched (snd (on_storage (storage_insert_event_offered s j m) w)) = untouched w"
  "untouched (snd (on_storage (storage_insert_event_requested s j m) w)) = untouched w"
  unfolding storage_retrieve_session_id_def storage_insert_ue_request_correlation_def
    storage_remove_ue_request_correlation_def storage_insert_me_request_correlation_def
    storage_remove_me_request_correlation_def storage_insert_service_offered_def
    storage_insert_service_requested_def storage_insert_event_offered_def
    storage_insert_event_requested_def
  by (rule untouched_on_rpc untouched_on_offered)+

lemma untouched_and_then:
  assumes "untouched (snd r) = untouched w" and "\<And>a v. untouched (snd (f a v)) = untouched v"
  shows "untouched (snd (and_then r f)) = untouched w"
  using assms by (intro and_then_snd_invariant [where P = "\<lambda>v. untouched v = untouched w"]) auto

lemma untouched_report_states [state_frames]:
  "untouched (w\<lparr>statics := report_states i ss (statics w)\<rparr>) = untouched w"
proof -
  have "free_message_handler_ids (report_states i ss g) = free_message_handler_ids g \<and>
    message_handler_id_to_transport_storage (report_states i ss g) =
      message_handler_id_to_transport_storage g \<and>
    init_done (report_states i ss g) = init_done g" for g
    by (induction ss arbitrary: g) (auto simp: call_shared_state_fn_def split: option.splits)
  then show ?thesis by (simp add: untouched_def)
qed

lemma untouched_statics [state_frames]:
  "untouched (snd (on_statics (recv_state i) w)) = untouched w"
  "untouched (snd (storage_find_state_handler_id pick w)) = untouched w"
  "untouched (snd (storage_free_state_handler_id i w)) = untouched w"
  by (auto simp: untouched_def on_statics_def recv_state_def storage_find_state_handler_id_def
      find_available_state_handler_id_def storage_free_state_handler_id_def
      free_state_handler_id_def Let_def split: option.splits list.splits)

lemma untouched_start_thread [state_frames]: "untouched (snd (start_thread V app w)) = untouched w"
  by (simp add: start_thread_def state_frames split: option.split)

lemma untouched_create_app [state_frames]:
  "untouched (snd (create_app V pick app config w)) = untouched w"
  by (auto simp: create_app_def Let_def case_prod_unfold state_frames
      split: option.split outcome.split intro!: untouched_and_then)

lemma untouched_conversions [state_frames]:
  "untouched (snd (umsg_publish_to_vsomeip_notification U V umsg app w)) = untouched w"
  "untouched (snd (umsg_request_to_vsomeip_message U V oc umsg app w)) = untouched w"
  "untouched (snd (umsg_response_to_vsomeip_message U V umsg w)) = untouched w"
  by (auto simp: umsg_publish_to_vsomeip_notification_def umsg_request_to_vsomeip_message_def
      umsg_response_to_vsomeip_message_def Let_def case_prod_unfold state_frames
      split: option.split intro!: untouched_and_then)

lemma convert_untouched:
  "untouched (snd (convert_vsomeip_msg_to_umsg U V n auth me remote m w)) = untouched w"
  by (auto simp: convert_vsomeip_msg_to_umsg_def convert_vsomeip_mt_request_to_umsg_def
      convert_vsomeip_mt_response_to_umsg_def convert_vsomeip_mt_error_to_umsg_def
      convert_vsomeip_mt_notification_to_umsg_def Let_def state_frames
      split: option.split message_type.split intro!: untouched_and_then)

lemma untouched_send [state_frames]:
  "untouched (snd (send_internal U V oc umsg app w)) = untouched w"
  by (auto simp: send_internal_def Let_def case_prod_unfold state_frames
      split: umessage_type.split intro!: untouched_and_then)

lemma untouched_register [state_frames]:
  "untouched (snd (register_listener_internal V src snk t h app w)) = untouched w"
  by (auto simp: register_listener_internal_def Let_def case_prod_unfold state_frames
      split: registration_type.split option.split)

lemma untouched_unregister [state_frames]:
  "untouched (snd (unregister_listener_internal V src snk t app w)) = untouched w"
  by (auto simp: unregister_listener_internal_def Let_def case_prod_unfold state_frames
      split: registration_type.split option.split)

lemma untouched_execute [state_frames]:
  "untouched (snd (execute U V pick oc config cmd w)) = untouched w"
  by (auto simp: execute_def start_vsomeip_app_internal_def stop_vsomeip_app_internal_def
      state_frames split: command.split option.split intro!: untouched_and_then)

end
