(* ===== verification/Engine_Calls.thy ===== *)
theory Engine_Calls
  imports Transport_Engine
begin

text \<open>
  What the engine of \<^verbatim>\<open>transport_engine.rs\<close> does to vsomeip: the calls each command adds
  to the history, that every event is offered and subscribed to at most once in the life of a
  transport, which commands can panic, how numbers of the state handler pool are used, and
  the order in which commands are handled.
\<close>

subsection \<open>The calls a command makes\<close>

lemma storage_marks [simp]:
  "offered_registry (snd (storage_insert_event_offered s i e st)) =
     (offered_registry st)\<lparr>offered_events := insert (s, i, e) (offered_events (offered_registry st))\<rparr>"
  "offered_registry (snd (storage_insert_event_requested s i e st)) =
     (offered_registry st)\<lparr>requested_events := insert (s, i, e) (requested_events (offered_registry st))\<rparr>"
  "offered_registry (snd (storage_insert_service_offered s i e st)) =
     (offered_registry st)\<lparr>offered_services := insert (s, i, e) (offered_services (offered_registry st))\<rparr>"
  "offered_registry (snd (storage_insert_service_requested s i e st)) =
     (offered_registry st)\<lparr>requested_services := insert (s, i, e) (requested_services (offered_registry st))\<rparr>"
  by (simp_all add: storage_offered_defs)

lemma storage_marks_query:
  "storage_is_event_offered s i e st \<longleftrightarrow> (s, i, e) \<in> offered_events (offered_registry st)"
  "storage_is_event_requested s i e st \<longleftrightarrow> (s, i, e) \<in> requested_events (offered_registry st)"
  "storage_is_service_offered s i e st \<longleftrightarrow> (s, i, e) \<in> offered_services (offered_registry st)"
  "storage_is_service_requested s i e st \<longleftrightarrow> (s, i, e) \<in> requested_services (offered_registry st)"
  by (simp_all add: storage_offered_defs)

text \<open>The key under which a registration reaches vsomeip: service, instance, method.\<close>

definition low16 :: "u32 \<Rightarrow> u16" where "low16 v = snd (split_u32_to_u16 v)"

fun registered_key ::
  "vsomeip_api \<Rightarrow> uuri \<Rightarrow> uuri option \<Rightarrow> registration_type \<Rightarrow>
     (ServiceId \<times> InstanceId \<times> MethodId) option" where
  "registered_key V src snk Publish = Some (low16 (ue_id src), 1, low16 (resource_id src))"
| "registered_key V src snk Request =
     map_option (\<lambda>k. (low16 (ue_id k), ANY_INSTANCE V, low16 (resource_id k))) snk"
| "registered_key V src snk Response =
     Some (low16 (ue_id src), ANY_INSTANCE V, low16 (resource_id src))"
| "registered_key V src snk AllPointToPoint = None"

fun unregistered_key ::
  "vsomeip_api \<Rightarrow> uuri \<Rightarrow> uuri option \<Rightarrow> registration_type \<Rightarrow>
     (ServiceId \<times> InstanceId \<times> MethodId) option" where
  "unregistered_key V src snk Publish =
     Some (low16 (ue_id src), ANY_INSTANCE V, low16 (resource_id src))"
| "unregistered_key V src snk AllPointToPoint = None"
| "unregistered_key V src snk _ =
     map_option (\<lambda>k. (low16 (ue_id k), ANY_INSTANCE V, low16 (resource_id k))) snk"

text \<open>The calls that change which handler functions vsomeip knows.\<close>

fun touches_handlers :: "vs_call \<Rightarrow> bool" where
  "touches_handlers (RegisterMessageHandler _ _ _ _ _) = True"
| "touches_handlers (UnregisterMessageHandler _ _ _ _) = True"
| "touches_handlers _ = False"

lemma register_key:
  assumes "registered_key V src snk t = Some (s, i, m)"
  shows "\<exists>calls w'. register_listener_internal V src snk t h app w = (Ok (), w') \<and>
    hist w' = hist w @ calls @ [RegisterMessageHandler app s i m h] \<and>
    (\<forall>c \<in> set calls. \<nexists>a s i m f. c = RegisterMessageHandler a s i m f) \<and>
    \<not> list_ex touches_handlers calls"
  using assms
  by (cases t)
    (auto simp: register_listener_internal_def low16_def Let_def case_prod_unfold)

lemma register_no_key:
  "registered_key V src snk t = None \<Longrightarrow>
     \<exists>e. register_listener_internal V src snk t h app w = (Err e, w)"
  by (cases t) (auto simp: register_listener_internal_def split: option.splits)

lemma unregister_key:
  "unregistered_key V src snk t = Some (s, i, m) \<Longrightarrow>
     unregister_listener_internal V src snk t app w =
       (Ok (), call_vs (UnregisterMessageHandler app s i m) w)"
  by (cases t)
    (auto simp: unregister_listener_internal_def low16_def case_prod_unfold Let_def)

lemma unregister_no_key:
  "unregistered_key V src snk t = None \<Longrightarrow>
     \<exists>e. unregister_listener_internal V src snk t app w = (Err e, w)"
  by (cases t) (auto simp: unregister_listener_internal_def split: option.splits)

lemma storage_rpc_offered [simp]:
  "offered_registry (snd (storage_retrieve_session_id oc c st)) = offered_registry st"
  "offered_registry (snd (storage_insert_ue_request_correlation k i u st)) = offered_registry st"
  "offered_registry (snd (storage_remove_me_request_correlation i st)) = offered_registry st"
  by (simp_all add: storage_rpc_defs case_prod_unfold Let_def)

text \<open>A conversion of a request or a response calls nothing and marks nothing.\<close>

definition only_rpc :: "('bm, 'z) core_scheme \<Rightarrow> ('bm, 'z) core_scheme \<Rightarrow> bool" where
  "only_rpc w v \<longleftrightarrow> hist v = hist w \<and> statics v = statics w \<and>
     offered_registry (storage v) = offered_registry (storage w)"

lemma only_rpc_refl [simp]: "only_rpc w w"
  by (simp add: only_rpc_def)

lemma only_rpc_steps [simp]:
  "only_rpc w (snd (on_storage (storage_retrieve_session_id oc c) v)) \<longleftrightarrow> only_rpc w v"
  "only_rpc w (snd (on_storage (storage_insert_ue_request_correlation k i u) v)) \<longleftrightarrow> only_rpc w v"
  "only_rpc w (snd (on_storage (storage_remove_me_request_correlation i) v)) \<longleftrightarrow> only_rpc w v"
  by (simp_all add: only_rpc_def)

lemma only_rpc_results:
  "on_storage (storage_retrieve_session_id oc c) v = (x, u) \<Longrightarrow> only_rpc w u \<longleftrightarrow> only_rpc w v"
  "on_storage (storage_insert_ue_request_correlation k i y) v = (z, u) \<Longrightarrow>
     only_rpc w u \<longleftrightarrow> only_rpc w v"
  "on_storage (storage_remove_me_request_correlation i) v = (x', u) \<Longrightarrow>
     only_rpc w u \<longleftrightarrow> only_rpc w v"
  by (metis only_rpc_steps snd_conv)+

lemma response_only_rpc: "only_rpc w (snd (umsg_response_to_vsomeip_message U V umsg w))"
  unfolding umsg_response_to_vsomeip_message_def Let_def case_prod_unfold
  by (auto split: option.split intro!: and_then_snd_invariant [where P = "only_rpc w"]
      simp: only_rpc_results)

lemma request_only_rpc: "only_rpc w (snd (umsg_request_to_vsomeip_message U V oc umsg app w))"
  unfolding umsg_request_to_vsomeip_message_def Let_def case_prod_unfold
  by (auto split: option.split intro!: and_then_snd_invariant [where P = "only_rpc w"]
      simp: only_rpc_results)

lemmas conversions_quiet [simp] =
  response_only_rpc [unfolded only_rpc_def, THEN conjunct1]
  response_only_rpc [unfolded only_rpc_def, THEN conjunct2, THEN conjunct1]
  response_only_rpc [unfolded only_rpc_def, THEN conjunct2, THEN conjunct2]
  request_only_rpc [unfolded only_rpc_def, THEN conjunct1]
  request_only_rpc [unfolded only_rpc_def, THEN conjunct2, THEN conjunct1]
  request_only_rpc [unfolded only_rpc_def, THEN conjunct2, THEN conjunct2]

lemma publish_step:
  assumes "msg_source (attributes_of U umsg) = Some src"
    and "k = (low16 (ue_id src), 1, low16 (resource_id src))"
  shows "\<exists>w'. umsg_publish_to_vsomeip_notification U V umsg app w = (Ok k, w') \<and>
    hist w' = hist w @ (if k \<in> offered_events (offered_registry (storage w)) then []
      else [OfferService app (fst k) 1 (ANY_MAJOR V) (ANY_MINOR V),
            OfferEvent app (fst k) 1 (snd (snd k)) (snd (snd k))]) \<and>
    offered_registry (storage w') = (offered_registry (storage w))
      \<lparr>offered_events := insert k (offered_events (offered_registry (storage w)))\<rparr> \<and>
    rpc_registry (storage w') = rpc_registry (storage w)"
  using assms
  by (auto simp: umsg_publish_to_vsomeip_notification_def low16_def Let_def case_prod_unfold
      storage_marks_query on_storage_def insert_absorb storage_insert_event_offered_def
      on_offered_def insert_event_offered_def)

lemma publish_no_source:
  "msg_source (attributes_of U umsg) = None \<Longrightarrow>
     umsg_publish_to_vsomeip_notification U V umsg app w = (Err INVALID_ARGUMENT, w)"
  by (simp add: umsg_publish_to_vsomeip_notification_def)

subsection \<open>Nothing is offered or subscribed to twice\<close>

fun event_offer :: "vs_call \<Rightarrow> (ServiceId \<times> InstanceId \<times> EventId) option" where
  "event_offer (OfferEvent _ s i e _) = Some (s, i, e)"
| "event_offer _ = None"

fun event_subscription :: "vs_call \<Rightarrow> (ServiceId \<times> InstanceId \<times> EventId) option" where
  "event_subscription (Subscribe _ s i e _ _) = Some (s, i, e)"
| "event_subscription _ = None"

text \<open>The keys the calls of a history carry, in order, each as often as it occurs.\<close>

definition keys :: "(vs_call \<Rightarrow> 'k option) \<Rightarrow> vs_call list \<Rightarrow> 'k list" where
  "keys f h = List.map_filter f h"

lemma keys_simps [simp]:
  "keys f [] = []" "keys f (h @ h') = keys f h @ keys f h'"
  "keys f (c # h) = (case f c of None \<Rightarrow> keys f h | Some k \<Rightarrow> k # keys f h)"
  by (simp_all add: keys_def List.map_filter_def split: option.split)

text \<open>
  From \<open>w\<close> to \<open>w'\<close> calls have only been added, none of them offers or subscribes to an
  event marked before or offers or subscribes to it a second time, and every event offered or
  subscribed to is marked.
\<close>

definition marks_kept ::
  "(vs_call \<Rightarrow> 'k option) \<Rightarrow> (offered_requested \<Rightarrow> 'k set) \<Rightarrow> offered_requested \<Rightarrow>
     vs_call list \<Rightarrow> offered_requested \<Rightarrow> bool" where
  "marks_kept key marks r calls r' \<longleftrightarrow>
     distinct (keys key calls) \<and> set (keys key calls) \<inter> marks r = {} \<and>
     marks r' = marks r \<union> set (keys key calls)"

definition once_only :: "('bm, 'z) core_scheme \<Rightarrow> ('bm, 'z) core_scheme \<Rightarrow> bool" where
  "once_only w w' \<longleftrightarrow> (\<exists>calls. hist w' = hist w @ calls \<and>
     marks_kept event_offer offered_events
       (offered_registry (storage w)) calls (offered_registry (storage w')) \<and>
     marks_kept event_subscription requested_events
       (offered_registry (storage w)) calls (offered_registry (storage w')))"

lemma marks_kept_append:
  "marks_kept key marks r xs r' \<Longrightarrow> marks_kept key marks r' ys r'' \<Longrightarrow>
     marks_kept key marks r (xs @ ys) r''"
  by (auto simp: marks_kept_def)

lemma once_only_trans [trans]: "once_only w v \<Longrightarrow> once_only v u \<Longrightarrow> once_only w u"
  unfolding once_only_def
  by (elim exE conjE, rule exI, intro conjI)
    (simp, (rule marks_kept_append, assumption+)+)

lemma once_only_refl [simp]: "once_only w w"
  by (simp add: once_only_def marks_kept_def)

lemma once_only_register: "once_only w (snd (register_listener_internal V src snk t h app w))"
  by (auto simp: register_listener_internal_def once_only_def marks_kept_def storage_marks_query
      Let_def case_prod_unfold split: registration_type.split option.split)

lemma once_only_unregister:
  "once_only w (snd (unregister_listener_internal V src snk t app w))"
  by (auto simp: unregister_listener_internal_def once_only_def marks_kept_def Let_def
      case_prod_unfold split: registration_type.split option.split)

lemma on_statics_simps [simp]:
  "hist (snd (on_statics f w)) = hist w" "storage (snd (on_statics f w)) = storage w"
  "fst (on_statics f w) = fst (f (statics w))" "statics (snd (on_statics f w)) = snd (f (statics w))"
  "core.more (snd (on_statics f w)) = core.more w" "self (snd (on_statics f w)) = self w"
  by (simp_all add: on_statics_def case_prod_unfold Let_def)

lemma start_thread_eq:
  "snd (start_thread V app w) =
     (if vs_application_exists V (hist w) app then call_vs (StartApplication app) w else w)"
  by (simp add: start_thread_def get_application_def)

text \<open>Calls that neither offer nor subscribe.\<close>

definition plain_calls :: "vs_call list \<Rightarrow> bool" where
  "plain_calls calls \<longleftrightarrow> keys event_offer calls = [] \<and> keys event_subscription calls = []"

definition extends_plainly ::
  "('bm, 'z) core_scheme \<Rightarrow> ('bm, 'z) core_scheme \<Rightarrow> bool" where
  "extends_plainly w w' \<longleftrightarrow>
     (\<exists>calls. hist w' = hist w @ calls \<and> plain_calls calls) \<and>
     offered_registry (storage w') = offered_registry (storage w)"

lemma once_only_extends: "extends_plainly w w' \<Longrightarrow> once_only w w'"
  by (auto simp: extends_plainly_def plain_calls_def once_only_def marks_kept_def)

lemma extends_plainly_refl [simp, intro]: "extends_plainly w w"
  by (auto simp: extends_plainly_def plain_calls_def)

lemma extends_plainly_call [intro]:
  "extends_plainly w v \<Longrightarrow> event_offer c = None \<Longrightarrow> event_subscription c = None \<Longrightarrow>
     extends_plainly w (call_vs c v)"
  by (force simp: extends_plainly_def plain_calls_def)

lemma extends_plainly_statics [simp]:
  "extends_plainly w (v\<lparr>statics := g\<rparr>) \<longleftrightarrow> extends_plainly w v"
  "extends_plainly w (snd (on_statics f v)) \<longleftrightarrow> extends_plainly w v"
  by (simp_all add: extends_plainly_def)

lemma once_only_call:
  "once_only w v \<Longrightarrow> event_offer c = None \<Longrightarrow> event_subscription c = None \<Longrightarrow>
     once_only w (call_vs c v)"
  by (rule once_only_trans) (auto intro: once_only_extends)

lemma extends_plainly_find:
  "storage_find_state_handler_id pick w = (x, v) \<Longrightarrow> extends_plainly w v"
  by (metis extends_plainly_refl extends_plainly_statics(2) snd_conv
      storage_find_state_handler_id_def)

lemma create_app_plain: "extends_plainly w (snd (create_app V pick app config w))"
proof (cases "vs_application_exists V (hist w) app")
  case False
  show ?thesis
    unfolding create_app_def get_application_simps(2) [OF False] option.case
  proof (rule and_then_snd_invariant [where P = "extends_plainly w"], goal_cases)
    case 1
    show ?case by (metis extends_plainly_find prod.collapse)
  next
    case (2 i v)
    then have v: "extends_plainly w v" by (rule extends_plainly_find)
    show ?case
      by (cases "storage_get_state_handler i v")
        (use v in \<open>simp_all add: start_thread_eq storage_free_state_handler_id_def Let_def
           case_prod_unfold extends_plainly_call split: option.split\<close>)
  qed
qed (simp add: create_app_def)

lemma once_only_send: "once_only w (snd (send_internal U V oc umsg app w))"
proof -
  have "once_only w (snd (umsg_publish_to_vsomeip_notification U V umsg app w))"
  proof (cases "msg_source (attributes_of U umsg)")
    case (Some src)
    from publish_step [OF this refl, of V app w] show ?thesis
      by (auto simp: once_only_def marks_kept_def insert_absorb split: if_splits)
  qed (simp add: publish_no_source)
  moreover have "once_only w (snd (umsg_request_to_vsomeip_message U V oc umsg app w))"
    "once_only w (snd (umsg_response_to_vsomeip_message U V umsg w))"
    by (simp_all add: once_only_def marks_kept_def)
  ultimately show ?thesis
    by (auto simp: send_internal_def Let_def case_prod_unfold split: umessage_type.split
        intro!: and_then_snd_invariant [where P = "once_only w"] once_only_call)
qed

lemma once_only_start: "once_only w (snd (start_vsomeip_app_internal V pick app config w))"
  unfolding start_vsomeip_app_internal_def
proof (rule and_then_snd_invariant [where P = "once_only w"])
  show create: "once_only w (snd (create_app V pick app config w))"
    using create_app_plain by (rule once_only_extends)
  show "once_only w (snd (Ok (), v))" if "create_app V pick app config w = (Ok a, v)" for a v
    using that create by simp
qed

lemma once_only_stop: "once_only w (snd (stop_vsomeip_app_internal V app w))"
  by (simp add: stop_vsomeip_app_internal_def get_application_def once_only_call)

lemma once_only_execute: "once_only w (snd (execute U V pick oc config cmd w))"
  by (cases cmd)
    (simp_all add: execute_def get_application_def once_only_register
       once_only_unregister once_only_send once_only_start once_only_stop)

lemma once_only_event_loop: "once_only w (snd (snd (event_loop U V pick oc config cmds w)))"
proof (induction cmds arbitrary: w)
  case (Cons cmd cmds)
  obtain x v where x: "execute U V pick oc config cmd w = (x, v)" by fastforce
  with once_only_execute [of w U V pick oc config cmd] have "once_only w v" by simp
  with once_only_trans Cons.IH [of v] x show ?case
    by (cases x) (auto simp: case_prod_unfold Let_def)
qed simp

subsection \<open>Starting an application\<close>

text \<open>The statics once a storage has been created: every state handler has its channel.\<close>

definition states_ok :: "statics \<Rightarrow> bool" where
  "states_ok g \<longleftrightarrow>
     free_state_handler_ids g \<subseteq> {..<num_state_handlers} \<and>
     {..<num_state_handlers} \<subseteq> dom (available_state_channels g)"

lemma states_ok_init: "states_ok (new_trait_obj statics_init)"
  using new_trait_obj_channels [of statics_init]
  by (simp add: states_ok_def new_trait_obj_def initialize_sender_receiver_def statics_init_def)

lemma report_states_channel:
  assumes "available_state_channels g i = Some q" "length q \<le> state_channel_capacity"
  shows "report_states i ss g = g\<lparr>available_state_channels := (available_state_channels g)
    (i \<mapsto> q @ take (state_channel_capacity - length q) ss)\<rparr>"
  using assms
proof (induction ss arbitrary: g q)
  case Nil
  then show ?case by (cases g) (auto simp: fun_upd_idem)
next
  case (Cons s ss)
  show ?case
  proof (cases "length q < state_channel_capacity")
    case True
    let ?g = "g\<lparr>available_state_channels := (available_state_channels g)(i \<mapsto> q @ [s])\<rparr>"
    have "take (state_channel_capacity - length q) (s # ss) =
        s # take (state_channel_capacity - length (q @ [s])) ss"
      using True by (simp flip: Suc_diff_Suc)
    with Cons.IH [of ?g "q @ [s]"] True Cons.prems show ?thesis
      by (simp add: call_shared_state_fn_def cong: if_cong)
  next
    case False
    with Cons.prems show ?thesis
      by (cases g) (auto simp: call_shared_state_fn_def fun_upd_idem)
  qed
qed

text \<open>The calls up to the start of the application's thread.\<close>

definition start_calls :: "vsomeip_api \<Rightarrow> vs_call list \<Rightarrow> ApplicationName \<Rightarrow> string option \<Rightarrow>
    nat \<Rightarrow> vs_call list" where
  "start_calls V h app config i =
     (let calls = [CreateApplication app config, Init app,
                   RegisterStateHandler app (Available_state_handler_extern_fn i)]
      in if vs_application_exists V (h @ calls) app then calls @ [StartApplication app] else calls)"

text \<open>An application that vsomeip created is found by the thread, and started.\<close>

context vsomeip_applications
begin

lemma start_calls_started:
  assumes "vs_creates_application V h app config"
  shows "start_calls V h app config i = [CreateApplication app config, Init app,
    RegisterStateHandler app (Available_state_handler_extern_fn i), StartApplication app]"
  using created_application_exists [OF assms] by (simp add: start_calls_def)

end

lemma create_app_run:
  assumes new: "\<not> vs_application_exists V (hist w) app"
    and i: "i \<in> free_state_handler_ids (statics w)" "i = pick (free_state_handler_ids (statics w))"
      "i < num_state_handlers"
    and q: "available_state_channels (statics w) i = Some q" "length q \<le> state_channel_capacity"
    and created: "vs_creates_application V (hist w) app config"
    and h: "h = hist w @ start_calls V (hist w) app config i"
    and states: "states = q @ take (state_channel_capacity - length q) (vs_reported_states V h app)"
  shows "\<exists>w'. create_app V pick app config w = ((if states = [] then Err INTERNAL else Ok ()), w') \<and>
    hist w' = h @ (if states = [] then [] else [UnregisterStateHandler app]) \<and>
    free_state_handler_ids (statics w') =
      free_state_handler_ids (statics w) - (if states = [] then {i} else {}) \<and>
    available_state_channels (statics w') = (available_state_channels (statics w))(i \<mapsto> tl states) \<and>
    storage w' = storage w"
proof -
  let ?v = "w\<lparr>statics := (statics w)\<lparr>free_state_handler_ids :=
    free_state_handler_ids (statics w) - {i}\<rparr>\<rparr>"
  let ?h = "hist w @ start_calls V (hist w) app config i"
  let ?u = "call_vs (RegisterStateHandler app (Available_state_handler_extern_fn i))
    (call_vs (Init app) (call_vs (CreateApplication app config) ?v))"
  let ?t = "snd (start_thread V app ?u)"
  have find: "storage_find_state_handler_id pick w = (Ok i, ?v)"
    using i by (auto simp: storage_find_state_handler_id_def on_statics_def
        find_available_state_handler_id_def Let_def)
  have got: "storage_get_state_handler i ?v = Ok (Available_state_handler_extern_fn i, i)"
    using i q by (simp add: storage_get_state_handler_def get_state_handler_eq)
  have t: "hist ?t = ?h" "statics ?t = statics ?v" "storage ?t = storage w"
    by (simp_all add: start_thread_eq start_calls_def Let_def)
  have "report_states i (vs_reported_states V h app) (statics ?t) =
    (statics ?v)\<lparr>available_state_channels := (available_state_channels (statics w))(i \<mapsto> states)\<rparr>"
    unfolding t(2) states using q by (simp add: report_states_channel)
  with find got t i(1) created h show ?thesis
    by (cases states)
      (auto simp: create_app_def new Let_def case_prod_unfold on_statics_def recv_state_def
        storage_free_state_handler_id_def free_state_handler_id_def)
qed

subsection \<open>Panics\<close>

lemma states_ok_channel:
  "states_ok g \<Longrightarrow>
     states_ok (g\<lparr>available_state_channels := (available_state_channels g)(i \<mapsto> q)\<rparr>)"
  unfolding states_ok_def by (simp add: subset_insertI2)

lemma states_ok_report: "states_ok g \<Longrightarrow> states_ok (report_states i ss g)"
proof (induction ss arbitrary: g)
  case (Cons s ss)
  show ?case
  proof (cases "call_shared_state_fn i s g")
    case (Some g')
    then have "states_ok g'"
      using Cons.prems states_ok_channel [OF Cons.prems]
      by (auto simp: call_shared_state_fn_def split: option.splits if_splits)
    with Cons.IH Some show ?thesis by simp
  qed (use Cons.prems in simp)
qed simp

lemma states_ok_recv: "states_ok g \<Longrightarrow> states_ok (snd (recv_state i g))"
  by (simp add: recv_state_def states_ok_channel split: option.split list.split)

lemma states_ok_free:
  "states_ok g \<Longrightarrow> i < num_state_handlers \<Longrightarrow> states_ok (snd (free_state_handler_id i g))"
  by (simp add: states_ok_def free_state_handler_id_def)

lemma find_state_id:
  assumes "iterates_members pick" "states_ok (statics w)"
    and "storage_find_state_handler_id pick w = (Ok i, v)"
  shows "i < num_state_handlers \<and> states_ok (statics v) \<and>
    storage_get_state_handler i v = Ok (Available_state_handler_extern_fn i, i)"
proof -
  let ?ids = "free_state_handler_ids (statics w)"
  have ids: "?ids \<subseteq> {..<num_state_handlers}"
    and chans: "{..<num_state_handlers} \<subseteq> dom (available_state_channels (statics w))"
    using assms(2) by (simp_all add: states_ok_def)
  have "?ids \<noteq> {}" and i: "i = pick ?ids"
    and v: "v = w\<lparr>statics := (statics w)\<lparr>free_state_handler_ids := ?ids - {i}\<rparr>\<rparr>"
    using assms(3)
    by (simp_all add: storage_find_state_handler_id_def on_statics_def Let_def
        find_available_state_handler_id_def split: if_splits prod.splits)
      (auto split: if_splits)
  moreover have "finite ?ids" using ids by (rule finite_subset) simp
  ultimately have "i \<in> ?ids" using assms(1) by (simp add: iterates_members_def)
  then have lt: "i < num_state_handlers" using ids by blast
  then have "i \<in> dom (available_state_channels (statics w))" using chans by blast
  moreover have "states_ok (statics v)" using ids chans v by (auto simp: states_ok_def)
  ultimately show ?thesis
    using lt v by (auto simp: storage_get_state_handler_def get_state_handler_eq)
qed

lemma start_thread_statics [simp]: "statics (snd (start_thread V app w)) = statics w"
  by (simp add: start_thread_eq)

lemma create_app_states:
  assumes pick: "iterates_members pick" and ok: "states_ok (statics w)"
  shows "states_ok (statics (snd (create_app V pick app config w))) \<and>
    fst (create_app V pick app config w) \<noteq> Panic"
proof (cases "vs_application_exists V (hist w) app")
  case False
  obtain x v where find: "storage_find_state_handler_id pick w = (x, v)" by fastforce
  show ?thesis
  proof (cases x)
    case (Ok i)
    with find find_state_id [OF pick ok, of i v] have i: "i < num_state_handlers"
      "states_ok (statics v)"
      "storage_get_state_handler i v = Ok (Available_state_handler_extern_fn i, i)" by auto
    show ?thesis
    proof (cases "vs_creates_application V (hist v) app config")
      case True
      with find Ok i show ?thesis
        by (simp add: create_app_def False Let_def case_prod_unfold states_ok_free
            states_ok_report states_ok_recv storage_free_state_handler_id_def
            split: option.split) (simp add: free_state_handler_id_def)
    qed (use find Ok i in \<open>simp add: create_app_def False Let_def\<close>)
  next
    case (Err e)
    with find show ?thesis
      using ok by (auto simp: create_app_def False storage_find_state_handler_id_def on_statics_def
          find_available_state_handler_id_def Let_def split: if_splits)
  next
    case Panic
    with find show ?thesis
      by (auto simp: storage_find_state_handler_id_def on_statics_def
          find_available_state_handler_id_def Let_def split: if_splits)
  qed
qed (use ok in \<open>simp add: create_app_def\<close>)

lemma request_panic_iff:
  "fst (umsg_request_to_vsomeip_message U V oc umsg app w) = Panic \<longleftrightarrow>
     msg_source (attributes_of U umsg) \<noteq> None \<and> msg_sink (attributes_of U umsg) \<noteq> None \<and>
     msg_id (attributes_of U umsg) \<noteq> None \<and> oc \<and>
     session_table w (vs_get_client V (hist w) app) = Some 0xFFFF"
proof (cases "\<exists>src snk i. msg_source (attributes_of U umsg) = Some src \<and>
    msg_sink (attributes_of U umsg) = Some snk \<and> msg_id (attributes_of U umsg) = Some i")
  case True
  then obtain src snk i where attrs: "msg_source (attributes_of U umsg) = Some src"
    "msg_sink (attributes_of U umsg) = Some snk" "msg_id (attributes_of U umsg) = Some i" by blast
  let ?c = "vs_get_client V (hist w) app"
  show ?thesis
  proof (cases "oc \<and> session_table w ?c = Some 0xFFFF")
    case True
    with retrieve_session_panic [of w ?c] request_unfold [OF attrs refl, where w = w and V = V]
      attrs show ?thesis by simp
  next
    case False
    then have "fst (umsg_request_to_vsomeip_message U V oc umsg app w) \<noteq> Panic"
      using request_accepted [OF attrs refl False] request_occupied [OF attrs refl False]
      by (cases "ue_table w (next_request_id V app w)") fastforce+
    with False show ?thesis by blast
  qed
next
  case False
  then show ?thesis
    by (auto simp: umsg_request_to_vsomeip_message_def Let_def case_prod_unfold
        split: option.splits)
qed

lemma response_no_panic: "fst (umsg_response_to_vsomeip_message U V umsg w) \<noteq> Panic"
proof -
  have "fst (on_storage (storage_remove_me_request_correlation i) w) \<noteq> Panic" for i
    by (simp add: storage_rpc_defs remove_me_request_correlation_def case_prod_unfold
        split: option.split)
  then show ?thesis
    by (auto simp: umsg_response_to_vsomeip_message_def Let_def case_prod_unfold
        and_then_panic_iff split: option.split)
qed

lemma publish_no_panic: "fst (umsg_publish_to_vsomeip_notification U V umsg app w) \<noteq> Panic"
  using publish_step [OF _ refl, of U umsg _ V app w] publish_no_source [of U umsg V app w]
  by (cases "msg_source (attributes_of U umsg)") fastforce+

lemma send_panic_iff:
  "fst (send_internal U V oc umsg app w) = Panic \<longleftrightarrow>
     msg_type (attributes_of U umsg) = Some UMESSAGE_TYPE_REQUEST \<and>
     msg_source (attributes_of U umsg) \<noteq> None \<and> msg_sink (attributes_of U umsg) \<noteq> None \<and>
     msg_id (attributes_of U umsg) \<noteq> None \<and> oc \<and>
     session_table w (vs_get_client V (hist w) app) = Some 0xFFFF"
proof (cases "msg_type (attributes_of U umsg)")
  case (Some t)
  then show ?thesis
    by (cases t) (simp_all add: send_internal_def Let_def case_prod_unfold and_then_panic_iff
        publish_no_panic response_no_panic request_panic_iff)
qed (simp add: send_internal_def)

lemma execute_listener_no_panic:
  assumes "case cmd of Send _ _ _ \<Rightarrow> False | StartVsomeipApp _ _ \<Rightarrow> False | _ \<Rightarrow> True"
  shows "fst (execute U V pick oc config cmd w) \<noteq> Panic"
  using assms
  by (auto simp: execute_def register_listener_internal_def unregister_listener_internal_def
      stop_vsomeip_app_internal_def Let_def case_prod_unfold
      split: command.splits option.splits registration_type.splits)


lemma statics_send: "statics (snd (send_internal U V oc umsg app w)) = statics w"
proof -
  have "statics (snd (umsg_publish_to_vsomeip_notification U V umsg app w)) = statics w"
    by (simp add: umsg_publish_to_vsomeip_notification_def case_prod_unfold Let_def
        split: option.split)
  then show ?thesis
    by (auto simp: send_internal_def Let_def case_prod_unfold split: umessage_type.split
        intro!: and_then_snd_invariant [where P = "\<lambda>v. statics v = statics w"])
      (metis conversions_quiet snd_conv)+
qed

lemma statics_listeners:
  "statics (snd (register_listener_internal V src snk t h app w)) = statics w"
  "statics (snd (unregister_listener_internal V src snk t app w)) = statics w"
  by (auto simp: register_listener_internal_def unregister_listener_internal_def Let_def
      case_prod_unfold split: registration_type.split option.split)

lemma execute_states_ok:
  assumes "iterates_members pick" "states_ok (statics w)"
  shows "states_ok (statics (snd (execute U V pick oc config cmd w)))"
proof (cases cmd)
  case (StartVsomeipApp c app)
  have "states_ok (statics (snd (and_then (create_app V pick app config w) (\<lambda>_ w. (Ok (), w)))))"
    by (rule and_then_snd_invariant)
      (use create_app_states [OF assms, of V app config] in auto)
  with StartVsomeipApp show ?thesis
    by (simp add: execute_def start_vsomeip_app_internal_def)
qed (use assms in \<open>auto simp: execute_def statics_send statics_listeners
       stop_vsomeip_app_internal_def split: option.split\<close>)

text \<open>Only the session counter can make the engine panic.\<close>

lemma execute_panic_iff:
  assumes "iterates_members pick" "states_ok (statics w)"
  shows "fst (execute U V pick oc config cmd w) = Panic \<longleftrightarrow>
    (\<exists>umsg t app. cmd = Send umsg t app \<and> vs_application_exists V (hist w) app \<and>
       fst (send_internal U V oc umsg app w) = Panic)"
proof (cases cmd)
  case (StartVsomeipApp c app)
  with create_app_states [OF assms, of V app config] show ?thesis
    by (simp add: execute_def start_vsomeip_app_internal_def and_then_panic_iff)
qed (use execute_listener_no_panic [of cmd U V pick oc config w] in
    \<open>auto simp: execute_def get_application_def\<close>)

subsection \<open>Order\<close>

lemma event_loop_append:
  "event_loop U V pick oc config (xs @ ys) w =
     (let (as, alive, v) = event_loop U V pick oc config xs w
      in if alive then let (bs, alive, u) = event_loop U V pick oc config ys v in (as @ bs, alive, u)
         else (as, False, v))"
proof (induction xs arbitrary: w)
  case (Cons x xs)
  obtain r v where "execute U V pick oc config x w = (r, v)" by fastforce
  with Cons.IH [of v] show ?case
    by (cases r) (auto simp: case_prod_unfold Let_def)
qed (simp add: case_prod_unfold Let_def)

end
