(* ===== verification/Transport.thy ===== *)
theory Transport
  imports Engine_Calls
begin

text \<open>
  \<^verbatim>\<open>up-transport-vsomeip/src/lib.rs\<close> and \<^verbatim>\<open>transport.rs\<close>: the transport a uEntity
  holds.  A \<open>world\<close> is one transport together with the process-wide state it works on: the
  \<open>core\<close> its storage and engine share, the channel to the engine and the transport's own
  fields.  The methods run one at a time.

  \<^item> Everything the code calls but does not define is in an \<open>env\<close>: up-rust, vsomeip, the
    bimap, the JSON library, the choice a hash set makes, the build's overflow checks.
  \<^item> The engine runs concurrently and the caller waits for an answer for three seconds.
    \<open>e_slots E k\<close> is the number of commands the engine gets done during the caller's
    \<open>k\<close>-th wait.  If that is not enough to reach the caller's own command, the wait ends in
    \<open>DEADLINE_EXCEEDED\<close> and the command stays in the channel, to be handled later.
  \<^item> A panic of the engine's thread drops the channel and all pending answers.

  Log output, the scheduling of the callback runtime's threads and tokio's own panics
  (calling \<open>block_in_place\<close> outside a multi-threaded runtime) are not modelled.
\<close>

record ('bm, 'v) env =
  e_up :: up_rust_api
  e_vs :: vsomeip_api
  e_bm :: "'bm bimap_api"
  e_json :: "'v json_api"
  e_pick :: "nat set \<Rightarrow> nat"
  e_overflow_checks :: bool
  e_builds_runtime :: "u8 \<Rightarrow> bool"
  e_slots :: "nat \<Rightarrow> nat"

record 'bm world = "'bm core" +
  queue :: "command list"
  engine_alive :: bool
  engine_config_path :: "string option"
  point_to_point_listener :: "listener option"
  config_path :: "string option"
  runtime_running :: bool
  awaits :: nat

subsection \<open>Talking to the engine\<close>

definition channel_capacity :: nat where "channel_capacity = 10000"

definition engine_execute ::
  "('bm, 'v) env \<Rightarrow> command \<Rightarrow> 'bm world \<Rightarrow> unit result \<times> 'bm world" where
  "engine_execute E cmd w =
     execute (e_up E) (e_vs E) (e_pick E) (e_overflow_checks E) (engine_config_path w) cmd w"

text \<open>
  How the engine's task goes on while a caller waits: it handles up to \<open>n\<close> commands of its
  channel.  The answer is that to the last command in the channel, when it got there.  This is no
  function of the source; \<open>Transport_Runs\<close> shows that it is the event loop on the head of the
  channel.
\<close>

fun engine_run ::
  "('bm, 'v) env \<Rightarrow> nat \<Rightarrow> 'bm world \<Rightarrow> unit result option \<times> 'bm world" where
  "engine_run E 0 w = (None, w)"
| "engine_run E (Suc n) w =
     (case queue w of
        [] \<Rightarrow> (None, w)
      | cmd # cmds \<Rightarrow>
          (case engine_execute E cmd (w\<lparr>queue := cmds\<rparr>) of
             (Panic, w) \<Rightarrow> (None, w\<lparr>queue := [], engine_alive := False\<rparr>)
           | (res, w) \<Rightarrow> if cmds = [] then (Some res, w) else engine_run E n w))"

text \<open>A send into the full channel waits until the engine has taken a command out.\<close>

definition send_to_engine_with_status ::
  "('bm, 'v) env \<Rightarrow> command \<Rightarrow> 'bm world \<Rightarrow> unit result \<times> 'bm world" where
  "send_to_engine_with_status E cmd w =
     (let w = (if length (queue w) < channel_capacity then w else snd (engine_run E 1 w))
      in if engine_alive w then (Ok (), w\<lparr>queue := queue w @ [cmd]\<rparr>) else (Err INTERNAL, w))"

definition await_engine :: "('bm, 'v) env \<Rightarrow> 'bm world \<Rightarrow> unit result \<times> 'bm world" where
  "await_engine E w =
     (case engine_run E (e_slots E (awaits w)) (w\<lparr>awaits := Suc (awaits w)\<rparr>) of
        (Some result, w) \<Rightarrow> (result, w)
      | (None, w) \<Rightarrow> (Err (if engine_alive w then DEADLINE_EXCEEDED else INTERNAL), w))"

text \<open>Every method sends its command, panics when the engine has stopped, and awaits the answer.\<close>

definition call_engine ::
  "('bm, 'v) env \<Rightarrow> command \<Rightarrow> 'bm world \<Rightarrow> unit result \<times> 'bm world" where
  "call_engine E cmd w =
     (case send_to_engine_with_status E cmd w of
        (Ok _, w) \<Rightarrow> await_engine E w
      | (_, w) \<Rightarrow> (Panic, w))"

definition on_handlers ::
  "(statics \<times> 'bm transport_storage \<Rightarrow> 'a \<times> statics \<times> 'bm transport_storage) \<Rightarrow>
     ('bm, 'z) core_scheme \<Rightarrow> 'a \<times> ('bm, 'z) core_scheme" where
  "on_handlers f w =
     (let (x, g, st) = f (statics w, storage w) in (x, w\<lparr>statics := g, storage := st\<rparr>))"

definition get_handler ::
  "('bm, 'v) env \<Rightarrow> listener_config \<Rightarrow> 'bm world \<Rightarrow>
     (get_message_handler_error, message_handler_fn_ptr) outcome \<times> 'bm world" where
  "get_handler E listener_config w =
     on_handlers (storage_get_message_handler (e_bm E) (e_pick E) (self w) listener_config) w"

definition release_handler ::
  "('bm, 'v) env \<Rightarrow> listener_config \<Rightarrow> 'bm world \<Rightarrow> unit result \<times> 'bm world" where
  "release_handler E listener_config w =
     on_handlers (storage_release_message_handler (e_bm E) listener_config) w"

definition application_of :: "'bm world \<Rightarrow> ApplicationName" where
  "application_of w = app_name (vsomeip_application_config (storage w))"

subsection \<open>Point-to-point listeners\<close>

definition service_ue_id :: "ServiceConfig \<Rightarrow> UeId" where
  "service_ue_id service_config =
     push_bit 16 (ucast (sc_instance service_config)) OR ucast (sc_service service_config)"

fun register_services ::
  "('bm, 'v) env \<Rightarrow> listener \<Rightarrow> ServiceConfig list \<Rightarrow> 'bm world \<Rightarrow> unit result \<times> 'bm world" where
  "register_services E listener [] w = (Ok (), w)"
| "register_services E listener (service_config # service_configs) w =
     (let source_filter = u_any (e_up E);
          sink_filter = any_uuri_fixed_authority_id (get_local_authority (storage w))
                          (service_ue_id service_config)
      in case get_handler E (source_filter, Some sink_filter, listener) w of
           (Ok msg_handler, w) \<Rightarrow>
             (case call_engine E (RegisterListener source_filter (Some sink_filter) Request
                      msg_handler (application_of w)) w of
                (Ok _, w) \<Rightarrow> register_services E listener service_configs w
              | (Err _, w) \<Rightarrow> (Err INTERNAL, w)
              | (Panic, w) \<Rightarrow> (Panic, w))
         | (Err _, w) \<Rightarrow> (Err INTERNAL, w)
         | (Panic, w) \<Rightarrow> (Panic, w))"

definition register_point_to_point_listener ::
  "('bm, 'v) env \<Rightarrow> listener \<Rightarrow> 'bm world \<Rightarrow> unit result \<times> 'bm world" where
  "register_point_to_point_listener E listener w =
     (case config_path w of
        None \<Rightarrow> (Err NOT_FOUND, w)
      | Some path \<Rightarrow>
          (case extract_services (e_json E) path of
             Ok service_configs \<Rightarrow>
               if point_to_point_listener w \<noteq> None then (Err ALREADY_EXISTS, w)
               else register_services E listener service_configs
                      (w\<lparr>point_to_point_listener := Some listener\<rparr>)
           | Err e \<Rightarrow> (Err e, w)
           | Panic \<Rightarrow> (Panic, w)))"

fun unregister_services ::
  "('bm, 'v) env \<Rightarrow> listener \<Rightarrow> ServiceConfig list \<Rightarrow> 'bm world \<Rightarrow> unit result \<times> 'bm world" where
  "unregister_services E listener [] w = (Ok (), w)"
| "unregister_services E listener (service_config # service_configs) w =
     (let source_filter = u_any (e_up E);
          sink_filter = any_uuri_fixed_authority_id (get_local_authority (storage w))
                          (service_ue_id service_config)
      in case determine_type (e_up E) source_filter (Some sink_filter) of
           Ok registration_type \<Rightarrow>
             (case call_engine E (UnregisterListener source_filter (Some sink_filter)
                      registration_type (application_of w)) w of
                (Ok _, w) \<Rightarrow>
                  let (_, w) = release_handler E (source_filter, Some sink_filter, listener) w
                  in unregister_services E listener service_configs w
              | (Err _, w) \<Rightarrow> unregister_services E listener service_configs w
              | (Panic, w) \<Rightarrow> (Panic, w))
         | _ \<Rightarrow> unregister_services E listener service_configs w)"

definition unregister_point_to_point_listener ::
  "('bm, 'v) env \<Rightarrow> 'bm world \<Rightarrow> unit result \<times> 'bm world" where
  "unregister_point_to_point_listener E w =
     (case point_to_point_listener w of
        None \<Rightarrow> (Err ALREADY_EXISTS, w)
      | Some ptp_comp_listener \<Rightarrow>
     (case config_path w of
        None \<Rightarrow> (Err NOT_FOUND, w)
      | Some path \<Rightarrow>
          (case extract_services (e_json E) path of
             Ok service_configs \<Rightarrow> unregister_services E ptp_comp_listener service_configs w
           | Err e \<Rightarrow> (Err e, w)
           | Panic \<Rightarrow> (Panic, w))))"

subsection \<open>Listeners\<close>

definition unregister_listener ::
  "('bm, 'v) env \<Rightarrow> uuri \<Rightarrow> uuri option \<Rightarrow> listener \<Rightarrow> 'bm world \<Rightarrow> unit result \<times> 'bm world" where
  "unregister_listener E source_filter sink_filter listener w =
     (case determine_type (e_up E) source_filter sink_filter of
        Ok registration_type \<Rightarrow>
          if registration_type = AllPointToPoint then unregister_point_to_point_listener E w
          else
            (case call_engine E (UnregisterListener source_filter sink_filter registration_type
                     (application_of w)) w of
               (Panic, w) \<Rightarrow> (Panic, w)
             | (_, w) \<Rightarrow>
                 (case release_handler E (source_filter, sink_filter, listener) w of
                    (Err _, w) \<Rightarrow> (Ok (), w)
                  | (_, w) \<Rightarrow> (Ok (), w)))
      | _ \<Rightarrow> (Err INVALID_ARGUMENT, w))"

definition register_listener ::
  "('bm, 'v) env \<Rightarrow> uuri \<Rightarrow> uuri option \<Rightarrow> listener \<Rightarrow> 'bm world \<Rightarrow> unit result \<times> 'bm world" where
  "register_listener E source_filter sink_filter listener w =
     (case determine_type (e_up E) source_filter sink_filter of
        Ok registration_type \<Rightarrow>
          if registration_type = AllPointToPoint then register_point_to_point_listener E listener w
          else
            (case get_handler E (source_filter, sink_filter, listener) w of
               (Ok msg_handler, w) \<Rightarrow>
                 call_engine E (RegisterListener source_filter sink_filter registration_type
                   msg_handler (application_of w)) w
             | (Err _, w) \<Rightarrow> (Err INTERNAL, w)
             | (Panic, w) \<Rightarrow> (Panic, w))
      | Err e \<Rightarrow> (Err e, w)
      | Panic \<Rightarrow> (Panic, w))"

definition receive :: "uuri \<Rightarrow> uuri option \<Rightarrow> 'bm world \<Rightarrow> umessage result \<times> 'bm world" where
  "receive source_filter sink_filter w = (Err UNIMPLEMENTED, w)"

subsection \<open>Sending\<close>

definition register_for_returning_response ::
  "('bm, 'v) env \<Rightarrow> uuri \<Rightarrow> uuri option \<Rightarrow> registration_type \<Rightarrow> 'bm world \<Rightarrow>
     bool result \<times> 'bm world" where
  "register_for_returning_response E message_src message_sink message_type w =
     (case point_to_point_listener w of
        None \<Rightarrow> (Ok False, w)
      | Some listener \<Rightarrow>
          if message_type \<noteq> Request then (Ok True, w)
          else
            (case message_sink of
               None \<Rightarrow> (Err INVALID_ARGUMENT, w)
             | Some message_sink \<Rightarrow>
                 let source_filter = message_sink; sink_filter = Some message_src
                 in (case get_handler E (source_filter, sink_filter, listener) w of
                       (Ok msg_handler, w) \<Rightarrow>
                         (case call_engine E (RegisterListener source_filter sink_filter Response
                                  msg_handler (application_of w)) w of
                            (Ok _, w) \<Rightarrow> (Ok True, w)
                          | (_, w) \<Rightarrow> (Panic, w))
                     | (Err (ListenerConfigAlreadyExists _), w) \<Rightarrow> (Ok True, w)
                     | (Err (ListenerIdAlreadyExists _), w) \<Rightarrow> (Err INTERNAL, w)
                     | (Err (OtherError _), w) \<Rightarrow> (Err INTERNAL, w)
                     | (Panic, w) \<Rightarrow> (Panic, w))))"

definition send :: "('bm, 'v) env \<Rightarrow> umessage \<Rightarrow> 'bm world \<Rightarrow> unit result \<times> 'bm world" where
  "send E message w =
     (case attributes message of
        None \<Rightarrow> (Err INVALID_ARGUMENT, w)
      | Some attrs \<Rightarrow>
          if \<not> u_validate_attributes (e_up E) attrs then (Err INVALID_ARGUMENT, w)
          else
            (case msg_source attrs of
               None \<Rightarrow> (Err INVALID_ARGUMENT, w)
             | Some source_filter \<Rightarrow>
                 (case determine_type (e_up E) source_filter (msg_sink attrs) of
                    Ok message_type \<Rightarrow>
                      let app = application_of w
                      in and_then (register_for_returning_response E source_filter
                                     (msg_sink attrs) message_type w)
                           (\<lambda>_ w. call_engine E (Send message message_type app) w)
                  | Err e \<Rightarrow> (Err e, w)
                  | Panic \<Rightarrow> (Panic, w))))"

subsection \<open>Life cycle\<close>

text \<open>
  The thread of the callback runtime builds a tokio runtime with the given number of worker
  threads, or panics, sends its handle and waits for the signal to shut down.
  \<open>e_builds_runtime\<close> says for which numbers tokio builds one.  If the thread panics the
  channel the caller waits on is dropped, and the caller panics too.
\<close>

record RuntimeConfig =
  num_threads :: u8

definition DEFAULT_NUM_THREADS :: u8 where "DEFAULT_NUM_THREADS = 10"

definition runtime_threads :: "RuntimeConfig option \<Rightarrow> u8" where
  "runtime_threads runtime_config =
     (case runtime_config of
        Some runtime_config \<Rightarrow> num_threads runtime_config
      | None \<Rightarrow> DEFAULT_NUM_THREADS)"

definition get_callback_runtime_handle ::
  "('bm, 'v) env \<Rightarrow> RuntimeConfig option \<Rightarrow> unit result" where
  "get_callback_runtime_handle E runtime_config =
     (let num_threads = runtime_threads runtime_config;
          handle_sent = e_builds_runtime E num_threads
      in if handle_sent then Ok () else Panic)"

definition initialize_vsomeip_app ::
  "('bm, 'v) env \<Rightarrow> ApplicationName \<Rightarrow> 'bm world \<Rightarrow> ApplicationName result \<times> 'bm world" where
  "initialize_vsomeip_app E app w =
     (let client_id = app_id (vsomeip_application_config (storage w))
      in case call_engine E (StartVsomeipApp client_id app) w of
           (Ok _, w) \<Rightarrow> (Ok app, w)
         | (Err _, w) \<Rightarrow> (Err INTERNAL, w)
         | (Panic, w) \<Rightarrow> (Panic, w))"

definition shutdown_vsomeip_app ::
  "('bm, 'v) env \<Rightarrow> 'bm world \<Rightarrow> unit result \<times> 'bm world" where
  "shutdown_vsomeip_app E w = call_engine E (StopVsomeipApp (application_of w)) w"

fun unregister_all ::
  "('bm, 'v) env \<Rightarrow> listener_config list \<Rightarrow> 'bm world \<Rightarrow> unit result \<times> 'bm world" where
  "unregister_all E [] w = (Ok (), w)"
| "unregister_all E ((src_filter, sink_filter, listener) # listener_configs) w =
     (case unregister_listener E src_filter sink_filter listener w of
        (Panic, w) \<Rightarrow> (Panic, w)
      | (_, w) \<Rightarrow> unregister_all E listener_configs w)"

text \<open>\<open>shutdown_runtime_tx\<close> fails, and the \<open>expect\<close> panics, when the runtime's thread is gone.\<close>

definition drop_transport :: "('bm, 'v) env \<Rightarrow> 'bm world \<Rightarrow> unit result \<times> 'bm world" where
  "drop_transport E w =
     (let all_listener_configs = storage_get_all_listener_configs (e_bm E) (storage w)
      in case unregister_all E all_listener_configs w of
           (Panic, w) \<Rightarrow> (Panic, w)
         | (_, w) \<Rightarrow>
             (case shutdown_vsomeip_app E w of
                (Panic, w) \<Rightarrow> (Panic, w)
              | (_, w) \<Rightarrow>
                  if runtime_running w then (Ok (), w\<lparr>runtime_running := False\<rparr>)
                  else (Panic, w)))"

text \<open>
  A transport is made from the process-wide state: the statics and the calls made so far.
  \<open>me\<close> is the allocation of its storage.  When its application cannot be started, the
  transport that was made already is dropped.
\<close>

text \<open>A new engine: an empty channel and a thread that works it off.\<close>

definition start_event_loop :: "string option \<Rightarrow> 'bm world \<Rightarrow> 'bm world" where
  [simp]: "start_event_loop path w = w\<lparr>engine_config_path := path, engine_alive := True\<rparr>"

definition new_engine :: "string option \<Rightarrow> 'bm world \<Rightarrow> 'bm world" where
  [simp]: "new_engine path w = start_event_loop path (w\<lparr>queue := []\<rparr>)"

definition fresh_world ::
  "('bm, 'v) env \<Rightarrow> storage_ref \<Rightarrow> VsomeipApplicationConfig \<Rightarrow> uuri \<Rightarrow> AuthorityName \<Rightarrow>
     string option \<Rightarrow> statics \<times> vs_call list \<Rightarrow> 'bm world" where
  "fresh_world E me app_config u remote_authority_name path s =
     new_engine None
      \<lparr>statics = new_trait_obj (fst s), hist = snd s, self = me,
       storage = transport_storage_new (e_bm E) app_config u remote_authority_name,
       queue = [], engine_alive = False, engine_config_path = None,
       point_to_point_listener = None, config_path = path, runtime_running = True, awaits = 0\<rparr>"

definition new_internal ::
  "('bm, 'v) env \<Rightarrow> storage_ref \<Rightarrow> VsomeipApplicationConfig \<Rightarrow> uuri \<Rightarrow> AuthorityName \<Rightarrow>
     string option \<Rightarrow> RuntimeConfig option \<Rightarrow> statics \<times> vs_call list \<Rightarrow>
     'bm world result \<times> statics \<times> vs_call list" where
  "new_internal E me app_config u remote_authority_name path runtime_config s =
     (if u8_try_from (ue_version_major u) = None then (Err INVALID_ARGUMENT, s)
      else if \<not> u_verify_rpc_response (e_up E) u then (Err INVALID_ARGUMENT, s)
      else if get_callback_runtime_handle E runtime_config = Panic then (Panic, s)
      else
        let w = fresh_world E me app_config u remote_authority_name path s
        in case initialize_vsomeip_app E (app_name app_config) w of
             (Ok _, w) \<Rightarrow> (Ok w, statics w, hist w)
           | (Err e, w) \<Rightarrow>
               (case drop_transport E w of
                  (Panic, w) \<Rightarrow> (Panic, statics w, hist w)
                | (_, w) \<Rightarrow> (Err e, statics w, hist w))
           | (Panic, w) \<Rightarrow> (Panic, statics w, hist w))"

definition new ::
  "('bm, 'v) env \<Rightarrow> storage_ref \<Rightarrow> VsomeipApplicationConfig \<Rightarrow> uuri \<Rightarrow> AuthorityName \<Rightarrow>
     RuntimeConfig option \<Rightarrow> statics \<times> vs_call list \<Rightarrow>
     'bm world result \<times> statics \<times> vs_call list" where
  "new E me app_config u remote_authority_name runtime_config s =
     new_internal E me app_config u remote_authority_name None runtime_config s"

definition new_with_config ::
  "('bm, 'v) env \<Rightarrow> storage_ref \<Rightarrow> uuri \<Rightarrow> AuthorityName \<Rightarrow> string \<Rightarrow>
     RuntimeConfig option \<Rightarrow> statics \<times> vs_call list \<Rightarrow>
     'bm world result \<times> statics \<times> vs_call list" where
  "new_with_config E me u remote_authority_name path runtime_config s =
     (if \<not> j_exists (e_json E) path then (Err NOT_FOUND, s)
      else
        (case extract_application (e_json E) path of
           Ok app_config \<Rightarrow> new_internal E me app_config u remote_authority_name (Some path)
                               runtime_config s
         | Err e \<Rightarrow> (Err e, s)
         | Panic \<Rightarrow> (Panic, s)))"

subsection \<open>The transport's own addresses\<close>

definition get_authority :: "'bm world \<Rightarrow> AuthorityName" where
  "get_authority w = authority_name (storage_uri (storage w))"

definition get_resource_uri :: "'bm world \<Rightarrow> u16 \<Rightarrow> uuri" where
  "get_resource_uri w i = (storage_uri (storage w))\<lparr>resource_id := ucast i\<rparr>"

definition get_source_uri :: "'bm world \<Rightarrow> uuri" where
  "get_source_uri w = storage_uri (storage w)"

end
