(* ===== verification/Request_Identifiers.thy ===== *)
theory Request_Identifiers
  imports Engine_Calls
begin

text \<open>
  The identifiers requests are filed under, in a build with overflow checks: every entry of the
  correlation table that leads from SOME/IP to uProtocol has a session number below its
  client's counter, so that the next number is never in use.  Every command of the engine and
  every conversion of an incoming message keeps this.
\<close>

definition requests_numbered :: "('bm, 'z) core_scheme \<Rightarrow> bool" where
  "requests_numbered w \<longleftrightarrow>
     (\<forall>c s. ue_table w (create_request_id c s) \<noteq> None \<longrightarrow>
        (\<exists>n. session_table w c = Some n \<and> s < n))"

lemma create_request_id_eq [simp]:
  "create_request_id c s = create_request_id d t \<longleftrightarrow> c = d \<and> s = t"
  by (metis create_request_id_high create_request_id_low)

lemma requests_numberedD:
  assumes "requests_numbered w" "ue_table w (create_request_id c s) \<noteq> None"
  shows "s < current_session c w"
proof -
  from assms obtain n where "session_table w c = Some n" "s < n"
    unfolding requests_numbered_def by blast
  then show ?thesis by (simp add: current_session_def)
qed

lemma session_less_next: "s \<noteq> 0xFFFF \<Longrightarrow> s < s + 1" for s :: SessionId
proof -
  assume "s \<noteq> 0xFFFF"
  then have "1 + s \<noteq> 0" using add_eq_0_iff by force
  then show ?thesis by (simp add: word_less_nat_alt unatSuc add.commute)
qed

lemma requests_numbered_mono:
  assumes "requests_numbered w" "ue_table v \<subseteq>\<^sub>m ue_table w" "session_table v = session_table w"
  shows "requests_numbered v"
  using assms unfolding requests_numbered_def map_le_def by (metis domIff)

lemma requests_numbered_same:
  "rpc_registry (storage v) = rpc_registry (storage w) \<Longrightarrow> requests_numbered v = requests_numbered w"
  by (simp add: requests_numbered_def table_defs)

text \<open>The registries of marks and the statics are separate from the correlation tables.\<close>

lemma storage_marks_rpc [simp]:
  "rpc_registry (snd (storage_insert_service_offered s j m st)) = rpc_registry st"
  "rpc_registry (snd (storage_insert_service_requested s j m st)) = rpc_registry st"
  "rpc_registry (snd (storage_insert_event_offered s j m st)) = rpc_registry st"
  "rpc_registry (snd (storage_insert_event_requested s j m st)) = rpc_registry st"
  by (simp_all add: storage_insert_service_offered_def storage_insert_service_requested_def
      storage_insert_event_offered_def storage_insert_event_requested_def on_offered_def
      case_prod_unfold Let_def)

lemma listener_commands_rpc:
  "rpc_registry (storage (snd (register_listener_internal V src snk t h app w))) =
     rpc_registry (storage w)"
  "rpc_registry (storage (snd (unregister_listener_internal V src snk t app w))) =
     rpc_registry (storage w)"
  by (auto simp: register_listener_internal_def unregister_listener_internal_def Let_def
      case_prod_unfold split: registration_type.split option.split)

lemma publish_rpc:
  "rpc_registry (storage (snd (umsg_publish_to_vsomeip_notification U V umsg app w))) =
     rpc_registry (storage w)"
  by (auto simp: umsg_publish_to_vsomeip_notification_def Let_def case_prod_unfold
      split: option.split)

lemma start_rpc:
  "rpc_registry (storage (snd (start_vsomeip_app_internal V pick app config w))) =
     rpc_registry (storage w)"
proof -
  have "storage (snd (create_app V pick app config w)) = storage w"
    by (auto simp: create_app_def Let_def case_prod_unfold start_thread_def
        storage_find_state_handler_id_def storage_free_state_handler_id_def on_statics_def
        split: option.split outcome.split
        intro!: and_then_snd_invariant [where P = "\<lambda>v. storage v = storage w"])
  then show ?thesis
    unfolding start_vsomeip_app_internal_def
    by (intro and_then_snd_invariant [where P = "\<lambda>v. rpc_registry (storage v) = rpc_registry (storage w)"]) auto
qed

lemma request_numbered:
  assumes num: "requests_numbered w"
  shows "requests_numbered (snd (umsg_request_to_vsomeip_message U V True umsg app w))"
proof (cases "\<exists>src snk i. msg_source (attributes_of U umsg) = Some src \<and>
    msg_sink (attributes_of U umsg) = Some snk \<and> msg_id (attributes_of U umsg) = Some i")
  case True
  then obtain src snk i where attrs: "msg_source (attributes_of U umsg) = Some src"
    "msg_sink (attributes_of U umsg) = Some snk" "msg_id (attributes_of U umsg) = Some i" by blast
  let ?c = "vs_get_client V (hist w) app"
  show ?thesis
  proof (cases "session_table w ?c = Some 0xFFFF")
    case True
    with retrieve_session_panic [OF this] request_unfold [OF attrs refl, where w = w and V = V] num
    show ?thesis by simp
  next
    case False
    let ?s = "current_session ?c w"
    have max: "?s \<noteq> 0xFFFF" using False by (auto simp: current_session_def split: option.splits)
    note lt = session_less_next [OF this]
    have id: "next_request_id V app w = create_request_id ?c ?s"
      by (simp add: next_request_id_def Let_def)
    have "ue_table w (next_request_id V app w) = None"
      unfolding id using requests_numberedD [OF num, of ?c ?s] by blast
    from request_accepted [OF attrs refl _ this, of True] False obtain v where
      v: "umsg_request_to_vsomeip_message U V True umsg app w = (Ok (request_message V snk), v)"
      "ue_table v = (ue_table w)(create_request_id ?c ?s \<mapsto> (i, src))"
      "session_table v = (session_table w)(?c \<mapsto> ?s + 1)"
      unfolding id by auto
    have "\<exists>n. session_table v c = Some n \<and> s < n" if "ue_table v (create_request_id c s) \<noteq> None" for c s
    proof (cases "c = ?c")
      case True
      show ?thesis
      proof (cases "s = ?s")
        case False
        with that v True have "ue_table w (create_request_id c s) \<noteq> None" by simp
        from requests_numberedD [OF num this] True have "s < ?s" by simp
        with v True lt show ?thesis by auto
      qed (use v True lt in simp)
    next
      case False
      with that v num show ?thesis by (simp add: requests_numbered_def)
    qed
    then show ?thesis unfolding v(1) requests_numbered_def by simp
  qed
next
  case False
  then have "snd (umsg_request_to_vsomeip_message U V True umsg app w) = w"
    by (auto simp: umsg_request_to_vsomeip_message_def Let_def case_prod_unfold split: option.splits)
  with num show ?thesis by simp
qed

lemma remove_me_numbered:
  assumes "requests_numbered w"
  shows "requests_numbered (snd (on_storage (storage_remove_me_request_correlation i) w))"
  using assms by (rule requests_numbered_mono)
    (cases "me_table w i"; use remove_me_step [of w i] remove_me_absent [of w i] in force)+

lemma response_numbered:
  assumes "requests_numbered w"
  shows "requests_numbered (snd (umsg_response_to_vsomeip_message U V umsg w))"
  using assms remove_me_numbered [OF assms]
  unfolding umsg_response_to_vsomeip_message_def Let_def case_prod_unfold
  by (auto split: option.split intro!: and_then_snd_invariant [where P = requests_numbered])
    (metis snd_conv)+

lemma send_numbered:
  assumes "requests_numbered w"
  shows "requests_numbered (snd (send_internal U V True umsg app w))"
proof -
  have call: "requests_numbered (call_vs c v) = requests_numbered v" for c and v :: "('a, 'b) core_scheme"
    by (rule requests_numbered_same) simp
  have "requests_numbered (snd (umsg_publish_to_vsomeip_notification U V umsg app w))"
    using assms requests_numbered_same [OF publish_rpc] by blast
  with assms response_numbered [OF assms] request_numbered [OF assms] show ?thesis
    by (auto simp: send_internal_def Let_def case_prod_unfold call split: umessage_type.split
        intro!: and_then_snd_invariant [where P = requests_numbered])
      (metis snd_conv)+
qed

lemma execute_numbered:
  assumes "requests_numbered w"
  shows "requests_numbered (snd (execute U V pick True config cmd w))"
proof (cases cmd)
  case (Send umsg t app)
  with assms send_numbered [OF assms] show ?thesis by (simp add: execute_def split: option.split)
qed (use assms in \<open>auto simp: execute_def listener_commands_rpc start_rpc stop_vsomeip_app_internal_def
      intro: requests_numbered_same [THEN iffD2] split: option.split\<close>)

lemma convert_numbered:
  assumes "requests_numbered w"
  shows "requests_numbered (snd (convert_vsomeip_msg_to_umsg U V n auth me remote m w))"
proof -
  have ins: "requests_numbered (snd (on_storage (storage_insert_me_request_correlation i k) w))" for i k
    using assms by (rule requests_numbered_mono)
      (cases "me_table w i"; use insert_me_step [of w i k] insert_me_occupied [of w i _ k] in force)+
  have rem: "requests_numbered (snd (on_storage (storage_remove_ue_request_correlation k) w))" for k
  proof (cases "ue_table w k")
    case (Some x)
    from remove_ue_step [OF this] obtain v where
      "on_storage (storage_remove_ue_request_correlation k) w = (Ok x, v)"
      "ue_table v = (ue_table w)(k := None)" "session_table v = session_table w" by auto
    then show ?thesis by (intro requests_numbered_mono [OF assms]) (simp_all add: map_le_def)
  qed (use assms in \<open>simp add: remove_ue_absent\<close>)
  have quiet: "requests_numbered (snd (and_then x f))"
    if "requests_numbered (snd x)" "\<And>a v. snd (f a v) = v" for x f
    using that by (metis and_then_snd_invariant snd_conv)
  have "requests_numbered (snd (convert_vsomeip_mt_request_to_umsg U V n auth me remote m bytes w))"
    for bytes
    unfolding convert_vsomeip_mt_request_to_umsg_def Let_def
    by (auto intro!: quiet [OF ins] simp: assms split: option.split)
  moreover have "requests_numbered (snd (convert_vsomeip_mt_response_to_umsg U V n remote m bytes w))"
    "requests_numbered (snd (convert_vsomeip_mt_error_to_umsg U V n remote m bytes w))" for bytes
    unfolding convert_vsomeip_mt_response_to_umsg_def convert_vsomeip_mt_error_to_umsg_def Let_def
    by (auto intro!: quiet [OF rem] simp: assms split: option.split)
  moreover have "snd (convert_vsomeip_mt_notification_to_umsg U n remote m bytes w) = w" for bytes
    by (simp add: convert_vsomeip_mt_notification_to_umsg_def Let_def split: option.split)
  ultimately show ?thesis
    using assms by (simp add: convert_vsomeip_msg_to_umsg_def Let_def split: option.split message_type.split)
qed

end
