(* ===== verification/Transport_Lemmas.thy ===== *)
theory Transport_Lemmas
  imports Transport Request_Identifiers
begin

text \<open>
  Lemmas on the transport: what a call of the engine leaves alone, what taking and giving
  back a handler function leaves alone, when a call can panic, and the invariant of a
  transport with the proof that every method keeps it.
\<close>

subsection \<open>The engine and the handlers do not interfere\<close>

lemma world_more_eqD:
  assumes "core.more v = core.more (w :: 'bm world)"
  shows "queue v = queue w" "engine_alive v = engine_alive w"
    "engine_config_path v = engine_config_path w"
    "point_to_point_listener v = point_to_point_listener w" "config_path v = config_path w"
    "runtime_running v = runtime_running w" "awaits v = awaits w"
  using assms by (cases v; cases w; simp)+

text \<open>What belongs to the handlers, and what only the caller's thread writes.\<close>

definition caller_side ::
  "'bm world \<Rightarrow> ((nat set \<times> (nat \<rightharpoonup> storage_ref) \<times> bool) \<times>
     ('bm \<times> VsomeipApplicationConfig \<times> uuri \<times> AuthorityName) \<times> storage_ref) \<times>
     listener option \<times> string option \<times> string option \<times> bool" where
  "caller_side w =
     ((fst (untouched w), fst (snd (untouched w)), self w), point_to_point_listener w,
      config_path w, engine_config_path w, runtime_running w)"

lemma untouched_caller_side:
  assumes "untouched v = untouched (w :: 'bm world)"
  shows "caller_side v = caller_side w"
proof -
  have "core.more v = core.more w" using assms by (simp add: untouched_def)
  from world_more_eqD [OF this] assms show ?thesis by (simp add: caller_side_def untouched_def)
qed

lemma engine_execute_untouched: "untouched (snd (engine_execute E cmd w)) = untouched w"
  by (simp add: engine_execute_def untouched_execute)

lemma engine_execute_fields [simp]:
  "queue (snd (engine_execute E cmd w)) = queue w"
  "engine_alive (snd (engine_execute E cmd w)) = engine_alive w"
  "awaits (snd (engine_execute E cmd w)) = awaits w"
  "caller_side (snd (engine_execute E cmd w)) = caller_side w"
proof -
  note frame = engine_execute_untouched [of E cmd w]
  then have "core.more (snd (engine_execute E cmd w)) = core.more w" by (simp add: untouched_def)
  note more = world_more_eqD [OF this]
  from more frame show
    "queue (snd (engine_execute E cmd w)) = queue w"
    "engine_alive (snd (engine_execute E cmd w)) = engine_alive w"
    "awaits (snd (engine_execute E cmd w)) = awaits w"
    "caller_side (snd (engine_execute E cmd w)) = caller_side w"
    by (simp_all add: caller_side_def untouched_def)
qed

lemma caller_side_update [simp]:
  "caller_side (w\<lparr>queue := q\<rparr>) = caller_side w"
  "caller_side (w\<lparr>engine_alive := b\<rparr>) = caller_side w"
  "caller_side (w\<lparr>awaits := n\<rparr>) = caller_side w"
  by (simp_all add: caller_side_def untouched_def)

lemma engine_run_caller_side [state_frames]:
  "caller_side (snd (engine_run E n w)) = caller_side w"
proof (induction n arbitrary: w)
  case (Suc n)
  show ?case
  proof (cases "queue w")
    case (Cons cmd cmds)
    obtain r v where x: "engine_execute E cmd (w\<lparr>queue := cmds\<rparr>) = (r, v)" by fastforce
    with engine_execute_fields(4) [of E cmd "w\<lparr>queue := cmds\<rparr>"]
    have "caller_side v = caller_side w" by simp
    with Suc.IH [of v] x Cons show ?thesis by (cases r) simp_all
  qed simp
qed simp

lemma send_to_engine_caller_side [state_frames]:
  "caller_side (snd (send_to_engine_with_status E cmd w)) = caller_side w"
  using engine_run_caller_side [of E 1 w]
  by (simp add: send_to_engine_with_status_def Let_def del: engine_run.simps)

lemma await_engine_caller_side [state_frames]:
  "caller_side (snd (await_engine E w)) = caller_side w"
  using engine_run_caller_side [of E "e_slots E (awaits w)" "w\<lparr>awaits := Suc (awaits w)\<rparr>"]
  by (auto simp: await_engine_def split: prod.splits option.splits)

lemma call_engine_caller_side [state_frames]:
  "caller_side (snd (call_engine E cmd w)) = caller_side w"
proof -
  obtain r v where "send_to_engine_with_status E cmd w = (r, v)" by fastforce
  with send_to_engine_caller_side [of E cmd w] await_engine_caller_side [of E v]
  show ?thesis by (cases r) (simp_all add: call_engine_def)
qed

subsection \<open>Commands that cannot kill the engine\<close>

fun harmless :: "command \<Rightarrow> bool" where
  "harmless (Send _ _ _) = False"
| "harmless (StartVsomeipApp _ _) = False"
| "harmless _ = True"

definition calm :: "'bm world \<Rightarrow> bool" where
  "calm w \<longleftrightarrow> engine_alive w \<and> (\<forall>cmd \<in> set (queue w). harmless cmd)"

lemma harmless_no_panic: "harmless cmd \<Longrightarrow> fst (engine_execute E cmd w) \<noteq> Panic"
  unfolding engine_execute_def
  by (rule execute_listener_no_panic) (cases cmd; simp)

lemma engine_run_calm: "calm w \<Longrightarrow> calm (snd (engine_run E n w))"
proof (induction n arbitrary: w)
  case (Suc n)
  show ?case
  proof (cases "queue w")
    case (Cons cmd cmds)
    obtain r v where x: "engine_execute E cmd (w\<lparr>queue := cmds\<rparr>) = (r, v)" by fastforce
    have "r \<noteq> Panic"
      using harmless_no_panic [of cmd E "w\<lparr>queue := cmds\<rparr>"] x Cons Suc.prems
      by (simp add: calm_def)
    moreover have "calm v"
      using engine_execute_fields(1,2) [of E cmd "w\<lparr>queue := cmds\<rparr>"] x Cons Suc.prems
      by (simp add: calm_def)
    ultimately show ?thesis using Suc.IH [of v] x Cons by (cases r) simp_all
  qed (use Suc.prems in simp)
qed simp

lemma engine_run_answer: "fst (engine_run E n w) \<noteq> Some Panic"
proof (induction n arbitrary: w)
  case (Suc n)
  show ?case
  proof (cases "queue w")
    case (Cons cmd cmds)
    obtain r v where "engine_execute E cmd (w\<lparr>queue := cmds\<rparr>) = (r, v)" by fastforce
    with Suc.IH [of v] Cons show ?thesis by (cases r) simp_all
  qed simp
qed simp

lemma await_engine_no_panic: "fst (await_engine E w) \<noteq> Panic"
  using engine_run_answer [of E "e_slots E (awaits w)" "w\<lparr>awaits := Suc (awaits w)\<rparr>"]
  by (auto simp: await_engine_def split: prod.splits option.splits)

lemma await_engine_calm: "calm w \<Longrightarrow> calm (snd (await_engine E w))"
  using engine_run_calm [of "w\<lparr>awaits := Suc (awaits w)\<rparr>" E "e_slots E (awaits w)"]
  by (auto simp: await_engine_def calm_def split: prod.splits option.splits)

lemma send_to_engine_calm:
  assumes "calm w"
  shows "\<exists>v. send_to_engine_with_status E cmd w = (Ok (), v) \<and>
    (harmless cmd \<longrightarrow> calm v)"
  using assms engine_run_calm [OF assms, of E 1]
  by (auto simp: send_to_engine_with_status_def calm_def Let_def simp del: engine_run.simps)

lemma call_engine_calm:
  assumes "calm w" "harmless cmd"
  shows "calm (snd (call_engine E cmd w)) \<and> fst (call_engine E cmd w) \<noteq> Panic"
proof -
  from send_to_engine_calm [OF assms(1)] assms(2) obtain v where
    "send_to_engine_with_status E cmd w = (Ok (), v)" "calm v" by blast
  with await_engine_calm [of v E] await_engine_no_panic [of E v] show ?thesis
    by (simp add: call_engine_def)
qed

text \<open>An engine that has nothing else to do and is given time.\<close>

definition prompt :: "('bm, 'v) env \<Rightarrow> 'bm world \<Rightarrow> bool" where
  "prompt E w \<longleftrightarrow> engine_alive w \<and> queue w = [] \<and> 0 < e_slots E (awaits w)"

lemma call_engine_prompt:
  assumes "prompt E w" "engine_execute E cmd (w\<lparr>awaits := Suc (awaits w)\<rparr>) = (r, v)" "r \<noteq> Panic"
  shows "call_engine E cmd w = (r, v)"
proof -
  obtain n where n: "e_slots E (awaits w) = Suc n"
    using assms(1) by (cases "e_slots E (awaits w)") (auto simp: prompt_def)
  have idle: "engine_alive w" "queue w = []" using assms(1) by (simp_all add: prompt_def)
  then have same: "w\<lparr>awaits := Suc (awaits w), queue := []\<rparr> = w\<lparr>awaits := Suc (awaits w)\<rparr>"
    by (cases w) simp
  have exec: "engine_execute E cmd (w\<lparr>awaits := Suc (awaits w), queue := []\<rparr>) = (r, v)"
    unfolding same by (rule assms(2))
  have "call_engine E cmd w = await_engine E (w\<lparr>queue := [cmd]\<rparr>)"
    using idle by (simp add: call_engine_def send_to_engine_with_status_def channel_capacity_def)
  also have "\<dots> = (r, v)"
    using assms(3) n exec
    by (cases r) (simp_all add: await_engine_def)
  finally show ?thesis .
qed

subsection \<open>Taking and giving back a handler function\<close>

text \<open>What the handler methods leave alone.\<close>

definition engine_side ::
  "'bm world \<Rightarrow> (vs_call list \<times> storage_ref \<times> nat set \<times> (nat \<rightharpoonup> state_type list) \<times> bool) \<times>
     (VsomeipApplicationConfig \<times> uuri \<times> AuthorityName \<times> rpc_correlation \<times> offered_requested) \<times>
     (command list \<times> bool \<times> string option \<times> listener option \<times> string option \<times> bool \<times> nat)" where
  "engine_side w =
     ((hist w, self w, free_state_handler_ids (statics w), available_state_channels (statics w),
       init_done (statics w)),
      (vsomeip_application_config (storage w), storage_uri (storage w),
       remote_authority (storage w), rpc_registry (storage w), offered_registry (storage w)),
      (queue w, engine_alive w, engine_config_path w, point_to_point_listener w, config_path w,
       runtime_running w, awaits w))"

lemma get_message_handler_statics:
  assumes "get_message_handler B pick me c s = (x, g, m)"
  shows "free_state_handler_ids g = free_state_handler_ids (fst s) \<and>
    available_state_channels g = available_state_channels (fst s) \<and>
    init_done g = init_done (fst s)"
  using assms
  by (auto simp: get_message_handler_def case_prod_unfold Let_def run_rollback_def
      rollback_free_id_def rollback_remove_transport_def
      split: outcome.splits message_handler_id_and_listener_config_error.splits)

lemma release_message_handler_statics:
  assumes "release_message_handler B c s = (x, g, m)"
  shows "free_state_handler_ids g = free_state_handler_ids (fst s) \<and>
    available_state_channels g = available_state_channels (fst s) \<and>
    init_done g = init_done (fst s)"
  using assms
  by (auto simp: release_message_handler_def case_prod_unfold Let_def split: option.splits)

lemma get_handler_engine_side [state_frames]:
  "engine_side (snd (get_handler E c w)) = engine_side w"
proof -
  obtain x g m where "get_message_handler (e_bm E) (e_pick E) (self w) c
      (statics w, message_handler_registry (storage w)) = (x, g, m)" by (metis prod_cases3)
  with get_message_handler_statics [OF this] show ?thesis
    by (simp add: get_handler_def on_handlers_def storage_get_message_handler_def engine_side_def)
qed

lemma release_handler_engine_side [state_frames]:
  "engine_side (snd (release_handler E c w)) = engine_side w"
proof -
  obtain x g m where "release_message_handler (e_bm E) c
      (statics w, message_handler_registry (storage w)) = (x, g, m)" by (metis prod_cases3)
  with release_message_handler_statics [OF this] show ?thesis
    by (simp add: release_handler_def on_handlers_def storage_release_message_handler_def
        engine_side_def)
qed

definition handlers_ok :: "('bm, 'v) env \<Rightarrow> ('bm \<Rightarrow> bool) \<Rightarrow> 'bm world \<Rightarrow> bool" where
  "handlers_ok E bm_ok w \<longleftrightarrow> storage_inv (e_bm E) bm_ok (self w) (statics w, storage w)"

definition listeners :: "('bm, 'v) env \<Rightarrow> 'bm world \<Rightarrow> nat \<rightharpoonup> listener_config" where
  "listeners E w = storage_view (e_bm E) (storage w)"

definition free_handlers :: "'bm world \<Rightarrow> nat set" where
  "free_handlers w = free_message_handler_ids (statics w)"

lemma caller_side_handlers:
  assumes "caller_side v = caller_side w"
  shows "handlers_ok E bm_ok v = handlers_ok E bm_ok w" "listeners E v = listeners E w"
    "free_handlers v = free_handlers w" "self v = self w"
    "message_handler_id_to_transport_storage (statics v) =
       message_handler_id_to_transport_storage (statics w)"
    "vsomeip_application_config (storage v) = vsomeip_application_config (storage w)"
    "storage_uri (storage v) = storage_uri (storage w)"
    "point_to_point_listener v = point_to_point_listener w" "config_path v = config_path w"
    "runtime_running v = runtime_running w"
  using assms
  by (auto simp: caller_side_def untouched_def handlers_ok_def listeners_def free_handlers_def
      storage_inv_def storage_view_def registry_inv_def statics_ok_def)

lemmas call_engine_handlers [simp] = caller_side_handlers [OF call_engine_caller_side]

lemma engine_side_more:
  assumes "engine_side v = engine_side w"
  shows "hist v = hist w" "self v = self w" "queue v = queue w" "engine_alive v = engine_alive w"
    "point_to_point_listener v = point_to_point_listener w" "config_path v = config_path w"
    "runtime_running v = runtime_running w" "awaits v = awaits w"
    "vsomeip_application_config (storage v) = vsomeip_application_config (storage w)"
    "storage_uri (storage v) = storage_uri (storage w)"
    "rpc_registry (storage v) = rpc_registry (storage w)"
    "offered_registry (storage v) = offered_registry (storage w)"
    "states_ok (statics v) = states_ok (statics w)" "calm v = calm w" "prompt E v = prompt E w"
  using assms by (simp_all add: engine_side_def states_ok_def calm_def prompt_def)

context bimap_spec
begin

lemmas storage_get_cases = storage_handlers.get_cases
lemmas storage_release_cases = storage_handlers.release_cases
lemmas storage_configs_set = storage_handlers.all_configs_set
lemmas storage_listener_view = storage_handlers.listener_view
lemmas storage_view_inj = storage_handlers.view_inj
lemmas storage_free_unused = storage_handlers.free_unused

end

lemma get_handler_cases [consumes 3, case_names exhausted duplicate fresh]:
  assumes spec: "bimap_spec (e_bm E) bm_ok" and ok: "handlers_ok E bm_ok w"
    and pick: "iterates_members (e_pick E)"
  obtains "free_handlers w = {}" "get_handler E c w = (Err (OtherError RESOURCE_EXHAUSTED), w)"
  | f where "free_handlers w \<noteq> {}" "c \<in> ran (listeners E w)"
      "get_handler E c w = (Err (ListenerConfigAlreadyExists f), w)"
  | i v where "i = e_pick E (free_handlers w)" "i \<in> free_handlers w"
      "c \<notin> ran (listeners E w)" "get_handler E c w = (Ok (Extern_fn_message_handler i), v)" "handlers_ok E bm_ok v"
      "listeners E v = (listeners E w)(i \<mapsto> c)" "free_handlers v = free_handlers w - {i}"
      "engine_side v = engine_side w"
proof -
  let ?s = "(statics w, storage w)"
  have inv: "storage_inv (e_bm E) bm_ok (self w) ?s" using ok by (simp add: handlers_ok_def)
  have unchanged: "w\<lparr>statics := statics w, storage := storage w\<rparr> = w" by (cases w) simp
  note side = get_handler_engine_side [of E c w]
  from inv pick show ?thesis
  proof (cases rule: bimap_spec.storage_get_cases [OF spec, of "self w" ?s "e_pick E" c,
        consumes 2, case_names exhausted duplicate fresh])
    case exhausted
    then have "get_handler E c w = (Err (OtherError RESOURCE_EXHAUSTED), w)"
      using unchanged by (simp add: get_handler_def on_handlers_def)
    with exhausted that(1) show ?thesis by (simp add: free_handlers_def)
  next
    case (duplicate f)
    with that(2) unchanged show ?thesis
      by (simp add: get_handler_def on_handlers_def free_handlers_def listeners_def)
  next
    case (fresh i t)
    let ?v = "w\<lparr>statics := fst t, storage := snd t\<rparr>"
    from fresh have "get_handler E c w = (Ok (Extern_fn_message_handler i), ?v)"
      by (simp add: get_handler_def on_handlers_def case_prod_unfold)
    with fresh that(3) [of i ?v] side show ?thesis
      by (simp add: handlers_ok_def listeners_def free_handlers_def)
  qed
qed

lemma release_handler_cases [consumes 2, case_names unknown known]:
  assumes spec: "bimap_spec (e_bm E) bm_ok" and ok: "handlers_ok E bm_ok w"
  obtains "c \<notin> ran (listeners E w)" "release_handler E c w = (Err NOT_FOUND, w)"
  | i v where "listeners E w i = Some c" "release_handler E c w = (Ok (), v)"
      "handlers_ok E bm_ok v" "listeners E v = (listeners E w)(i := None)"
      "free_handlers v = insert i (free_handlers w)" "engine_side v = engine_side w"
proof -
  let ?s = "(statics w, storage w)"
  have inv: "storage_inv (e_bm E) bm_ok (self w) ?s" using ok by (simp add: handlers_ok_def)
  have unchanged: "w\<lparr>statics := statics w, storage := storage w\<rparr> = w" by (cases w) simp
  note side = release_handler_engine_side [of E c w]
  from inv show ?thesis
  proof (cases rule: bimap_spec.storage_release_cases [OF spec, of "self w" ?s c,
        consumes 1, case_names unknown known])
    case unknown
    then have "release_handler E c w = (Err NOT_FOUND, w)"
      using unchanged by (simp add: release_handler_def on_handlers_def)
    with unknown that(1) show ?thesis by (simp add: listeners_def)
  next
    case (known i t)
    let ?v = "w\<lparr>statics := fst t, storage := snd t\<rparr>"
    from known have "release_handler E c w = (Ok (), ?v)"
      by (simp add: release_handler_def on_handlers_def case_prod_unfold)
    with known that(2) [of i ?v] side show ?thesis
      by (simp add: handlers_ok_def listeners_def free_handlers_def)
  qed
qed

subsection \<open>The invariant of a transport\<close>

text \<open>
  The handler registry is well formed, and no listener is filed under filters that would be
  taken for point-to-point ones: unregistering such an entry by its own filters would not
  find it.
\<close>

definition env_ok :: "('bm, 'v) env \<Rightarrow> ('bm \<Rightarrow> bool) \<Rightarrow> bool" where
  "env_ok E bm_ok \<longleftrightarrow> bimap_spec (e_bm E) bm_ok \<and> iterates_members (e_pick E) \<and>
     u_has_wildcard_authority (e_up E) (u_any (e_up E))"

definition not_point_to_point :: "('bm, 'v) env \<Rightarrow> listener_config \<Rightarrow> bool" where
  "not_point_to_point E c \<longleftrightarrow>
     determine_type (e_up E) (fst c) (fst (snd c)) \<noteq> Ok AllPointToPoint"

definition transport_ok :: "('bm, 'v) env \<Rightarrow> ('bm \<Rightarrow> bool) \<Rightarrow> 'bm world \<Rightarrow> bool" where
  "transport_ok E bm_ok w \<longleftrightarrow> handlers_ok E bm_ok w \<and>
     (\<forall>c. c \<in> ran (listeners E w) \<longrightarrow> not_point_to_point E c)"

lemma transport_ok_call_engine [simp]:
  "transport_ok E bm_ok (snd (call_engine E' cmd w)) = transport_ok E bm_ok w"
  by (simp add: transport_ok_def)

lemma transport_ok_call_engineD:
  "call_engine E' cmd w = (r, v) \<Longrightarrow> transport_ok E bm_ok w \<Longrightarrow> transport_ok E bm_ok v"
  by (metis snd_conv transport_ok_call_engine)

lemma ran_upd_subset: "c \<in> ran (m(i \<mapsto> d)) \<Longrightarrow> c = d \<or> c \<in> ran m"
  by (auto simp: ran_def split: if_splits)

lemma transport_ok_get_handler:
  assumes env: "env_ok E bm_ok" and ok: "transport_ok E bm_ok w" and c: "not_point_to_point E c"
    and get: "get_handler E c w = (r, v)"
  shows "transport_ok E bm_ok v" and "r \<noteq> Panic"
proof -
  have spec: "bimap_spec (e_bm E) bm_ok" and pick: "iterates_members (e_pick E)"
    and inv: "handlers_ok E bm_ok w"
    using env ok by (simp_all add: env_ok_def transport_ok_def)
  have "transport_ok E bm_ok v \<and> r \<noteq> Panic"
    using spec inv pick
  proof (cases rule: get_handler_cases [of E bm_ok w c])
    case (fresh i u)
    with get ok c show ?thesis
      by (auto simp: transport_ok_def dest: ran_upd_subset)
  qed (use get ok in auto)
  then show "transport_ok E bm_ok v" "r \<noteq> Panic" by simp_all
qed

lemma transport_ok_release_handler:
  assumes env: "env_ok E bm_ok" and ok: "transport_ok E bm_ok w"
    and release: "release_handler E c w = (r, v)"
  shows "transport_ok E bm_ok v" and "r \<noteq> Panic"
    and "ran (listeners E v) = ran (listeners E w) - {c}"
    and "free_handlers w \<subseteq> free_handlers v"
proof -
  have spec: "bimap_spec (e_bm E) bm_ok" and inv: "handlers_ok E bm_ok w"
    using env ok by (simp_all add: env_ok_def transport_ok_def)
  have inj: "inj_on (listeners E w) (dom (listeners E w))"
    using bimap_spec.storage_view_inj [OF spec, of "self w" "(statics w, storage w)"] inv
    by (simp add: handlers_ok_def listeners_def)
  have "transport_ok E bm_ok v \<and> r \<noteq> Panic \<and> ran (listeners E v) = ran (listeners E w) - {c} \<and>
    free_handlers w \<subseteq> free_handlers v"
    using spec inv
  proof (cases rule: release_handler_cases [of E bm_ok w c])
    case (known i u)
    with release ok ran_remove_inj [OF inj, of i c] show ?thesis
      by (auto simp: transport_ok_def)
  qed (use release ok in auto)
  then show "transport_ok E bm_ok v" "r \<noteq> Panic"
    "ran (listeners E v) = ran (listeners E w) - {c}" "free_handlers w \<subseteq> free_handlers v"
    by simp_all
qed

subsection \<open>What the methods are made of\<close>

text \<open>
  A method does five kinds of things to the handlers and the transport's own fields: calls of
  the engine, which leave them alone and keep the numbering of requests, taking a handler
  function for filters that are not point-to-point ones, giving one back, and setting the two
  fields.
\<close>

definition correlated :: "('bm, 'v) env \<Rightarrow> 'bm world \<Rightarrow> bool" where
  "correlated E w \<longleftrightarrow> e_overflow_checks E \<longrightarrow> requests_numbered w"

lemma correlated_same:
  "rpc_registry (storage v) = rpc_registry (storage w) \<Longrightarrow> correlated E v = correlated E w"
  unfolding correlated_def using requests_numbered_same by blast

lemma correlated_update [simp]:
  "correlated E (w\<lparr>queue := q\<rparr>) = correlated E w"
  "correlated E (w\<lparr>engine_alive := b\<rparr>) = correlated E w"
  "correlated E (w\<lparr>awaits := n\<rparr>) = correlated E w"
  "correlated E (w\<lparr>point_to_point_listener := x\<rparr>) = correlated E w"
  "correlated E (w\<lparr>runtime_running := b\<rparr>) = correlated E w"
  by (simp_all add: correlated_def requests_numbered_def table_defs)

lemma correlated_engine_execute:
  assumes "correlated E w" shows "correlated E (snd (engine_execute E cmd w))"
  using assms by (simp add: correlated_def engine_execute_def execute_numbered)

lemma correlated_engine_run: "correlated E w \<Longrightarrow> correlated E (snd (engine_run E n w))"
proof (induction n arbitrary: w)
  case (Suc n)
  show ?case
  proof (cases "queue w")
    case (Cons cmd cmds)
    obtain r v where exec: "engine_execute E cmd (w\<lparr>queue := cmds\<rparr>) = (r, v)" by fastforce
    have "correlated E v"
      using correlated_engine_execute [of E "w\<lparr>queue := cmds\<rparr>" cmd] Suc.prems exec by simp
    with Cons exec Suc.IH [of v] show ?thesis by (cases r) simp_all
  qed (use Suc.prems in simp)
qed simp

lemma correlated_call_engine:
  assumes "correlated E w" shows "correlated E (snd (call_engine E cmd w))"
proof -
  obtain r v where send: "send_to_engine_with_status E cmd w = (r, v)" by fastforce
  then have v: "correlated E v"
    using assms correlated_engine_run [OF assms, of 1]
    by (auto simp: send_to_engine_with_status_def Let_def simp del: engine_run.simps split: if_splits)
  then have "correlated E (snd (engine_run E (e_slots E (awaits v)) (v\<lparr>awaits := Suc (awaits v)\<rparr>)))"
    by (intro correlated_engine_run) simp
  then have "correlated E (snd (await_engine E v))"
    by (auto simp: await_engine_def split: prod.split option.split)
  with send v show ?thesis by (cases r) (simp_all add: call_engine_def)
qed

inductive moves :: "('bm, 'v) env \<Rightarrow> 'bm world \<Rightarrow> 'bm world \<Rightarrow> bool" for E w where
  stay: "moves E w w"
| engine: "moves E w v \<Longrightarrow> caller_side u = caller_side v \<Longrightarrow>
    (correlated E v \<Longrightarrow> correlated E u) \<Longrightarrow> moves E w u"
| take_handler: "moves E w v \<Longrightarrow> not_point_to_point E c \<Longrightarrow> get_handler E c v = (r, u) \<Longrightarrow> moves E w u"
| give_back: "moves E w v \<Longrightarrow> release_handler E c v = (r, u) \<Longrightarrow> moves E w u"
| set_listener: "moves E w v \<Longrightarrow> moves E w (v\<lparr>point_to_point_listener := x\<rparr>)"
| stop_runtime: "moves E w v \<Longrightarrow> moves E w (v\<lparr>runtime_running := b\<rparr>)"

declare moves.stay [simp, intro]

lemma moves_trans: "moves E w v \<Longrightarrow> moves E v u \<Longrightarrow> moves E w u"
  by (rotate_tac 1, induction rule: moves.induct) (blast intro: moves.intros)+

lemma moves_call_engine: "call_engine E cmd v = (r, u) \<Longrightarrow> moves E v u"
  using call_engine_caller_side [of E cmd v] correlated_call_engine [of E v cmd]
  by (intro moves.engine [OF moves.stay]) simp_all

lemma moves_get: "get_handler E c v = (r, u) \<Longrightarrow> not_point_to_point E c \<Longrightarrow> moves E v u"
  by (blast intro: moves.intros)

lemma moves_release: "release_handler E c v = (r, u) \<Longrightarrow> moves E v u"
  by (blast intro: moves.intros)

lemma service_filter_not_point_to_point:
  "env_ok E bm_ok \<Longrightarrow> not_point_to_point E (u_any (e_up E), snk, l)"
  by (simp add: env_ok_def not_point_to_point_def determine_type_wildcard_source)

lemma register_services_moves:
  assumes env: "env_ok E bm_ok" shows "moves E w (snd (register_services E l cs w))"
proof (induction cs arbitrary: w)
  case (Cons c cs)
  let ?snk = "any_uuri_fixed_authority_id (get_local_authority (storage w)) (service_ue_id c)"
  obtain r v where get: "get_handler E (u_any (e_up E), Some ?snk, l) w = (r, v)" by fastforce
  note v = moves_get [OF get service_filter_not_point_to_point [OF env]]
  show ?case
  proof (cases r)
    case (Ok h)
    obtain q u where call: "call_engine E (RegisterListener (u_any (e_up E)) (Some ?snk) Request h
        (application_of v)) v = (q, u)" by fastforce
    note u = moves_trans [OF v moves_call_engine [OF call]]
    from u moves_trans [OF u Cons.IH] get Ok call show ?thesis by (cases q) simp_all
  qed (use v get in simp_all)
qed simp

lemma unregister_services_moves: "moves E w (snd (unregister_services E l cs w))"
proof (induction cs arbitrary: w)
  case (Cons c cs)
  let ?snk = "any_uuri_fixed_authority_id (get_local_authority (storage w)) (service_ue_id c)"
  obtain t where t: "determine_type (e_up E) (u_any (e_up E)) (Some ?snk) = Ok t"
    using determine_type_total by blast
  obtain q u where call: "call_engine E (UnregisterListener (u_any (e_up E)) (Some ?snk) t
      (application_of w)) w = (q, u)" by fastforce
  obtain r v where release: "release_handler E (u_any (e_up E), Some ?snk, l) u = (r, v)"
    by fastforce
  note u = moves_call_engine [OF call]
  note v = moves_trans [OF u moves_release [OF release]]
  from u moves_trans [OF u Cons.IH] moves_trans [OF v Cons.IH] t call release
  show ?case by (cases q) simp_all
qed simp

lemma register_listener_moves:
  assumes env: "env_ok E bm_ok" shows "moves E w (snd (register_listener E src snk l w))"
proof -
  obtain t where t: "determine_type (e_up E) src snk = Ok t" using determine_type_total by blast
  show ?thesis
  proof (cases "t = AllPointToPoint")
    case True
    with t moves_trans [OF moves.set_listener [OF moves.stay] register_services_moves [OF env]]
    show ?thesis
      by (auto simp: register_listener_def register_point_to_point_listener_def
          split: option.split outcome.split)
  next
    case False
    obtain r v where get: "get_handler E (src, snk, l) w = (r, v)" by fastforce
    have "not_point_to_point E (src, snk, l)" using t False by (simp add: not_point_to_point_def)
    note v = moves_get [OF get this]
    show ?thesis
    proof (cases r)
      case (Ok h)
      obtain q u where "call_engine E (RegisterListener src snk t h (application_of v)) v = (q, u)"
        by fastforce
      with moves_trans [OF v moves_call_engine [OF this]] t False get Ok show ?thesis
        by (simp add: register_listener_def)
    qed (use v t False get in \<open>simp_all add: register_listener_def\<close>)
  qed
qed

lemma unregister_listener_moves: "moves E w (snd (unregister_listener E src snk l w))"
proof -
  obtain t where t: "determine_type (e_up E) src snk = Ok t" using determine_type_total by blast
  show ?thesis
  proof (cases "t = AllPointToPoint")
    case True
    with t unregister_services_moves [of E w] show ?thesis
      by (auto simp: unregister_listener_def unregister_point_to_point_listener_def
          split: option.split outcome.split)
  next
    case False
    obtain q u where call: "call_engine E (UnregisterListener src snk t (application_of w)) w = (q, u)"
      by fastforce
    obtain r v where release: "release_handler E (src, snk, l) u = (r, v)" by fastforce
    note u = moves_call_engine [OF call]
    from u moves_trans [OF u moves_release [OF release]] t False call release show ?thesis
      by (cases q; cases r) (simp_all add: unregister_listener_def)
  qed
qed

lemma returning_response_moves:
  assumes t: "determine_type (e_up E) src snk = Ok t"
  shows "moves E w (snd (register_for_returning_response E src snk t w))"
proof (cases "\<exists>l k. point_to_point_listener w = Some l \<and> t = Request \<and> snk = Some k")
  case True
  then obtain l k where lk: "point_to_point_listener w = Some l" "t = Request" "snk = Some k"
    by blast
  obtain r v where get: "get_handler E (k, Some src, l) w = (r, v)" by fastforce
  have "determine_type (e_up E) src (Some k) \<noteq> Ok AllPointToPoint" using t lk by simp
  from determine_type_not_point_to_point_swap [OF this]
  have "not_point_to_point E (k, Some src, l)" by (simp add: not_point_to_point_def)
  note v = moves_get [OF get this]
  show ?thesis
  proof (cases r)
    case (Ok h)
    obtain q u where call: "call_engine E (RegisterListener k (Some src) Response h
        (application_of v)) v = (q, u)" by fastforce
    with moves_trans [OF v moves_call_engine [OF call]] get Ok lk show ?thesis
      by (cases q) (simp_all add: register_for_returning_response_def Let_def)
  next
    case (Err e)
    with v get lk show ?thesis
      by (cases e) (simp_all add: register_for_returning_response_def Let_def)
  qed (use v get lk in \<open>simp add: register_for_returning_response_def Let_def\<close>)
next
  case False
  then show ?thesis
    by (auto simp: register_for_returning_response_def split: option.split)
qed

lemma send_moves: "moves E w (snd (send E umsg w))"
proof (cases "\<exists>a src. attributes umsg = Some a \<and> u_validate_attributes (e_up E) a \<and>
    msg_source a = Some src")
  case True
  then obtain a src where a: "attributes umsg = Some a" "u_validate_attributes (e_up E) a"
    "msg_source a = Some src" by blast
  obtain t where t: "determine_type (e_up E) src (msg_sink a) = Ok t"
    using determine_type_total by blast
  have "moves E w (snd (and_then (register_for_returning_response E src (msg_sink a) t w)
      (\<lambda>_ v. call_engine E (Send umsg t (application_of w)) v)))"
  proof (rule and_then_snd_invariant [where P = "moves E w"])
    show ret: "moves E w (snd (register_for_returning_response E src (msg_sink a) t w))"
      using returning_response_moves [OF t] .
    show "moves E w (snd (call_engine E (Send umsg t (application_of w)) v))"
      if "register_for_returning_response E src (msg_sink a) t w = (Ok x, v)" for x v
      using ret that moves_trans [OF _ moves_call_engine [OF prod.collapse [symmetric]]] by simp
  qed
  with a t show ?thesis by (simp add: send_def)
next
  case False
  then show ?thesis by (auto simp: send_def split: option.split)
qed

lemma unregister_all_moves: "moves E w (snd (unregister_all E cs w))"
proof (induction cs arbitrary: w)
  case (Cons c cs)
  obtain src snk l where c: "c = (src, snk, l)" by (cases c)
  obtain r v where "unregister_listener E src snk l w = (r, v)" by fastforce
  with unregister_listener_moves [of E w src snk l] have "moves E w v" by simp
  with moves_trans [OF this Cons.IH] c \<open>unregister_listener E src snk l w = (r, v)\<close>
  show ?case by (cases r) simp_all
qed simp

lemma drop_transport_moves: "moves E w (snd (drop_transport E w))"
proof -
  let ?cs = "storage_get_all_listener_configs (e_bm E) (storage w)"
  obtain r v where all: "unregister_all E ?cs w = (r, v)" by fastforce
  then have v: "moves E w v" using unregister_all_moves [of E w ?cs] by simp
  obtain q u where "shutdown_vsomeip_app E v = (q, u)" by fastforce
  then have call: "call_engine E (StopVsomeipApp (application_of v)) v = (q, u)"
    by (simp add: shutdown_vsomeip_app_def)
  note u = moves_trans [OF v moves_call_engine [OF call]]
  from v u moves.stop_runtime [OF u] all \<open>shutdown_vsomeip_app E v = (q, u)\<close> show ?thesis
    by (cases r; cases q) (simp_all add: drop_transport_def Let_def)
qed

subsection \<open>The methods keep the invariant\<close>

lemma transport_ok_fields [simp]:
  "transport_ok E bm_ok (w\<lparr>point_to_point_listener := x\<rparr>) = transport_ok E bm_ok w"
  "transport_ok E bm_ok (w\<lparr>runtime_running := b\<rparr>) = transport_ok E bm_ok w"
  by (simp_all add: transport_ok_def handlers_ok_def listeners_def)

lemma moves_transport_ok:
  assumes "moves E w v" and env: "env_ok E bm_ok" and "transport_ok E bm_ok w"
  shows "transport_ok E bm_ok v"
  using assms(1,3)
proof (induction rule: moves.induct)
  case (engine v u)
  then show ?case
    using caller_side_handlers(1,2) [OF engine.hyps(2), of E] by (simp add: transport_ok_def)
next
  case (take_handler v c r u)
  then show ?case using transport_ok_get_handler(1) [OF env] by blast
next
  case (give_back v c r u)
  then show ?case using transport_ok_release_handler(1) [OF env] by blast
qed simp_all

lemma register_listener_ok:
  "env_ok E bm_ok \<Longrightarrow> transport_ok E bm_ok w \<Longrightarrow>
     transport_ok E bm_ok (snd (register_listener E src snk l w))"
  using moves_transport_ok [OF register_listener_moves] by blast

lemmas unregister_listener_ok = moves_transport_ok [OF unregister_listener_moves]
lemmas send_ok = moves_transport_ok [OF send_moves]

subsection \<open>Forgetting listeners\<close>

lemma engine_run_no_panic: "engine_run E n w \<noteq> (Some Panic, v)"
proof (induction n arbitrary: w)
  case (Suc n)
  then show ?case
    by (simp split: list.split prod.split outcome.split if_splits)
qed simp

lemma call_engine_panics:
  assumes "call_engine E cmd w = (Panic, v)" shows "\<not> engine_alive v"
proof -
  obtain r u where send: "send_to_engine_with_status E cmd w = (r, u)" by fastforce
  then have "r \<noteq> Panic" "r = Err e \<Longrightarrow> \<not> engine_alive u" for e
    by (auto simp: send_to_engine_with_status_def Let_def simp del: engine_run.simps split: if_splits)
  moreover have "await_engine E u \<noteq> (Panic, v)"
    using engine_run_no_panic [of E _ _ v]
    by (auto simp: await_engine_def simp del: engine_run.simps split: prod.splits option.splits)
  ultimately show ?thesis
    using assms send by (cases r) (auto simp: call_engine_def)
qed

lemma call_engine_dead:
  assumes "\<not> engine_alive w" "queue w = []"
  shows "call_engine E cmd w = (Panic, w)"
  using assms by (simp add: call_engine_def send_to_engine_with_status_def channel_capacity_def)

text \<open>
  Unregistering a listener that is filed, for any engine: it panics, which means that the engine
  has stopped, or the listener is no longer filed.
\<close>

lemma unregister_listener_released:
  assumes env: "env_ok E bm_ok" and ok: "transport_ok E bm_ok w"
    and c: "not_point_to_point E (src, snk, l)"
  obtains v where "unregister_listener E src snk l w = (Panic, v)" "\<not> engine_alive v" "\<not> calm w"
  | v where "unregister_listener E src snk l w = (Ok (), v)" "calm w \<Longrightarrow> calm v"
    "transport_ok E bm_ok v" "ran (listeners E v) = ran (listeners E w) - {(src, snk, l)}"
    "free_handlers w \<subseteq> free_handlers v" "self v = self w"
    "runtime_running v = runtime_running w"
proof -
  obtain t where t: "determine_type (e_up E) src snk = Ok t" using determine_type_total by blast
  with c have p2p: "t \<noteq> AllPointToPoint" by (auto simp: not_point_to_point_def)
  let ?cmd = "UnregisterListener src snk t (application_of w)"
  obtain q u where call: "call_engine E ?cmd w = (q, u)" by fastforce
  obtain r v where release: "release_handler E (src, snk, l) u = (r, v)" by fastforce
  have u: "calm w \<Longrightarrow> calm u \<and> q \<noteq> Panic" "transport_ok E bm_ok u"
    using call_engine_calm [of w ?cmd E] call transport_ok_call_engineD [OF call ok] by simp_all
  have "caller_side u = caller_side w"
    using call_engine_caller_side [of E ?cmd w] call by simp
  note eq = caller_side_handlers(1) [OF this, of E bm_ok] caller_side_handlers(2) [OF this, of E]
    caller_side_handlers(3-) [OF this]
  note v = transport_ok_release_handler [OF env u(2) release]
  have side: "engine_side v = engine_side u"
    using release_handler_engine_side [of E "(src, snk, l)" u] release by simp
  show ?thesis
  proof (cases "q = Panic")
    case True
    then have "unregister_listener E src snk l w = (Panic, u)"
      using t p2p call by (simp add: unregister_listener_def)
    with True that(1) call_engine_panics [of E ?cmd w u] call u(1) show ?thesis by blast
  next
    case False
    then have "unregister_listener E src snk l w = (Ok (), v)"
      using t p2p call release v(2) by (cases q; cases r) (simp_all add: unregister_listener_def)
    with that(2) v u engine_side_more [OF side] eq show ?thesis by simp
  qed
qed

lemma unregister_all_released:
  assumes env: "env_ok E bm_ok"
  shows "transport_ok E bm_ok w \<Longrightarrow> \<forall>c. c \<in> set cs \<longrightarrow> not_point_to_point E c \<Longrightarrow>
    \<exists>r v. unregister_all E cs w = (r, v) \<and> (r = Panic \<and> \<not> engine_alive v \<and> \<not> calm w \<or>
      r = Ok () \<and> (calm w \<longrightarrow> calm v) \<and> transport_ok E bm_ok v \<and>
      ran (listeners E v) = ran (listeners E w) - set cs \<and> free_handlers w \<subseteq> free_handlers v \<and>
      self v = self w \<and> runtime_running v = runtime_running w)"
proof (induction cs arbitrary: w)
  case (Cons c cs)
  obtain src snk l where c: "c = (src, snk, l)" by (cases c)
  with Cons.prems have "not_point_to_point E (src, snk, l)" by simp
  from env Cons.prems(1) this show ?case
  proof (cases rule: unregister_listener_released)
    case (2 u)
    from Cons.IH [OF 2(3)] Cons.prems(2) obtain r v where all: "unregister_all E cs u = (r, v)"
      and v: "r = Panic \<and> \<not> engine_alive v \<and> \<not> calm u \<or>
        r = Ok () \<and> (calm u \<longrightarrow> calm v) \<and> transport_ok E bm_ok v \<and>
        ran (listeners E v) = ran (listeners E u) - set cs \<and> free_handlers u \<subseteq> free_handlers v \<and>
        self v = self u \<and> runtime_running v = runtime_running u" by auto
    have "unregister_all E (c # cs) w = (r, v)" using all 2(1) c by simp
    with v 2(2,4-) c show ?thesis by (intro exI [of _ r] exI [of _ v]) auto
  qed (use c in simp)
qed simp

lemma drop_transport_released:
  assumes env: "env_ok E bm_ok" and ok: "transport_ok E bm_ok w" and running: "runtime_running w"
  obtains v where "drop_transport E w = (Panic, v)" "\<not> engine_alive v" "\<not> calm w"
  | v where "drop_transport E w = (Ok (), v)" "listeners E v = Map.empty"
    "\<And>i. message_handler_id_to_transport_storage (statics v) i \<noteq> Some (self w)"
    "free_handlers w \<subseteq> free_handlers v" "\<not> runtime_running v"
proof -
  have spec: "bimap_spec (e_bm E) bm_ok" using env by (simp add: env_ok_def)
  let ?cs = "storage_get_all_listener_configs (e_bm E) (storage w)"
  have cs: "set ?cs = ran (listeners E w)"
    using bimap_spec.storage_configs_set [OF spec, of "self w" "(statics w, storage w)"] ok
    by (simp add: transport_ok_def handlers_ok_def listeners_def)
  with unregister_all_released [OF env ok, of ?cs] ok obtain r u where
    all: "unregister_all E ?cs w = (r, u)" and
    u: "r = Panic \<and> \<not> engine_alive u \<and> \<not> calm w \<or> r = Ok () \<and> (calm w \<longrightarrow> calm u) \<and> transport_ok E bm_ok u \<and>
      ran (listeners E u) = {} \<and> free_handlers w \<subseteq> free_handlers u \<and> self u = self w \<and>
      runtime_running u" using running by (auto simp: transport_ok_def)
  obtain q v where stop: "shutdown_vsomeip_app E u = (q, v)" by fastforce
  then have call: "call_engine E (StopVsomeipApp (application_of u)) u = (q, v)"
    by (simp add: shutdown_vsomeip_app_def)
  have "caller_side v = caller_side u"
    using call_engine_caller_side [of E "StopVsomeipApp (application_of u)" u] call by simp
  note eq = caller_side_handlers(1) [OF this, of E bm_ok] caller_side_handlers(2) [OF this, of E]
    caller_side_handlers(3-) [OF this]
  show ?thesis
  proof (cases "r = Panic \<or> q = Panic")
    case True
    show ?thesis
    proof (cases "r = Panic")
      case True
      with that(1) all u show ?thesis by (simp add: drop_transport_def Let_def)
    next
      case False
      with True u have u: "q = Panic" "r = Ok ()" "calm w \<Longrightarrow> calm u" by auto
      have "\<not> calm w" using u(1,3) call_engine_calm [of u _ E] call by (metis fst_conv harmless.simps(5))
      moreover have "drop_transport E w = (Panic, v)"
        using all stop u by (simp add: drop_transport_def Let_def)
      ultimately show ?thesis using that(1) call_engine_panics call u(1) by blast
    qed
  next
    case False
    then have r: "r = Ok ()" and u: "transport_ok E bm_ok u" "ran (listeners E u) = {}"
      "free_handlers w \<subseteq> free_handlers u" "self u = self w" "runtime_running u" using u by auto
    let ?v = "v\<lparr>runtime_running := False\<rparr>"
    have dropped: "drop_transport E w = (Ok (), ?v)"
      using all r u(5) stop False eq(10) by (cases q) (simp_all add: drop_transport_def Let_def)
    have empty: "listeners E v = Map.empty" using u(2) eq(2) by (simp add: ran_empty_iff)
    have "message_handler_id_to_transport_storage (statics v) i \<noteq> Some (self w)" for i
    proof -
      have "dom (listeners E v) = {i. message_handler_id_to_transport_storage (statics v) i = Some (self w)}"
        using transport_ok_call_engineD [OF call u(1)] eq(4) u(4)
        by (simp add: transport_ok_def handlers_ok_def storage_inv_def registry_inv_def
            listeners_def storage_view_def)
      then show ?thesis using empty by auto
    qed
    with that(2) [OF dropped] empty u(3) eq(3) show ?thesis
      by (simp add: listeners_def free_handlers_def)
  qed
qed

text \<open>With an engine that has stopped, and nothing left in its channel, dropping changes nothing.\<close>

lemma unregister_all_dead:
  assumes dead: "\<not> engine_alive w" "queue w = []" and cs: "\<forall>c \<in> set cs. not_point_to_point E c"
  shows "unregister_all E cs w = (if cs = [] then Ok () else Panic, w)"
proof (cases cs)
  case (Cons c ds)
  obtain src snk l where c: "c = (src, snk, l)" by (cases c)
  obtain t where t: "determine_type (e_up E) src snk = Ok t" using determine_type_total by blast
  with c cs Cons have "t \<noteq> AllPointToPoint" by (auto simp: not_point_to_point_def)
  then have "unregister_listener E src snk l w = (Panic, w)"
    using t by (simp add: unregister_listener_def call_engine_dead [OF dead])
  then show ?thesis using Cons c by simp
qed simp

lemma drop_transport_dead:
  assumes env: "env_ok E bm_ok" and ok: "transport_ok E bm_ok w"
    and dead: "\<not> engine_alive w" "queue w = []"
  shows "drop_transport E w = (Panic, w)"
proof -
  have spec: "bimap_spec (e_bm E) bm_ok" using env by (simp add: env_ok_def)
  let ?cs = "storage_get_all_listener_configs (e_bm E) (storage w)"
  have "set ?cs = ran (listeners E w)"
    using bimap_spec.storage_configs_set [OF spec, of "self w" "(statics w, storage w)"] ok
    by (simp add: transport_ok_def handlers_ok_def listeners_def)
  then have "\<forall>c \<in> set ?cs. not_point_to_point E c" using ok by (auto simp: transport_ok_def)
  from unregister_all_dead [OF dead this]
    call_engine_dead [OF dead, of E "StopVsomeipApp (application_of w)"] show ?thesis
    by (simp add: drop_transport_def shutdown_vsomeip_app_def Let_def)
qed

end
