(* ===== verification/Well_Formed_Calls.thy ===== *)
theory Well_Formed_Calls
  imports Engine_Calls
begin

text \<open>
  The form of the calls the engine makes: each command calls vsomeip for its own application
  only, and every call is one vsomeip can carry out.
\<close>

text \<open>The application a call is made on, and the application a command is for.\<close>

fun call_application :: "vs_call \<Rightarrow> ApplicationName" where
  "call_application (CreateApplication app _) = app"
| "call_application (Init app) = app"
| "call_application (RegisterStateHandler app _) = app"
| "call_application (UnregisterStateHandler app) = app"
| "call_application (StartApplication app) = app"
| "call_application (StopApplication app) = app"
| "call_application (OfferService app _ _ _ _) = app"
| "call_application (OfferEvent app _ _ _ _) = app"
| "call_application (RequestService app _ _ _ _) = app"
| "call_application (RequestEvent app _ _ _ _) = app"
| "call_application (Subscribe app _ _ _ _ _) = app"
| "call_application (RegisterMessageHandler app _ _ _ _) = app"
| "call_application (UnregisterMessageHandler app _ _ _) = app"
| "call_application (Notify app _ _ _ _ _) = app"
| "call_application (SendMessage app _) = app"

text \<open>
  Offers and notifications are for instance 1, an event is its own event group, a notification
  is forced and has data, and a message goes to instance 1 and carries a payload with data.
\<close>

fun well_formed_call :: "vs_call \<Rightarrow> bool" where
  "well_formed_call (OfferService _ _ i _ _) = (i = 1)"
| "well_formed_call (OfferEvent _ _ i e g) = (i = 1 \<and> g = e)"
| "well_formed_call (RequestEvent _ _ i e g) = (i = 1 \<and> g = e)"
| "well_formed_call (Subscribe _ _ i g _ e) = (i = 1 \<and> g = e)"
| "well_formed_call (Notify _ _ i _ data force) = (i = 1 \<and> data \<noteq> None \<and> force)"
| "well_formed_call (SendMessage _ m) =
     (v_instance m = 1 \<and> (case get_message_payload m of Some (Some data) \<Rightarrow> True | _ \<Rightarrow> False))"
| "well_formed_call _ = True"

fun command_application :: "command \<Rightarrow> ApplicationName" where
  "command_application (RegisterListener _ _ _ _ app) = app"
| "command_application (UnregisterListener _ _ _ app) = app"
| "command_application (Send _ _ app) = app"
| "command_application (StartVsomeipApp _ app) = app"
| "command_application (StopVsomeipApp app) = app"

text \<open>A step that adds calls of a kind only.\<close>

definition adds :: "(vs_call \<Rightarrow> bool) \<Rightarrow> ('bm, 'z) core_scheme \<Rightarrow> ('bm, 'z) core_scheme \<Rightarrow> bool" where
  "adds P w v \<longleftrightarrow> (\<exists>calls. hist v = hist w @ calls \<and> (\<forall>c \<in> set calls. P c))"

lemma adds_same [intro]: "hist v = hist w \<Longrightarrow> adds P w v"
  by (simp add: adds_def)

lemma adds_call: "P c \<Longrightarrow> adds P w v \<Longrightarrow> adds P w (call_vs c v)"
  by (auto simp: adds_def)

lemma adds_hist: "hist v = hist u \<Longrightarrow> adds P w v \<longleftrightarrow> adds P w u"
  by (simp add: adds_def)

abbreviation command_calls where
  "command_calls app w v \<equiv> adds (\<lambda>c. call_application c = app \<and> well_formed_call c) w v"

lemma adds_register: "command_calls app w (snd (register_listener_internal V src snk t h app w))"
  by (auto simp: register_listener_internal_def adds_def Let_def case_prod_unfold
      split: registration_type.split option.split)

lemma adds_unregister: "command_calls app w (snd (unregister_listener_internal V src snk t app w))"
  by (auto simp: unregister_listener_internal_def adds_def Let_def case_prod_unfold
      split: registration_type.split option.split)

lemma answers_instance:
  "umsg_response_to_vsomeip_message U V umsg w = (Ok m, v) \<Longrightarrow> v_instance m = 1"
  "umsg_request_to_vsomeip_message U V oc umsg app w = (Ok m, v) \<Longrightarrow> v_instance m = 1"
  by (auto simp: umsg_response_to_vsomeip_message_def umsg_request_to_vsomeip_message_def Let_def
      case_prod_unfold and_then_Ok_iff split: option.splits)

lemma adds_send: "command_calls app w (snd (send_internal U V oc umsg app w))"
proof -
  have publish: "command_calls app w (snd (umsg_publish_to_vsomeip_notification U V umsg app w))"
  proof (cases "msg_source (attributes_of U umsg)")
    case (Some src)
    from publish_step [OF this refl, of V app w] show ?thesis by (auto simp: adds_def)
  qed (auto simp: publish_no_source)
  have inst: "fst (snd k) = 1"
    if "umsg_publish_to_vsomeip_notification U V umsg app w = (Ok k, v)" for k v
    using that publish_step [OF _ refl, of U umsg _ V app w] publish_no_source [of U umsg V app w]
    by (cases "msg_source (attributes_of U umsg)") auto
  have published: "command_calls app w (call_vs (Notify app s i e (set_data_safe data) True) v)"
    if "umsg_publish_to_vsomeip_notification U V umsg app w = (Ok (s, i, e), v)" for s i e v data
    using publish inst [OF that] that by (intro adds_call) (simp_all add: set_data_safe_def)
  have sent: "command_calls app w (call_vs (SendMessage app (set_message_payload (set_data_safe data) m)) v)"
    if "hist v = hist w" "v_instance m = 1" for m v data
    using that
    by (intro adds_call adds_same)
      (simp_all add: set_message_payload_def get_message_payload_def set_data_safe_def Let_def)
  have quiet: "umsg_response_to_vsomeip_message U V umsg w = (x, v) \<Longrightarrow> hist v = hist w"
    "umsg_request_to_vsomeip_message U V oc umsg app w = (x, v) \<Longrightarrow> hist v = hist w" for x v
    using conversions_quiet(1,4) by (metis snd_conv)+
  show ?thesis
  proof (cases "enum_value_or (msg_type (attributes_of U umsg)) UMESSAGE_TYPE_UNSPECIFIED")
    case UMESSAGE_TYPE_PUBLISH
    then show ?thesis
      by (auto simp: send_internal_def Let_def publish published
          intro!: and_then_snd_invariant [where P = "command_calls app w"])
  next
    case UMESSAGE_TYPE_REQUEST
    have "command_calls app w (snd (and_then (umsg_request_to_vsomeip_message U V oc umsg app w)
        (\<lambda>m v. (Ok (), call_vs (SendMessage app (set_message_payload (set_data_safe data) m)) v))))" for data
      by (rule and_then_snd_invariant [where P = "command_calls app w"])
        (auto intro: sent [OF quiet(2) answers_instance(2)])
    with UMESSAGE_TYPE_REQUEST show ?thesis by (simp add: send_internal_def Let_def)
  next
    case UMESSAGE_TYPE_RESPONSE
    have "command_calls app w (snd (and_then (umsg_response_to_vsomeip_message U V umsg w)
        (\<lambda>m v. (Ok (), call_vs (SendMessage app (set_message_payload (set_data_safe data) m)) v))))" for data
      by (rule and_then_snd_invariant [where P = "command_calls app w"])
        (auto intro: sent [OF quiet(1) answers_instance(1)])
    with UMESSAGE_TYPE_RESPONSE show ?thesis by (simp add: send_internal_def Let_def)
  qed (auto simp: send_internal_def Let_def)
qed

lemma adds_create: "command_calls app w (snd (create_app V pick app config w))"
proof (cases "vs_application_exists V (hist w) app")
  case False
  show ?thesis
    unfolding create_app_def get_application_simps(2) [OF False] option.case
  proof (rule and_then_snd_invariant [where P = "command_calls app w"], goal_cases)
    case 1
    show ?case by (intro adds_same) (simp add: storage_find_state_handler_id_def)
  next
    case (2 i v)
    then have v: "hist v = hist w" by (metis storage_find_state_handler_id_def on_statics_simps(1) snd_conv)
    show ?case
      by (cases "storage_get_state_handler i v")
        (use v in \<open>auto simp: start_thread_eq storage_free_state_handler_id_def Let_def adds_def
           case_prod_unfold split: option.split\<close>)
  qed
qed (auto simp: create_app_def)

lemma adds_execute:
  "command_calls (command_application cmd) w (snd (execute U V pick oc config cmd w))"
proof (cases cmd)
  case (StartVsomeipApp c app)
  have "command_calls app w (snd (and_then (create_app V pick app config w) (\<lambda>_ w. (Ok (), w))))"
    by (rule and_then_snd_invariant [where P = "command_calls app w"])
      (use adds_create [of app w V pick config] in auto)
  with StartVsomeipApp show ?thesis by (simp add: execute_def start_vsomeip_app_internal_def)
qed (auto simp: execute_def get_application_def adds_register adds_unregister adds_send
      stop_vsomeip_app_internal_def intro: adds_call)

end
