(* ===== verification/Data_Properties.thy ===== *)
theory Data_Properties
  imports Storage
begin

text \<open>
  The properties of the data the transport keeps, and the storage the witnesses use.
\<close>

definition demo_uri :: "u32 \<Rightarrow> u32 \<Rightarrow> uuri" where
  "demo_uri e r = \<lparr>authority_name = ''a'', ue_id = e, ue_version_major = 1, resource_id = r\<rparr>"

definition demo_storage :: "'bm bimap_api \<Rightarrow> 'bm transport_storage" where
  "demo_storage B = transport_storage_new B \<lparr>app_name = ''app'', app_id = 1\<rparr>
     (demo_uri 0x10 0) ''remote''"

subsection \<open>Numbers and addresses\<close>

text \<open>Composing a SOME/IP request identifier from client and session and cutting it again are
  inverse to each other, in both directions, and the byte cut agrees with the 16-bit cut.\<close>

theorem request_ids_round_trip:
  "split_u32_to_u16 (create_request_id c s) = (c, s) \<and>
   case_prod create_request_id (split_u32_to_u16 v) = v \<and>
   inj (case_prod create_request_id) \<and>
   (\<exists>b1 b2 b3 b4. split_u32_to_u8 v = (b1, b2, b3, b4) \<and>
      split_u32_to_u16 v = (push_bit 8 (ucast b1) OR ucast b2, push_bit 8 (ucast b3) OR ucast b4))"
proof (intro conjI)
  show "split_u32_to_u16 (create_request_id c s) = (c, s)" for c s
    by (simp add: split_u32_to_u16_eq create_request_id_low create_request_id_high)
  then have "split_u32_to_u16 (case_prod create_request_id p) = p" for p
    by (cases p) simp
  then show "inj (case_prod create_request_id)" by (rule inj_on_inverseI)
  show "case_prod create_request_id (split_u32_to_u16 v) = v"
    by (simp add: split_u32_to_u16_eq create_request_id_parts)
  have m: "(0xFF :: u32) = mask 8" by (simp add: mask_eq_exp_minus_1)
  have "(ucast (drop_bit 16 v) :: u16) =
      push_bit 8 (ucast (ucast (drop_bit 24 v) :: u8)) OR ucast (ucast (drop_bit 16 v AND 0xFF) :: u8)"
    unfolding m by (rule bit_word_eqI) (auto simp: bit_simps)
  moreover have "(ucast v :: u16) =
      push_bit 8 (ucast (ucast (drop_bit 8 v AND 0xFF) :: u8)) OR ucast (ucast (v AND 0xFF) :: u8)"
    unfolding m by (rule bit_word_eqI) (auto simp: bit_simps)
  ultimately show "\<exists>b1 b2 b3 b4. split_u32_to_u8 v = (b1, b2, b3, b4) \<and>
      split_u32_to_u16 v = (push_bit 8 (ucast b1) OR ucast b2, push_bit 8 (ucast b3) OR ucast b4)"
    by (simp add: split_u32_to_u8_def split_u32_to_u16_eq Let_def)
qed

subsection \<open>The configuration file\<close>

text \<open>What a hexadecimal number means: an optional plus sign and at least one digit, with a value
  that fits 16 bits.\<close>

definition hex_number :: "string \<Rightarrow> u16 option" where
  "hex_number s = (let digits = (if s \<noteq> [] \<and> hd s = CHR ''+'' then tl s else s) in
     if digits \<noteq> [] \<and> list_all (\<lambda>c. to_digit_16 c \<noteq> None) digits \<and> hex_value 0 digits \<le> 0xFFFF
     then Some (of_nat (hex_value 0 digits)) else None)"

text \<open>The digit loop with its overflow checks at every step reads exactly the hexadecimal
  numbers that fit 16 bits, with their positional value.\<close>

theorem u16_from_str_radix_16_is_hex_number:
  "u16_from_str_radix_16 s = hex_number s"
proof -
  have minus: "to_digit_16 CHR ''-'' = None"
    by (simp add: to_digit_16_def)
  have "checked_digits_16 0 d = (if list_all (\<lambda>c. to_digit_16 c \<noteq> None) d \<and> hex_value 0 d \<le> 0xFFFF
      then Some (hex_value 0 d) else None)" for d
    by (simp add: checked_digits_16_eq list_all_iff del: checked_digits_16.simps)
  then show ?thesis
    by (cases s) (auto simp: u16_from_str_radix_16_def hex_number_def Let_def minus
        simp del: checked_digits_16.simps)
qed

text \<open>A JSON value, and a configuration file, for the witnesses.\<close>

datatype demo_json = JString string | JArray "demo_json list" | JObject "(string \<times> demo_json) list"

definition demo_file :: demo_json where
  "demo_file = JObject
     [(''applications'', JArray [JObject [(''name'', JString ''app''), (''id'', JString ''0x1'')]]),
      (''services'', JArray [JObject [(''service'', JString ''0x10''), (''instance'', JString ''0x1'')]])]"

definition demo_json_api :: "demo_json json_api" where
  "demo_json_api = \<lparr>j_exists = \<lambda>p. p = ''cfg'', j_read_to_string = \<lambda>p. Some p,
     j_from_str = \<lambda>s. if s = ''cfg'' then Some demo_file else None,
     j_get = \<lambda>v k. case v of JObject fs \<Rightarrow> map_of fs k | _ \<Rightarrow> None,
     j_as_array = \<lambda>v. case v of JArray vs \<Rightarrow> Some vs | _ \<Rightarrow> None,
     j_string = \<lambda>v. case v of JString s \<Rightarrow> Some s | _ \<Rightarrow> None\<rparr>"

text \<open>The text of a number in a configuration file: four hexadecimal digits after any number of
  \<^verbatim>\<open>0x\<close> prefixes.\<close>

definition hex_text :: "nat \<Rightarrow> u16 \<Rightarrow> string" where
  "hex_text k n = concat (replicate k ''0x'') @ to_hex_u16 n"

lemma trim_hex_text: "trim_start_matches_0x (hex_text k n) = to_hex_u16 n"
  by (induction k) (simp_all add: hex_text_def trim_to_hex)

lemma deserialize_hex_text:
  "j_string J v = Some (hex_text k n) \<Longrightarrow> deserialize_hex_u16 J v = Some n"
  by (simp add: deserialize_hex_u16_def trim_hex_text from_str_radix_to_hex)

text \<open>The value is an object with the two numbers of a service.\<close>

definition writes_service :: "'v json_api \<Rightarrow> ServiceConfig \<Rightarrow> 'v \<Rightarrow> bool" where
  "writes_service J c v \<longleftrightarrow> (\<exists>s i k l.
     j_get J v ''service'' = Some s \<and> j_string J s = Some (hex_text k (sc_service c)) \<and>
     j_get J v ''instance'' = Some i \<and> j_string J i = Some (hex_text l (sc_instance c)))"

lemma service_from_value_writes: "writes_service J c v \<Longrightarrow> service_from_value J v = Some c"
proof -
  assume "writes_service J c v"
  then obtain s i where "j_get J v ''service'' = Some s" "deserialize_hex_u16 J s = Some (sc_service c)"
    "j_get J v ''instance'' = Some i" "deserialize_hex_u16 J i = Some (sc_instance c)"
    unfolding writes_service_def by (blast dest: deserialize_hex_text)
  then show ?thesis by (simp add: service_from_value_def)
qed

lemma services_from_values:
  "list_all2 (writes_service J) cs vs \<Longrightarrow> those (map (service_from_value J) vs) = Some cs"
  by (induction rule: list_all2_induct) (simp_all add: service_from_value_writes)

text \<open>C35. A configuration file is read back as it was written: its services, in order, whatever
  mixture of prefixes the numbers carry, and its first application.\<close>

theorem configuration_round_trip:
  assumes json: "j_read_to_string J path = Some content" "j_from_str J content = Some root"
    and services: "j_get J root ''services'' = Some sv" "j_as_array J sv = Some vs" "vs \<noteq> []"
      "list_all2 (writes_service J) cs vs"
    and application: "j_get J root ''applications'' = Some av" "j_as_array J av = Some (a # as)"
      "j_get J a ''name'' = Some nv" "j_string J nv = Some nm"
      "j_get J a ''id'' = Some iv" "j_string J iv = Some (hex_text k i)"
  shows "extract_services J path = Ok cs \<and>
    extract_application J path = Ok \<lparr>app_name = nm, app_id = i\<rparr>"
proof
  show "extract_services J path = Ok cs"
    using services_from_values [OF services(4)] json services(1-3)
    by (cases vs) (simp_all add: extract_services_def read_json_file_def)
  show "extract_application J path = Ok \<lparr>app_name = nm, app_id = i\<rparr>"
    using json application deserialize_hex_text [OF application(6)]
    by (simp add: extract_application_def application_from_value_def read_json_file_def)
qed

definition written_file :: demo_json where
  "written_file = JObject
     [(''applications'', JArray [JObject [(''name'', JString ''app''), (''id'', JString (hex_text 1 0x0345))]]),
      (''services'', JArray [JObject [(''service'', JString (hex_text 0 0xABCD)), (''instance'', JString (hex_text 2 1))]])]"

theorem configuration_round_trip_witness:
  "extract_services (demo_json_api\<lparr>j_from_str := \<lambda>_. Some written_file\<rparr>) ''cfg'' =
     Ok [\<lparr>sc_service = 0xABCD, sc_instance = 1\<rparr>] \<and>
   extract_application (demo_json_api\<lparr>j_from_str := \<lambda>_. Some written_file\<rparr>) ''cfg'' =
     Ok \<lparr>app_name = ''app'', app_id = 0x0345\<rparr>"
  by (rule configuration_round_trip [where content = "''cfg''" and root = written_file and
        sv = "JArray [JObject [(''service'', JString (hex_text 0 0xABCD)), (''instance'', JString (hex_text 2 1))]]" and
        vs = "[JObject [(''service'', JString (hex_text 0 0xABCD)), (''instance'', JString (hex_text 2 1))]]" and
        av = "JArray [JObject [(''name'', JString ''app''), (''id'', JString (hex_text 1 0x0345))]]" and
        a = "JObject [(''name'', JString ''app''), (''id'', JString (hex_text 1 0x0345))]" and as = "[]" and
        nv = "JString ''app''" and iv = "JString (hex_text 1 0x0345)" and k = 1])
    (simp_all add: demo_json_api_def written_file_def writes_service_def, blast)

text \<open>Reading a configuration file never panics, and whatever is wrong with the file (it is
  missing, it is no JSON, the array is absent or empty, a field is absent or no hexadecimal
  number that fits) is reported as INVALID\_ARGUMENT.\<close>

theorem configuration_errors:
  "(\<exists>cs. extract_services J path = Ok cs \<and> cs \<noteq> []) \<or> extract_services J path = Err INVALID_ARGUMENT"
  "(\<exists>a. extract_application J path = Ok a) \<or> extract_application J path = Err INVALID_ARGUMENT"
  by (auto simp: extract_services_def extract_application_def split: option.splits list.splits)

subsection \<open>Session identifiers\<close>

text \<open>C33. The requests of a client that has made none are numbered 1, 2, 3 and so on; the 65534 of
  the first cycle are all different, and the next one panics in a build with overflow checks.\<close>

theorem session_ids_count_up:
  assumes "client_id_session_id_tracking (rpc_registry st) c = None" "n \<le> 65534"
  shows "fst (repeat_call (storage_retrieve_session_id oc c) n st) =
      map (\<lambda>j. Ok (of_nat (Suc j))) [0..<n] \<and>
    distinct (fst (repeat_call (storage_retrieve_session_id oc c) n st)) \<and>
    (n = 65534 \<longrightarrow> fst (storage_retrieve_session_id True c
       (snd (repeat_call (storage_retrieve_session_id oc c) n st))) = Panic)"
proof -
  have "unat (of_nat (Suc j) :: SessionId) = Suc j" if "j < n" for j
    using that assms(2) by (simp add: unsigned_of_nat take_bit_nat_eq_self del: of_nat_Suc)
  then have "inj_on (\<lambda>j. of_nat (Suc j) :: SessionId) {0..<n}"
    by (intro inj_onI) (metis atLeastLessThan_iff Suc_inject)
  moreover have "fst (storage_retrieve_session_id True c
      (snd (repeat_call (storage_retrieve_session_id oc c) n st))) = Panic" if "n = 65534"
    using storage_rpc.first_sessions(2) [OF assms, of oc] that
    by (subst storage_rpc.next_session_panic) simp_all
  ultimately show ?thesis
    using storage_rpc.first_sessions(1) [OF assms, of oc]
    by (auto simp: distinct_map inj_on_def simp del: of_nat_Suc)
qed

theorem session_ids_count_up_witness:
  "fst (repeat_call (storage_retrieve_session_id True 5) 65534 (demo_storage pair_bimap)) =
     map (\<lambda>j. Ok (of_nat (Suc j))) [0..<65534]"
  using session_ids_count_up [of "demo_storage pair_bimap" 5 65534 True]
  by (simp add: demo_storage_def transport_storage_new_def rpc_correlation_new_def
      del: of_nat_Suc upt_Suc)

subsection \<open>The pools of handler functions\<close>

text \<open>The pool of state handler functions hands out all 1000 numbers, each once, before it is
  exhausted; an exhausted pool says so, and giving a number back makes it available again.\<close>

theorem state_handler_pool:
  assumes "iterates_members pick" "free_state_handler_ids g = {..<num_state_handlers}"
  shows "\<exists>is. fst (repeat_call (find_available_state_handler_id pick) 1000 g) = map Ok is \<and>
    distinct is \<and> set is = {..<1000} \<and>
    (let g' = snd (repeat_call (find_available_state_handler_id pick) 1000 g)
     in find_available_state_handler_id pick g' = (Err RESOURCE_EXHAUSTED, g') \<and>
        (\<forall>i. fst (find_available_state_handler_id pick (snd (free_state_handler_id i g'))) = Ok i))"
proof -
  have card: "finite (free_state_handler_ids g)" "1000 \<le> card (free_state_handler_ids g)"
    by (simp_all add: assms(2) num_state_handlers_def)
  obtain "is" where "is": "fst (repeat_call (find_available_state_handler_id pick) 1000 g) = map Ok is"
    "length is = 1000" "distinct is" "set is \<subseteq> {..<1000}"
    "free_state_handler_ids (snd (repeat_call (find_available_state_handler_id pick) 1000 g)) =
       {..<1000} - set is"
    using state_pool.find_many [OF assms(1) card] by (auto simp: assms(2) num_state_handlers_def)
  have "card (set is) = 1000" using "is"(2,3) by (simp add: distinct_card)
  then have all: "set is = {..<1000}"
    using "is"(4) by (intro card_subset_eq) auto
  have one: "pick {i} = i" for i
    using assms(1) [unfolded iterates_members_def, rule_format, of "{i}"] by simp
  show ?thesis
    using "is" all one
    by (auto simp: Let_def state_pool.find_empty find_available_state_handler_id_def
        free_state_handler_id_def simp del: repeat_call.simps)
qed

theorem state_handler_pool_witness:
  "\<exists>is. fst (repeat_call (find_available_state_handler_id Min) 1000 (new_trait_obj statics_init)) =
     map Ok is \<and> set is = {..<1000}"
  using state_handler_pool [OF iterates_members_Min, of "new_trait_obj statics_init"]
  by (auto simp: new_trait_obj_def statics_init_def initialize_sender_receiver_def
      simp del: repeat_call.simps)

subsection \<open>The message handler registry implements a map\<close>

text \<open>
  What the registry promises its callers, over the listener filed under every function and
  the functions that are free: without a free function nothing is handed out; a filter that
  is filed already is refused; any other is filed under a free function.  Releasing a filter
  forgets it and frees its function.
\<close>

type_synonym handler_map = "(nat \<rightharpoonup> listener_config) \<times> nat set"

definition acquire ::
  "(nat set \<Rightarrow> nat) \<Rightarrow> listener_config \<Rightarrow> handler_map \<Rightarrow>
     (get_message_handler_error, message_handler_fn_ptr) outcome \<times> handler_map" where
  "acquire pick c a = (let (m, free) = a; i = pick free in
     if free = {} then (Err (OtherError RESOURCE_EXHAUSTED), a)
     else if c \<in> ran m then (Err (ListenerConfigAlreadyExists (Extern_fn_message_handler i)), a)
     else (Ok (Extern_fn_message_handler i), m(i \<mapsto> c), free - {i}))"

definition forget :: "listener_config \<Rightarrow> handler_map \<Rightarrow> unit result \<times> handler_map" where
  "forget c a = (let (m, free) = a in
     if c \<in> ran m then (Ok (), m |` {i. m i \<noteq> Some c}, free \<union> {i. m i = Some c})
     else (Err NOT_FOUND, a))"

datatype handler_call = Get listener_config | Release listener_config

datatype handler_answer =
    Got "(get_message_handler_error, message_handler_fn_ptr) outcome" | Released "unit result"

fun map_call :: "(nat set \<Rightarrow> nat) \<Rightarrow> handler_call \<Rightarrow> handler_map \<Rightarrow> handler_answer \<times> handler_map" where
  "map_call pick (Get c) a = map_prod Got id (acquire pick c a)"
| "map_call pick (Release c) a = map_prod Released id (forget c a)"

fun registry_call ::
  "'bm bimap_api \<Rightarrow> (nat set \<Rightarrow> nat) \<Rightarrow> storage_ref \<Rightarrow> handler_call \<Rightarrow>
     statics \<times> 'bm transport_storage \<Rightarrow> handler_answer \<times> statics \<times> 'bm transport_storage" where
  "registry_call B pick me (Get c) s = map_prod Got id (storage_get_message_handler B pick me c s)"
| "registry_call B pick me (Release c) s = map_prod Released id (storage_release_message_handler B c s)"

fun run_calls :: "('c \<Rightarrow> 's \<Rightarrow> 'a \<times> 's) \<Rightarrow> 'c list \<Rightarrow> 's \<Rightarrow> 'a list \<times> 's" where
  "run_calls f [] s = ([], s)"
| "run_calls f (c # cs) s =
     (let (x, s) = f c s; (xs, s) = run_calls f cs s in (x # xs, s))"

definition handler_abs :: "'bm bimap_api \<Rightarrow> statics \<times> 'bm transport_storage \<Rightarrow> handler_map" where
  "handler_abs B s = (storage_view B (snd s), free_message_handler_ids (fst s))"

context bimap_spec begin

lemma registry_call_refines:
  assumes inv: "storage_inv B bm_ok me s" and pick: "iterates_members pick"
  shows "map_call pick c (handler_abs B s) = map_prod id (handler_abs B) (registry_call B pick me c s) \<and>
    storage_inv B bm_ok me (snd (registry_call B pick me c s))"
proof (cases c)
  case (Get k)
  show ?thesis
  proof (cases "free_message_handler_ids (fst s) = {} \<or> k \<in> ran (storage_view B (snd s))")
    case True
    then show ?thesis
      using storage_handlers.exhausted [OF inv, of pick k]
        storage_handlers.duplicate [OF inv pick, of k] inv Get
      by (auto simp: acquire_def handler_abs_def Let_def)
  next
    case False
    then have free: "free_message_handler_ids (fst s) \<noteq> {}" "k \<notin> ran (storage_view B (snd s))"
      by auto
    from storage_handlers.fresh [OF inv pick this] obtain t where
      "storage_get_message_handler B pick me k s =
         (Ok (Extern_fn_message_handler (pick (free_message_handler_ids (fst s)))), t)"
      "storage_inv B bm_ok me t"
      "storage_view B (snd t) = (storage_view B (snd s))(pick (free_message_handler_ids (fst s)) \<mapsto> k)"
      "free_message_handler_ids (fst t) =
         free_message_handler_ids (fst s) - {pick (free_message_handler_ids (fst s))}" by blast
    with free Get show ?thesis
      by (simp add: acquire_def handler_abs_def Let_def)
  qed
next
  case (Release k)
  from inv show ?thesis
  proof (cases rule: storage_handlers.release_cases [of me s k])
    case unknown
    then show ?thesis using inv Release by (auto simp: forget_def handler_abs_def)
  next
    case (known i t)
    have "{j. storage_view B (snd s) j = Some k} = {i}"
      using known(1) inj_onD [OF storage_handlers.view_inj [OF inv], of i] by (force simp: domI)
    moreover from this have "storage_view B (snd s) |` {j. storage_view B (snd s) j \<noteq> Some k} =
        (storage_view B (snd s))(i := None)"
      by (auto simp: restrict_map_def fun_eq_iff)
    ultimately show ?thesis
      using known Release by (auto simp: forget_def handler_abs_def ranI)
  qed
qed

lemma registry_run_refines:
  assumes "storage_inv B bm_ok me s" "iterates_members pick"
  shows "run_calls (map_call pick) cs (handler_abs B s) =
      map_prod id (handler_abs B) (run_calls (registry_call B pick me) cs s) \<and>
    storage_inv B bm_ok me (snd (run_calls (registry_call B pick me) cs s))"
  using assms(1)
proof (induction cs arbitrary: s)
  case (Cons c cs)
  with registry_call_refines [OF Cons.prems assms(2), of c] show ?case
    by (auto simp: case_prod_unfold Let_def)
qed simp

end

text \<open>C6. The registry of message handlers, with its two-way map, its process-wide pool and table
  and its rollback of half-made entries, implements the map above: any sequence of calls gives
  the same answers, errors included, and ends in the state the map reaches.\<close>

theorem message_handler_registry_refines_map:
  assumes "bimap_spec B bm_ok" "storage_inv B bm_ok me s" "iterates_members pick"
  shows "run_calls (map_call pick) cs (handler_abs B s) =
      map_prod id (handler_abs B) (run_calls (registry_call B pick me) cs s) \<and>
    storage_inv B bm_ok me (snd (run_calls (registry_call B pick me) cs s))"
  using bimap_spec.registry_run_refines [OF assms] .

definition demo_calls :: "handler_call list" where
  "demo_calls = (let c = (demo_uri 1 2, None, Listener 3) in [Get c, Get c, Release c, Release c])"

theorem message_handler_registry_refines_map_witness:
  "run_calls (map_call Min) demo_calls (handler_abs pair_bimap (statics_init, demo_storage pair_bimap)) =
     map_prod id (handler_abs pair_bimap)
       (run_calls (registry_call pair_bimap Min 0) demo_calls (statics_init, demo_storage pair_bimap))"
  using message_handler_registry_refines_map [OF pairs.bimap_spec_axioms _ iterates_members_Min,
      of 0 "(statics_init, demo_storage pair_bimap)" demo_calls]
  by (simp add: storage_inv_def registry_inv_def demo_storage_def transport_storage_new_def
      statics_ok_init pairs.new_ok dom_def) (simp add: statics_init_def)

end
