(* ===== verification/Conversion_Properties.thy ===== *)
theory Conversion_Properties
  imports Message_Conversions Data_Properties
begin

text \<open>
  The properties of the conversions, and the small states and messages the witnesses of this
  and the later theories run on: the instances \<open>ref_up_rust\<close> and \<open>ref_vsomeip\<close>, with one
  application called \<open>app\<close>.
\<close>

subsection \<open>States and messages for the witnesses\<close>

definition demo_message :: "umessage_type \<Rightarrow> uuri \<Rightarrow> uuri option \<Rightarrow> uuid option \<Rightarrow> umessage" where
  "demo_message t src snk req = \<lparr>attributes = Some
     \<lparr>msg_type = Some t, msg_id = Some (UUID 7), msg_source = Some src, msg_sink = snk,
      msg_ttl = Some 1000, msg_reqid = req, msg_commstatus = None\<rparr>, payload = Some [1, 2]\<rparr>"

definition demo_core :: "vs_call list \<Rightarrow> pairs core" where
  "demo_core h = \<lparr>statics = new_trait_obj statics_init, hist = h, self = 0,
     storage = demo_storage pair_bimap\<rparr>"

definition demo_app :: "vs_call list" where
  "demo_app = [CreateApplication ''app'' None]"

lemma demo_attributes [simp]:
  "attributes_of U (demo_message t src snk req) =
     \<lparr>msg_type = Some t, msg_id = Some (UUID 7), msg_source = Some src, msg_sink = snk,
      msg_ttl = Some 1000, msg_reqid = req, msg_commstatus = None\<rparr>"
  "payload (demo_message t src snk req) = Some [1, 2]"
  by (simp_all add: demo_message_def attributes_of_def)

lemma demo_fields [simp]:
  "hist (demo_core h) = h" "statics (demo_core h) = new_trait_obj statics_init"
  "storage (demo_core h) = demo_storage pair_bimap"
  "offered_registry (demo_storage B) = offered_requested_new"
  "rpc_registry (demo_storage B) = rpc_correlation_new"
  "ue_table (demo_core h) = Map.empty" "me_table (demo_core h) = Map.empty"
  "session_table (demo_core h) = Map.empty"
  by (simp_all add: demo_core_def demo_storage_def transport_storage_new_def table_defs
      rpc_correlation_new_def)

lemma demo_exists [simp]: "vs_application_exists ref_vsomeip demo_app ''app''"
  by (simp add: demo_app_def)

definition demo_incoming :: vmessage where
  "demo_incoming = (blank_message MT_REQUEST)\<lparr>v_service := 0x10, v_method := 0x20,
     v_client := 0x99, v_session := 5, v_payload := Some (Some [3])\<rparr>"

definition demo_request :: umessage where
  "demo_request = demo_message UMESSAGE_TYPE_REQUEST (demo_uri 0x11 0) (Some (demo_uri 0x22 0x33)) None"

subsection \<open>Status codes\<close>

text \<open>The status a response's code has become when it arrives at the other side.\<close>

definition transported_status :: "ucode \<Rightarrow> ucode" where
  "transported_status c = vsomeip_err_code_to_ucode (ucode_to_vsomeip_err_code c)"

text \<open>Of the seventeen status codes eight survive the way through SOME/IP; UNAVAILABLE arrives
  as NOT\_FOUND and the other eight as UNKNOWN.  Of the return codes the ones listed come
  back from the round in the other direction.\<close>

theorem status_codes_transported:
  "transported_status c =
     (if c \<in> {OK, INVALID_ARGUMENT, DEADLINE_EXCEEDED, NOT_FOUND, DATA_LOSS, INTERNAL, UNKNOWN,
              FAILED_PRECONDITION} then c
      else if c = UNAVAILABLE then NOT_FOUND else UNKNOWN) \<and>
   (ucode_to_vsomeip_err_code (vsomeip_err_code_to_ucode e) = e \<longleftrightarrow>
      e \<in> {E_OK, E_WRONG_MESSAGE_TYPE, E_TIMEOUT, E_UNKNOWN_SERVICE, E_MALFORMED_MESSAGE,
           E_NOT_REACHABLE, E_NOT_OK, E_WRONG_PROTOCOL_VERSION})"
  by (cases c; cases e) (simp_all add: transported_status_def)

text \<open>Over the enumeration of the codes: the eight that survive, and that the way through SOME/IP
  changes no status a second time.\<close>

lemma statuses_kept:
  "filter (\<lambda>c. transported_status c = c) enum_class.enum =
     [OK, UNKNOWN, INVALID_ARGUMENT, DEADLINE_EXCEEDED, NOT_FOUND, FAILED_PRECONDITION, INTERNAL, DATA_LOSS]"
  by (simp add: enum_ucode_def transported_status_def)

lemma transported_twice: "transported_status (transported_status c) = transported_status c"
proof -
  have "\<forall>c. transported_status (transported_status c) = transported_status c" by code_simp
  then show ?thesis by blast
qed

subsection \<open>Incoming requests\<close>

lemma incoming_request_accepted:
  assumes r: "v_message_type r = MT_REQUEST" "get_message_payload r = Some p"
    and sink: "u_try_from_parts U auth (ucast (v_service r)) (v_interface_version r) (v_method r) = Some snk"
    and ver: "u8_try_from (ue_version_major me) = Some ver"
    and src: "u_try_from_parts U remote (ue_id me) ver 0 = Some src"
    and build: "u_build_request U n snk src 1000 (get_data_safe p) = Some umsg"
    and i: "msg_id (attributes_of U umsg) = Some i" "me_table w i = None"
  shows "\<exists>w'. convert_vsomeip_msg_to_umsg U V n auth me remote r w = (Ok umsg, w') \<and>
    me_table w' = (me_table w)(i \<mapsto> vs_get_request V r) \<and> ue_table w' = ue_table w \<and>
    w' = w\<lparr>storage := storage w'\<rparr>"
  using insert_me_step [OF i(2), of "vs_get_request V r"] assms
  by (auto simp: convert_vsomeip_msg_to_umsg_def convert_vsomeip_mt_request_to_umsg_def Let_def)

lemma insert_me_no_panic:
  "fst (on_storage (storage_insert_me_request_correlation i k) w) \<noteq> Panic"
  by (simp add: storage_rpc_defs insert_me_request_correlation_def case_prod_unfold
      split: option.splits)

lemma answer_no_panic:
  assumes "v_message_type r \<in> {MT_RESPONSE, MT_ERROR}" "get_message_payload r = Some p"
  shows "fst (convert_vsomeip_msg_to_umsg U V n auth me remote r w) \<noteq> Panic"
proof -
  have "fst (on_storage (storage_remove_ue_request_correlation k) w) \<noteq> Panic" for k
    by (simp add: storage_rpc_defs remove_ue_request_correlation_def case_prod_unfold
        split: option.splits)
  then show ?thesis
    unfolding answer_unfold [OF assms] by (simp add: and_then_panic_iff split: option.split prod.split
        del: on_storage_simps)
qed

lemma incoming_request_panics_iff:
  assumes "v_message_type r = MT_REQUEST" "get_message_payload r = Some p"
  shows "fst (convert_vsomeip_msg_to_umsg U V n auth me remote r w) = Panic \<longleftrightarrow>
     u_try_from_parts U auth (ucast (v_service r)) (v_interface_version r) (v_method r) \<noteq> None \<and>
     256 \<le> ue_version_major me"
proof -
  have "u8_try_from (ue_version_major me) = None \<longleftrightarrow> 256 \<le> ue_version_major me"
    by (auto simp: u8_try_from_def)
  then show ?thesis
    using assms
    by (auto simp: convert_vsomeip_msg_to_umsg_def convert_vsomeip_mt_request_to_umsg_def Let_def
        and_then_panic_iff insert_me_no_panic simp del: on_storage_simps
        split: option.splits)
qed

text \<open>Converting a message from SOME/IP panics in one situation only: the message is a request
  with a payload, the address it was sent to can be built, and the transport's own address
  carries a major version that does not fit 8 bits.\<close>

lemma incoming_message_panics_iff:
  "fst (convert_vsomeip_msg_to_umsg U V n auth me remote r w) = Panic \<longleftrightarrow>
     v_message_type r = MT_REQUEST \<and> get_message_payload r \<noteq> None \<and>
     u_try_from_parts U auth (ucast (v_service r)) (v_interface_version r) (v_method r) \<noteq> None \<and>
     256 \<le> ue_version_major me"
proof (cases "get_message_payload r")
  case (Some p)
  then show ?thesis
    using incoming_request_panics_iff [OF _ Some, of U V n auth me remote w]
      answer_no_panic [OF _ Some, of U V n auth me remote w]
    by (cases "v_message_type r")
      (auto simp: convert_vsomeip_msg_to_umsg_def convert_vsomeip_mt_notification_to_umsg_def
        Let_def split: option.splits)
qed (simp add: convert_vsomeip_msg_to_umsg_def)

subsection \<open>From one transport to another and back\<close>

lemma request_message_fields [simp]:
  "v_service (request_message V snk) = ucast (ue_id snk)"
  "v_method (request_message V snk) = ucast (resource_id snk)"
  "v_message_type (request_message V snk) = v_message_type (vs_create_request V)"
  by (simp_all add: request_message_def)

lemma response_message_fields [simp]:
  "v_service (response_message V src k st) = ucast (ue_id src)"
  "v_method (response_message V src k st) = ucast (resource_id src)"
  "v_client (response_message V src k st) = fst (split_u32_to_u16 k)"
  "v_session (response_message V src k st) = snd (split_u32_to_u16 k)"
  "v_return_code (response_message V src k st) = (case st of
     Some c \<Rightarrow> ucode_to_vsomeip_err_code (enum_value_or c UNIMPLEMENTED) | None \<Rightarrow> E_UNKNOWN)"
  "v_message_type (response_message V src k st) =
     (case st of Some c \<Rightarrow> MT_ERROR | None \<Rightarrow> MT_RESPONSE)"
  by (simp_all add: response_message_def)

lemma request_id_of_parts:
  assumes "vsomeip_request_ids V"
  shows "vs_get_request V (response_message V src k st\<lparr>v_payload := q\<rparr>) = k"
  using vsomeip_request_ids.get_request_parts [OF assms]
  by (simp add: split_u32_to_u16_eq create_request_id_parts)

text \<open>The serving side: the request is converted, and the reply to it becomes a response.\<close>

lemma server_answers:
  assumes up: "up_rust_spec U"
    and m: "v_message_type m = MT_REQUEST" "get_message_payload m = Some p"
    and version: "ue_version_major me < 256"
    and sink: "u_try_from_parts U auth (ucast (v_service m)) (v_interface_version m) (v_method m) = Some a"
    and src: "u_try_from_parts U remote (ue_id me) (ucast (ue_version_major me)) 0 = Some b"
    and req: "u_build_request U n a b 1000 (get_data_safe p) = Some req"
    and new: "msg_id (attributes_of U req) = Some j" "me_table v j = None"
    and reply: "msg_reqid (attributes_of U reply) = msg_id (attributes_of U req)"
      "msg_source (attributes_of U reply) = msg_sink (attributes_of U req)"
      "msg_commstatus (attributes_of U reply) = status"
  obtains v1 v2 where
    "convert_vsomeip_msg_to_umsg U V n auth me remote m v = (Ok req, v1)"
    "payload req = Some (get_data_safe p)"
    "umsg_response_to_vsomeip_message U V reply v1 =
       (Ok (response_message V a (vs_get_request V m) status), v2)"
    "me_table v2 = me_table v"
proof -
  have builder: "up_rust_builder U" using up by (simp add: up_rust_spec_def)
  have ver: "u8_try_from (ue_version_major me) = Some (ucast (ue_version_major me))"
    using version by (simp add: u8_try_from_def)
  have fields: "payload req = Some (get_data_safe p)" "msg_sink (attributes_of U req) = Some a"
    using up_rust_builder.build_request_fields [OF builder req] by (auto simp: attributes_of_def)
  from incoming_request_accepted [OF m sink ver src req new] obtain v1 where
    v1: "convert_vsomeip_msg_to_umsg U V n auth me remote m v = (Ok req, v1)"
    "me_table v1 = (me_table v)(j \<mapsto> vs_get_request V m)" by blast
  then have "me_table v1 j = Some (vs_get_request V m)" by simp
  from remove_me_step [OF this] v1(2) new response_unfold [of U reply a j V v1] reply fields
  obtain v2 where "umsg_response_to_vsomeip_message U V reply v1 =
      (Ok (response_message V a (vs_get_request V m) status), v2)" "me_table v2 = me_table v"
    by (auto simp: fun_upd_idem)
  with that v1(1) fields(1) show ?thesis by blast
qed

text \<open>The asking side: the response finds the request it answers.\<close>

definition arriving_status :: "ucode option option \<Rightarrow> ucode" where
  "arriving_status status =
     (case status of None \<Rightarrow> OK | Some c \<Rightarrow> transported_status (enum_value_or c UNIMPLEMENTED))"

lemma client_gets_answer:
  assumes builder: "up_rust_builder U" and ids: "vsomeip_request_ids V"
    and source: "u_try_from_parts U remote (ucast (ucast (ue_id a) :: u16)) (ucast (ue_version_major a))
      (ucast (resource_id a)) = Some d"
    and ans: "u_build_response U n src i d (arriving_status status) (get_data_safe q) = Some answer"
    and entry: "ue_table w k = Some (i, src)"
  obtains w' where
    "convert_vsomeip_msg_to_umsg U V n auth me remote
       (response_message V a k status\<lparr>v_payload := Some q\<rparr>) w = (Ok answer, w')"
    "msg_reqid (attributes_of U answer) = Some i" "msg_sink (attributes_of U answer) = Some src"
    "payload answer = Some (get_data_safe q)"
    "msg_commstatus (attributes_of U answer) = Some (Some (arriving_status status))"
    "ue_table w' = (ue_table w)(k := None)"
proof -
  let ?x = "response_message V a k status\<lparr>v_payload := Some q\<rparr>"
  have x: "v_message_type ?x \<in> {MT_RESPONSE, MT_ERROR}" "get_message_payload ?x = Some q"
    by (auto simp: get_message_payload_def split: option.split)
  have xk: "vs_get_request V ?x = k" by (rule request_id_of_parts [OF ids])
  have "v_interface_version ?x = ucast (ue_version_major a)" by (simp add: response_message_def)
  with source have d: "u_try_from_parts U remote (ucast (v_service ?x)) (v_interface_version ?x)
    (v_method ?x) = Some d" by simp
  have st: "answer_status ?x = arriving_status status"
    by (auto simp: answer_status_def transported_status_def arriving_status_def split: option.split)
  obtain w' where "convert_vsomeip_msg_to_umsg U V n auth me remote ?x w = (Ok answer, w')"
    "ue_table w' = (ue_table w)(k := None)"
    using answer_known [OF x d _ ans [folded st], of w V auth me] xk entry by auto
  with up_rust_builder.build_response_fields [OF builder ans] that show ?thesis
    by (auto simp: attributes_of_def)
qed

lemma ref_up_rust_simps:
  "u_try_from_parts ref_up_rust a i v r = Some \<lparr>authority_name = a, ue_id = i,
     ue_version_major = ucast v, resource_id = ucast r\<rparr>"
  "u_build_request ref_up_rust n snk src ttl p = Some \<lparr>attributes = Some
     \<lparr>msg_type = Some UMESSAGE_TYPE_REQUEST, msg_id = Some (UUID n), msg_source = Some src,
      msg_sink = Some snk, msg_ttl = Some ttl, msg_reqid = None, msg_commstatus = None\<rparr>,
      payload = Some p\<rparr>"
  "u_build_response ref_up_rust n snk req src c p \<noteq> None"
  "u_build_publish ref_up_rust n src p \<noteq> None"
  by (simp_all add: ref_up_rust_def)

definition demo_reply :: "umessage \<Rightarrow> umessage" where
  "demo_reply m = (let a = attributes_of ref_up_rust m in \<lparr>attributes = Some
     \<lparr>msg_type = Some UMESSAGE_TYPE_RESPONSE, msg_id = Some (UUID 99), msg_source = msg_sink a,
      msg_sink = msg_source a, msg_ttl = None, msg_reqid = msg_id a,
      msg_commstatus = Some (Some UNAVAILABLE)\<rparr>, payload = payload m\<rparr>)"

lemma demo_reply_attributes [simp]:
  "msg_reqid (attributes_of ref_up_rust (demo_reply m)) = msg_id (attributes_of ref_up_rust m)"
  "msg_source (attributes_of ref_up_rust (demo_reply m)) = msg_sink (attributes_of ref_up_rust m)"
  "msg_commstatus (attributes_of ref_up_rust (demo_reply m)) = Some (Some UNAVAILABLE)"
  by (simp_all add: demo_reply_def Let_def)

subsection \<open>Events\<close>

lemma ucast_u16_take_bit: "ucast (ucast v :: u16) = take_bit 16 v" for v :: u32
  by (rule bit_word_eqI) (auto simp: bit_simps)

lemma publish_key:
  assumes "msg_source (attributes_of U umsg) = Some src"
  shows "fst (umsg_publish_to_vsomeip_notification U V umsg app w) =
    Ok (ucast (ue_id src), 1, ucast (resource_id src))"
  using assms by (simp add: umsg_publish_to_vsomeip_notification_def split_simps)



end
