(* ===== verification/Engine_Properties.thy ===== *)
theory Engine_Properties
  imports Well_Formed_Calls Conversion_Properties
begin

text \<open>
  The properties of the engine.  The witnesses run it on the instances \<open>ref_up_rust\<close> and
  \<open>ref_vsomeip\<close>, with one application called \<open>app\<close>.
\<close>

subsection \<open>Offers and subscriptions\<close>

text \<open>C14. Whatever commands the engine handles, in whatever order, the calls it adds offer an
  event at most once and subscribe to an event at most once, and never an event that was
  marked as offered or subscribed to before.  Every event it offers or subscribes to is
  marked in the transport's registry, and nothing else is.\<close>

theorem events_offered_and_subscribed_once:
  "\<exists>calls. let w' = snd (snd (event_loop U V pick oc config cmds w));
       before = offered_registry (storage w); after = offered_registry (storage w')
     in hist w' = hist w @ calls \<and>
        distinct (keys event_offer calls) \<and>
        set (keys event_offer calls) \<inter> offered_events before = {} \<and>
        offered_events after = offered_events before \<union> set (keys event_offer calls) \<and>
        distinct (keys event_subscription calls) \<and>
        set (keys event_subscription calls) \<inter> requested_events before = {} \<and>
        requested_events after = requested_events before \<union> set (keys event_subscription calls)"
  using once_only_event_loop [of w U V pick oc config cmds]
  by (auto simp: once_only_def marks_kept_def Let_def)

subsection \<open>Sending\<close>

text \<open>Sending a publish message notifies vsomeip of exactly its event, on instance 1, with the
  message's payload, as the last call; if the event has not been offered before, the service
  and then the event are offered first, and the event is marked.  Nothing else is called and
  the correlation tables do not change.\<close>

theorem publish_is_notified:
  assumes "msg_type (attributes_of U umsg) = Some UMESSAGE_TYPE_PUBLISH"
    and "msg_source (attributes_of U umsg) = Some src"
    and "s = ucast (ue_id src)" "e = ucast (resource_id src)"
  shows "\<exists>w'. send_internal U V oc umsg app w = (Ok (), w') \<and>
    hist w' = hist w @
      (if (s, 1, e) \<in> offered_events (offered_registry (storage w)) then []
       else [OfferService app s 1 (ANY_MAJOR V) (ANY_MINOR V), OfferEvent app s 1 e e]) @
      [Notify app s 1 e (set_data_safe (case payload umsg of Some b \<Rightarrow> b | None \<Rightarrow> [])) True] \<and>
    (s, 1, e) \<in> offered_events (offered_registry (storage w')) \<and>
    rpc_registry (storage w') = rpc_registry (storage w)"
proof -
  have k: "(low16 (ue_id src), 1, low16 (resource_id src)) = (s, 1, e)"
    using assms(3,4) by (simp add: low16_def snd_split_u32_to_u16)
  from publish_step [OF assms(2) k [symmetric], of V app w] obtain v where
    "umsg_publish_to_vsomeip_notification U V umsg app w = (Ok (s, 1, e), v)"
    "hist v = hist w @ (if (s, 1, e) \<in> offered_events (offered_registry (storage w)) then []
      else [OfferService app s 1 (ANY_MAJOR V) (ANY_MINOR V), OfferEvent app s 1 e e])"
    "offered_registry (storage v) = (offered_registry (storage w))
      \<lparr>offered_events := insert (s, 1, e) (offered_events (offered_registry (storage w)))\<rparr>"
    "rpc_registry (storage v) = rpc_registry (storage w)" by auto
  with assms(1) show ?thesis
    by (simp add: send_internal_def)
qed

theorem publish_is_notified_witness:
  "\<exists>w'. send_internal ref_up_rust ref_vsomeip True
      (demo_message UMESSAGE_TYPE_PUBLISH (demo_uri 0x10 0x8001) None None) ''app''
      (demo_core demo_app) = (Ok (), w') \<and>
    hist w' = demo_app @ [OfferService ''app'' 0x10 1 0xFF 0xFFFFFFFF,
      OfferEvent ''app'' 0x10 1 0x8001 0x8001, Notify ''app'' 0x10 1 0x8001 (Some [1, 2]) True]"
  using publish_is_notified [where U = ref_up_rust and V = ref_vsomeip and oc = True
      and umsg = "demo_message UMESSAGE_TYPE_PUBLISH (demo_uri 0x10 0x8001) None None"
      and app = "''app''" and w = "demo_core demo_app", OF _ _ refl refl]
  by (auto simp: demo_uri_def offered_requested_new_def set_data_safe_def)

text \<open>C13. Sending a request hands vsomeip exactly one message, addressed to the sink's service and
  method on instance 1, with the sink's major version as interface version and the request's
  payload, and files the request's identifier and source under the application's client
  identifier and its current session, which is advanced.  The request is accepted whenever
  that entry is unused and the session counter can be advanced.\<close>

theorem request_is_sent:
  assumes t: "msg_type (attributes_of U umsg) = Some UMESSAGE_TYPE_REQUEST"
    and attrs: "msg_source (attributes_of U umsg) = Some src"
      "msg_sink (attributes_of U umsg) = Some snk" "msg_id (attributes_of U umsg) = Some i"
    and c: "c = vs_get_client V (hist w) app"
    and room: "\<not> (oc \<and> session_table w c = Some 0xFFFF)"
    and vacant: "ue_table w (create_request_id c (current_session c w)) = None"
  shows "\<exists>w' m. send_internal U V oc umsg app w = (Ok (), w') \<and>
    hist w' = hist w @ [SendMessage app m] \<and>
    v_service m = ucast (ue_id snk) \<and> v_instance m = 1 \<and> v_method m = ucast (resource_id snk) \<and>
    v_interface_version m = ucast (ue_version_major snk) \<and> v_return_code m = E_OK \<and>
    v_payload m = Some (set_data_safe (case payload umsg of Some b \<Rightarrow> b | None \<Rightarrow> [])) \<and>
    ue_table w' = (ue_table w)(create_request_id c (current_session c w) \<mapsto> (i, src)) \<and>
    session_table w' = (session_table w)(c \<mapsto> current_session c w + 1) \<and>
    me_table w' = me_table w"
proof -
  have k: "next_request_id V app w = create_request_id c (current_session c w)"
    by (simp add: next_request_id_def c Let_def)
  from request_accepted [OF attrs c room] k vacant obtain v where
    v: "umsg_request_to_vsomeip_message U V oc umsg app w = (Ok (request_message V snk), v)"
    "ue_table v = (ue_table w)(create_request_id c (current_session c w) \<mapsto> (i, src))"
    "session_table v = (session_table w)(c \<mapsto> current_session c w + 1)"
    "me_table v = me_table w" by auto
  then have "hist v = hist w"
    using conversions_quiet(4) [of U V oc umsg app w] by simp
  with v t show ?thesis
    by (simp add: send_internal_def Let_def set_message_payload_def request_message_def table_defs)
qed

theorem request_is_sent_witness:
  "\<exists>w' m. send_internal ref_up_rust ref_vsomeip True
      (demo_message UMESSAGE_TYPE_REQUEST (demo_uri 0x11 0) (Some (demo_uri 0x22 0x33)) None)
      ''app'' (demo_core demo_app) = (Ok (), w') \<and>
    hist w' = demo_app @ [SendMessage ''app'' m] \<and> v_service m = 0x22 \<and> v_method m = 0x33 \<and>
    v_payload m = Some (Some [1, 2]) \<and>
    ue_table w' (create_request_id 0x0345 1) = Some (UUID 7, demo_uri 0x11 0) \<and>
    session_table w' 0x0345 = Some 2"
  using request_is_sent [where U = ref_up_rust and V = ref_vsomeip and oc = True
      and umsg = "demo_message UMESSAGE_TYPE_REQUEST (demo_uri 0x11 0) (Some (demo_uri 0x22 0x33)) None"
      and app = "''app''" and w = "demo_core demo_app" and c = "0x0345" and i = "UUID 7"
      and src = "demo_uri 0x11 0" and snk = "demo_uri 0x22 0x33"]
  by (auto simp: demo_uri_def set_data_safe_def current_session_def)

text \<open>C31. A send that ends in an error has called nothing: no message reaches vsomeip, nothing is
  offered, and the transport's handlers are untouched.\<close>

theorem failed_send_calls_nothing:
  assumes "send_internal U V oc umsg app w = (Err e, w')"
  shows "hist w' = hist w \<and> offered_registry (storage w') = offered_registry (storage w) \<and>
    untouched w' = untouched w"
proof -
  have "untouched w' = untouched w"
    using untouched_send [of U V oc umsg app w] assms by simp
  moreover have "hist w' = hist w \<and> offered_registry (storage w') = offered_registry (storage w)"
  proof (cases "enum_value_or (msg_type (attributes_of U umsg)) UMESSAGE_TYPE_UNSPECIFIED")
    case UMESSAGE_TYPE_PUBLISH
    then show ?thesis
      using assms publish_step [OF _ refl, of U umsg _ V app w] publish_no_source [of U umsg V app w]
      by (cases "msg_source (attributes_of U umsg)")
        (auto simp: send_internal_def Let_def and_then_Err_iff)
  next
    case UMESSAGE_TYPE_REQUEST
    then show ?thesis
      using assms conversions_quiet(4-6) [of U V oc umsg app w]
      by (auto simp: send_internal_def Let_def and_then_Err_iff)
  next
    case UMESSAGE_TYPE_RESPONSE
    then show ?thesis
      using assms conversions_quiet(1-3) [of U V umsg w]
      by (auto simp: send_internal_def Let_def and_then_Err_iff)
  qed (use assms in \<open>simp_all add: send_internal_def Let_def\<close>)
  ultimately show ?thesis by simp
qed

theorem failed_send_calls_nothing_witness:
  "\<exists>w'. send_internal ref_up_rust ref_vsomeip True
      (demo_message UMESSAGE_TYPE_NOTIFICATION (demo_uri 0x11 0) None None) ''app''
      (demo_core demo_app) = (Err INVALID_ARGUMENT, w') \<and> hist w' = demo_app"
  using failed_send_calls_nothing [of ref_up_rust ref_vsomeip True
      "demo_message UMESSAGE_TYPE_NOTIFICATION (demo_uri 0x11 0) None None" "''app''"
      "demo_core demo_app" INVALID_ARGUMENT "demo_core demo_app"]
  by (simp add: send_internal_def Let_def)

subsection \<open>Answering a request\<close>

lemma incoming_request_OkE:
  assumes "v_message_type r = MT_REQUEST" "get_message_payload r = Some p"
    and "convert_vsomeip_msg_to_umsg U V n auth me remote r w = (Ok req, w1)"
  obtains i where "msg_id (attributes_of U req) = Some i"
    "me_table w i = None" "me_table w1 = (me_table w)(i \<mapsto> vs_get_request V r)"
proof -
  have conv: "convert_vsomeip_mt_request_to_umsg U V n auth me remote r (get_data_safe p) w =
      (Ok req, w1)"
    using assms by (simp add: convert_vsomeip_msg_to_umsg_def)
  obtain i where i: "msg_id (attributes_of U req) = Some i"
    "on_storage (storage_insert_me_request_correlation i (vs_get_request V r)) w = (Ok (), w1)"
    using conv by (auto simp: convert_vsomeip_mt_request_to_umsg_def Let_def and_then_Ok_iff
        split: option.splits)
  then have none: "me_table w i = None"
    using insert_me_occupied [of w i _ "vs_get_request V r"] by (cases "me_table w i") auto
  from insert_me_step [OF this, of "vs_get_request V r"] i(2)
  have "me_table w1 = (me_table w)(i \<mapsto> vs_get_request V r)" by auto
  with that i(1) none show ?thesis by blast
qed

text \<open>A request that came in from SOME/IP is answered to the client and session it came from:
  when its uProtocol form was handed to a listener and a response to that message is sent
  later, while its entry is still there, vsomeip is handed one message with the client and
  session identifiers of the original request and the responder's service and method, and the
  entry is used up.\<close>

theorem response_returns_to_requester:
  assumes ids: "vsomeip_request_ids V"
    and incoming: "v_message_type r = MT_REQUEST" "get_message_payload r = Some p"
      "convert_vsomeip_msg_to_umsg U V n auth me remote r w = (Ok req, w1)"
    and kept: "msg_id (attributes_of U req) = Some i" "me_table w2 i = me_table w1 i"
    and resp: "msg_type (attributes_of U resp) = Some UMESSAGE_TYPE_RESPONSE"
      "msg_source (attributes_of U resp) = Some src"
      "msg_reqid (attributes_of U resp) = Some i"
  shows "\<exists>w3 m. send_internal U V oc resp app w2 = (Ok (), w3) \<and>
    hist w3 = hist w2 @ [SendMessage app m] \<and>
    v_client m = v_client r \<and> v_session m = v_session r \<and>
    v_service m = ucast (ue_id src) \<and> v_method m = ucast (resource_id src) \<and>
    me_table w3 = (me_table w2)(i := None)"
proof -
  let ?k = "vs_get_request V r"
  let ?m = "response_message V src ?k (msg_commstatus (attributes_of U resp))"
  from incoming obtain j where "msg_id (attributes_of U req) = Some j"
    "me_table w1 = (me_table w)(j \<mapsto> vs_get_request V r)"
    by (rule incoming_request_OkE)
  then have "me_table w2 i = Some ?k" using kept by simp
  from remove_me_step [OF this] obtain w3 where w3:
    "on_storage (storage_remove_me_request_correlation i) w2 = (Ok ?k, w3)"
    "me_table w3 = (me_table w2)(i := None)" "w3 = w2\<lparr>storage := storage w3\<rparr>" by blast
  have "hist w3 = hist w2" by (subst w3(3)) simp
  moreover have "umsg_response_to_vsomeip_message U V resp w2 = (Ok ?m, w3)"
    using response_unfold [OF resp(2), of i V w2] resp(3) w3(1) by simp
  moreover have "v_client ?m = v_client r" "v_session ?m = v_session r"
    using vsomeip_request_ids.get_request_parts [OF ids, of r]
    by (simp_all add: response_message_def split_u32_to_u16_eq create_request_id_low
        create_request_id_high)
  moreover have "v_service ?m = ucast (ue_id src)" "v_method ?m = ucast (resource_id src)"
    by (simp_all add: response_message_def)
  ultimately show ?thesis
    using resp(1) w3(2) by (simp add: send_internal_def Let_def set_message_payload_def table_defs)
qed

theorem response_returns_to_requester_witness:
  "\<exists>req w1 w3 m. convert_vsomeip_msg_to_umsg ref_up_rust ref_vsomeip 7 ''a'' (demo_uri 0x11 0)
      ''r'' demo_incoming (demo_core demo_app) = (Ok req, w1) \<and>
    send_internal ref_up_rust ref_vsomeip True
      (demo_message UMESSAGE_TYPE_RESPONSE (demo_uri 0x10 0x20) None (Some (UUID 7))) ''app'' w1 =
      (Ok (), w3) \<and>
    v_client m = 0x99 \<and> v_session m = 5 \<and> hist w3 = hist w1 @ [SendMessage ''app'' m]"
proof -
  obtain req w1 where conv: "convert_vsomeip_msg_to_umsg ref_up_rust ref_vsomeip 7 ''a''
      (demo_uri 0x11 0) ''r'' demo_incoming (demo_core demo_app) = (Ok req, w1)"
    and req: "msg_id (attributes_of ref_up_rust req) = Some (UUID 7)"
    using insert_me_step [of "demo_core demo_app" "UUID 7" "create_request_id 0x99 5"]
    by (auto simp: convert_vsomeip_msg_to_umsg_def convert_vsomeip_mt_request_to_umsg_def
        demo_incoming_def blank_message_def get_message_payload_def ref_up_rust_def u8_try_from_def
        demo_uri_def attributes_of_def)
  then show ?thesis
    using response_returns_to_requester [OF ref_vs.vsomeip_request_ids_axioms _ _ conv req refl,
        where p = "Some [3]" and oc = True and app = "''app''" and src = "demo_uri 0x10 0x20" and
        resp = "demo_message UMESSAGE_TYPE_RESPONSE (demo_uri 0x10 0x20) None (Some (UUID 7))"]
    by (auto simp: demo_incoming_def blank_message_def get_message_payload_def)
qed

subsection \<open>Handlers\<close>

text \<open>Registering a listener registers its handler function with vsomeip under exactly one key,
  as the last call: a publish filter under the source's service and event on instance 1, a
  request filter under the sink's service and method and a response filter under the
  source's service and method, both on any instance.  Without such a key (a request filter
  without sink, or a point-to-point filter) nothing is called and the state is unchanged.\<close>

theorem register_listener_internal_key:
  "case registered_key V src snk t of
     Some (s, i, m) \<Rightarrow> \<exists>calls w'.
       register_listener_internal V src snk t h app w = (Ok (), w') \<and>
       hist w' = hist w @ calls @ [RegisterMessageHandler app s i m h] \<and>
       (\<forall>a s' i' m' f. RegisterMessageHandler a s' i' m' f \<notin> set calls)
   | None \<Rightarrow> \<exists>e. register_listener_internal V src snk t h app w = (Err e, w)"
proof (cases "registered_key V src snk t")
  case (Some k)
  obtain s i m where k: "k = (s, i, m)" by (cases k)
  from register_key [of V src snk t s i m h app w] Some k show ?thesis
    by (simp, elim exE conjE) blast
qed (simp add: register_no_key)

text \<open>Unregistering a request listener takes back what registering it gave to vsomeip: the
  handler is unregistered under the key it was registered under.\<close>

theorem request_unregistered_under_its_key:
  assumes "snk \<noteq> None"
  shows "\<exists>s i m calls.
    hist (snd (register_listener_internal V src snk Request h app w)) =
      hist w @ calls @ [RegisterMessageHandler app s i m h] \<and>
    unregister_listener_internal V src snk Request app v =
      (Ok (), call_vs (UnregisterMessageHandler app s i m) v)"
proof -
  from assms obtain k where k: "snk = Some k" by auto
  then have "registered_key V src snk Request =
      Some (low16 (ue_id k), ANY_INSTANCE V, low16 (resource_id k))" by simp
  from register_key [OF this, of h app w] k show ?thesis
    using unregister_key [of V src snk Request _ _ _ app v] by fastforce
qed

theorem request_unregistered_under_its_key_witness:
  "\<exists>s i m calls.
    hist (snd (register_listener_internal ref_vsomeip (demo_uri 1 2) (Some (demo_uri 3 4)) Request
      (Extern_fn_message_handler 0) ''app'' (demo_core demo_app))) =
      demo_app @ calls @ [RegisterMessageHandler ''app'' s i m (Extern_fn_message_handler 0)] \<and>
    unregister_listener_internal ref_vsomeip (demo_uri 1 2) (Some (demo_uri 3 4)) Request ''app''
      (demo_core []) = (Ok (), call_vs (UnregisterMessageHandler ''app'' s i m) (demo_core []))"
  using request_unregistered_under_its_key [of "Some (demo_uri 3 4)" ref_vsomeip "demo_uri 1 2"
      "Extern_fn_message_handler 0" "''app''" "demo_core demo_app" "demo_core []"]
  by simp



text \<open>Nor does unregistering a publish listener, whenever the library's number for any instance
  is not 1: the handler is registered for instance 1 and unregistered for any instance.\<close>

theorem publish_unregistered_under_other_instance:
  assumes "ANY_INSTANCE V \<noteq> 1"
  shows "\<exists>s i m i' calls.
    hist (snd (register_listener_internal V src snk Publish h app w)) =
      hist w @ calls @ [RegisterMessageHandler app s i m h] \<and>
    unregister_listener_internal V src snk Publish app v =
      (Ok (), call_vs (UnregisterMessageHandler app s i' m) v) \<and> i \<noteq> i'"
proof -
  have r: "registered_key V src snk Publish =
      Some (low16 (ue_id src), 1, low16 (resource_id src))" by simp
  have u: "unregister_listener_internal V src snk Publish app v = (Ok (),
      call_vs (UnregisterMessageHandler app (low16 (ue_id src)) (ANY_INSTANCE V) (low16 (resource_id src))) v)"
    by (rule unregister_key) simp
  from register_key [OF r, of h app w] u assms show ?thesis by fastforce
qed

theorem publish_unregistered_under_other_instance_witness:
  "\<exists>s i m i' calls.
    hist (snd (register_listener_internal ref_vsomeip (demo_uri 1 0x8001) None Publish
      (Extern_fn_message_handler 0) ''app'' (demo_core demo_app))) =
      demo_app @ calls @ [RegisterMessageHandler ''app'' s i m (Extern_fn_message_handler 0)] \<and>
    unregister_listener_internal ref_vsomeip (demo_uri 1 0x8001) None Publish ''app''
      (demo_core []) = (Ok (), call_vs (UnregisterMessageHandler ''app'' s i' m) (demo_core [])) \<and>
    i \<noteq> i'"
  using publish_unregistered_under_other_instance [of ref_vsomeip "demo_uri 1 0x8001" None
      "Extern_fn_message_handler 0" "''app''" "demo_core demo_app" "demo_core []"]
  by simp

subsection \<open>Applications\<close>

text \<open>Starting an application that vsomeip does not have yet, and that reports a state in time,
  succeeds: it is created, initialised and started in this order with one state handler,
  which is unregistered again and whose number goes back to the pool.  All reported states
  but the first stay behind in the number's channel.\<close>

theorem start_app_returns_its_state_handler:
  assumes pick: "iterates_members pick" and ok: "states_ok (statics w)"
    and pool: "free_state_handler_ids (statics w) \<noteq> {}"
      "i = pick (free_state_handler_ids (statics w))"
      "available_state_channels (statics w) i = Some []"
    and app: "\<not> vs_application_exists V (hist w) app"
      "vs_creates_application V (hist w) app config"
    and h: "h = hist w @ start_calls V (hist w) app config i"
    and reported: "vs_reported_states V h app = st # sts" "length sts < state_channel_capacity"
  shows "\<exists>w'. start_vsomeip_app_internal V pick app config w = (Ok (), w') \<and>
    hist w' = h @ [UnregisterStateHandler app] \<and>
    free_state_handler_ids (statics w') = free_state_handler_ids (statics w) \<and>
    available_state_channels (statics w') i = Some sts \<and> storage w' = storage w"
proof -
  have "finite (free_state_handler_ids (statics w))"
    using ok by (auto simp: states_ok_def intro: finite_subset)
  then have i: "i \<in> free_state_handler_ids (statics w)"
    using pick pool by (simp add: iterates_members_def)
  then have "i < num_state_handlers" using ok by (auto simp: states_ok_def)
  with create_app_run [where w = w and V = V and i = i and pick = pick and app = app
      and config = config and h = h and q = "[]" and states = "st # sts"] i pool app h reported
  show ?thesis
    by (auto simp: start_vsomeip_app_internal_def)
qed

theorem start_app_returns_its_state_handler_witness:
  "\<exists>w'. start_vsomeip_app_internal ref_vsomeip Min ''new'' None (demo_core []) = (Ok (), w') \<and>
    hist w' = start_calls ref_vsomeip [] ''new'' None 0 @ [UnregisterStateHandler ''new''] \<and>
    free_state_handler_ids (statics w') = {..<num_state_handlers}"
proof -
  have ids: "free_state_handler_ids (statics (demo_core [])) = {..<num_state_handlers}"
    by (simp add: new_trait_obj_def statics_init_def initialize_sender_receiver_def)
  have min: "Min {..<num_state_handlers} = 0"
    by (rule Min_eqI) (auto simp: num_state_handlers_def)
  have chan: "available_state_channels (statics (demo_core [])) 0 = Some []"
    by (simp add: new_trait_obj_def statics_init_def initialize_sender_receiver_def fold_upd_upt
        num_state_handlers_def)
  show ?thesis
    using start_app_returns_its_state_handler [OF iterates_members_Min, of "demo_core []" 0
        ref_vsomeip "''new''" None "start_calls ref_vsomeip [] ''new'' None 0" ST_REGISTERED "[]"]
      ids min chan states_ok_init
    by (auto simp: state_channel_capacity_def num_state_handlers_def lessThan_empty_iff)
qed

text \<open>C32. If no state is reported in time the start fails with INTERNAL, but vsomeip has been told to
  create, initialise and start the application all the same, its state handler is not
  unregistered, and the handler's number is gone from the pool.  That the starting thread finds
  the application is what vsomeip documents of one it has created.\<close>

theorem start_app_timeout_loses_its_state_handler:
  assumes pick: "iterates_members pick" and ok: "states_ok (statics w)"
    and pool: "free_state_handler_ids (statics w) \<noteq> {}"
      "i = pick (free_state_handler_ids (statics w))"
      "available_state_channels (statics w) i = Some []"
    and apps: "vsomeip_applications V" and app: "\<not> vs_application_exists V (hist w) app"
      "vs_creates_application V (hist w) app config"
    and h: "h = hist w @ [CreateApplication app config, Init app,
      RegisterStateHandler app (Available_state_handler_extern_fn i), StartApplication app]"
    and silent: "vs_reported_states V h app = []"
  shows "\<exists>w'. start_vsomeip_app_internal V pick app config w = (Err INTERNAL, w') \<and>
    hist w' = h \<and>
    free_state_handler_ids (statics w') = free_state_handler_ids (statics w) - {i} \<and>
    i \<in> free_state_handler_ids (statics w)"
proof -
  have "finite (free_state_handler_ids (statics w))"
    using ok by (auto simp: states_ok_def intro: finite_subset)
  then have i: "i \<in> free_state_handler_ids (statics w)"
    using pick pool by (simp add: iterates_members_def)
  then have "i < num_state_handlers" using ok by (auto simp: states_ok_def)
  moreover have "h = hist w @ start_calls V (hist w) app config i"
    using h vsomeip_applications.start_calls_started [OF apps app(2)] by simp
  ultimately show ?thesis
    using create_app_run [where w = w and V = V and i = i and pick = pick and app = app
      and config = config and q = "[]" and states = "[]"] i pool app silent
    by (auto simp: start_vsomeip_app_internal_def)
qed

text \<open>A library that never reports a state.\<close>

definition silent_vsomeip :: vsomeip_api where
  "silent_vsomeip = ref_vsomeip\<lparr>vs_reported_states := \<lambda>h a. []\<rparr>"

interpretation silent_apps: vsomeip_applications silent_vsomeip
  by unfold_locales (simp add: silent_vsomeip_def)

lemma Min_state_handlers: "Min {..<num_state_handlers} = 0"
  by (rule Min_eqI) (auto simp: num_state_handlers_def)

lemma some_state_handlers [simp]: "{..<num_state_handlers} \<noteq> {}"
  by (auto simp: num_state_handlers_def lessThan_empty_iff)

lemma demo_statics [simp]:
  "free_state_handler_ids (new_trait_obj statics_init) = {..<num_state_handlers}"
  "available_state_channels (new_trait_obj statics_init) 0 = Some []"
  by (simp_all add: new_trait_obj_def statics_init_def initialize_sender_receiver_def fold_upd_upt
      num_state_handlers_def)

theorem start_app_timeout_loses_its_state_handler_witness:
  "\<exists>w'. start_vsomeip_app_internal silent_vsomeip Min ''new'' None (demo_core []) =
      (Err INTERNAL, w') \<and> 0 \<notin> free_state_handler_ids (statics w') \<and>
    last (hist w') = StartApplication ''new''"
  using start_app_timeout_loses_its_state_handler [OF iterates_members_Min _ _ _ _
      silent_apps.vsomeip_applications_axioms, of "demo_core []" 0 "''new''" None] states_ok_init
  by (auto simp: silent_vsomeip_def Min_state_handlers)

subsection \<open>Panics and order\<close>

text \<open>C26. The engine's thread panics in one situation only: on sending a complete request of an
  existing application whose session counter stands at 65535, in a build with overflow
  checks.\<close>

theorem engine_panics_only_on_session_overflow:
  assumes "iterates_members pick" "states_ok (statics w)"
  shows "fst (execute U V pick oc config cmd w) = Panic \<longleftrightarrow>
    (\<exists>umsg t app. cmd = Send umsg t app \<and> vs_application_exists V (hist w) app \<and>
       msg_type (attributes_of U umsg) = Some UMESSAGE_TYPE_REQUEST \<and>
       msg_source (attributes_of U umsg) \<noteq> None \<and> msg_sink (attributes_of U umsg) \<noteq> None \<and>
       msg_id (attributes_of U umsg) \<noteq> None \<and> oc \<and>
       session_table w (vs_get_client V (hist w) app) = Some 0xFFFF)"
  unfolding execute_panic_iff [OF assms] send_panic_iff ..

theorem engine_panics_only_on_session_overflow_witness:
  "fst (execute ref_up_rust ref_vsomeip Min True None (StartVsomeipApp 1 ''app'') (demo_core []))
     \<noteq> Panic"
  using engine_panics_only_on_session_overflow [OF iterates_members_Min,
      of "demo_core []" ref_up_rust ref_vsomeip True None "StartVsomeipApp 1 ''app''"]
    states_ok_init by simp

text \<open>The state before the \<open>k\<close>-th command.\<close>

definition state_before ::
  "up_rust_api \<Rightarrow> vsomeip_api \<Rightarrow> (nat set \<Rightarrow> nat) \<Rightarrow> bool \<Rightarrow> string option \<Rightarrow> command list \<Rightarrow>
     nat \<Rightarrow> ('bm, 'z) core_scheme \<Rightarrow> ('bm, 'z) core_scheme" where
  "state_before U V pick oc config cmds k w =
     snd (snd (event_loop U V pick oc config (take k cmds) w))"

lemma event_loop_no_overflow:
  assumes "iterates_members pick" "states_ok (statics w)"
  shows "fst (snd (event_loop U V pick False config cmds w)) \<and>
    length (fst (event_loop U V pick False config cmds w)) = length cmds \<and>
    (\<forall>k < length cmds. fst (event_loop U V pick False config cmds w) ! k =
       fst (execute U V pick False config (cmds ! k) (state_before U V pick False config cmds k w)))"
  using assms(2)
proof (induction cmds arbitrary: w)
  case (Cons cmd cmds)
  obtain r v where x: "execute U V pick False config cmd w = (r, v)" by fastforce
  then have "r \<noteq> Panic"
    using execute_panic_iff [OF assms(1) Cons.prems, of U V False config cmd]
    by (auto simp: send_panic_iff)
  moreover have "states_ok (statics v)"
    using execute_states_ok [OF assms(1) Cons.prems, of U V False config cmd] x by simp
  ultimately show ?case
    using Cons.IH [of v] x
    by (cases r) (auto simp: state_before_def case_prod_unfold Let_def nth_Cons' take_Cons')
qed simp


text \<open>C27. In a build without overflow checks the engine answers every command it is given, in the
  order it was given them: the answer to the \<open>k\<close>-th command is what that command returns
  in the state the commands before it left.\<close>

theorem commands_are_answered_in_order:
  assumes "iterates_members pick" "states_ok (statics w)" "k < length cmds"
  shows "fst (snd (event_loop U V pick False config cmds w)) \<and>
    length (fst (event_loop U V pick False config cmds w)) = length cmds \<and>
    fst (event_loop U V pick False config cmds w) ! k =
      fst (execute U V pick False config (cmds ! k) (state_before U V pick False config cmds k w))"
  using event_loop_no_overflow [OF assms(1,2), of U V config cmds] assms(3) by blast

theorem commands_are_answered_in_order_witness:
  "fst (event_loop ref_up_rust ref_vsomeip Min False None
      [StopVsomeipApp ''app'', StopVsomeipApp ''gone''] (demo_core demo_app)) ! 1 =
   fst (execute ref_up_rust ref_vsomeip Min False None (StopVsomeipApp ''gone'')
      (state_before ref_up_rust ref_vsomeip Min False None
         [StopVsomeipApp ''app'', StopVsomeipApp ''gone''] 1 (demo_core demo_app)))"
  using commands_are_answered_in_order [OF iterates_members_Min, of "demo_core demo_app" 1
      "[StopVsomeipApp ''app'', StopVsomeipApp ''gone'']" ref_up_rust ref_vsomeip None]
    states_ok_init by simp

subsection \<open>The form of the calls\<close>

text \<open>C18. A command makes calls on its own application only, which exists when it makes them, or is
  created by it, and every call is well formed: offers and notifications are for instance 1, an
  event is its own event group, a notification is forced and has data, and a message handed to
  vsomeip is for instance 1 and carries a payload with data.\<close>

theorem engine_calls_are_well_formed:
  "\<exists>calls. hist (snd (execute U V pick oc config cmd w)) = hist w @ calls \<and>
    (\<forall>c \<in> set calls. call_application c = command_application cmd \<and> well_formed_call c) \<and>
    (vs_application_exists V (hist w) (command_application cmd) =
       (case cmd of StartVsomeipApp _ _ \<Rightarrow> True | _ \<Rightarrow> False) \<longrightarrow> calls = [])"
proof -
  have "hist (snd (execute U V pick oc config cmd w)) = hist w"
    if "vs_application_exists V (hist w) (command_application cmd) =
       (case cmd of StartVsomeipApp _ _ \<Rightarrow> True | _ \<Rightarrow> False)"
    using that
    by (cases cmd) (simp_all add: execute_def get_application_def start_vsomeip_app_internal_def
        create_app_def stop_vsomeip_app_internal_def)
  with adds_execute [of cmd w U V pick oc config] show ?thesis by (auto simp: adds_def)
qed

theorem engine_calls_are_well_formed_witness:
  "\<exists>calls. hist (snd (execute ref_up_rust ref_vsomeip Min True None
      (Send (demo_message UMESSAGE_TYPE_PUBLISH (demo_uri 1 0x8001) None None) Publish ''app'')
      (demo_core demo_app))) = demo_app @ calls \<and>
    (\<forall>c \<in> set calls. call_application c = ''app'' \<and> well_formed_call c)"
  using engine_calls_are_well_formed [of ref_up_rust ref_vsomeip Min True None
      "Send (demo_message UMESSAGE_TYPE_PUBLISH (demo_uri 1 0x8001) None None) Publish ''app''"
      "demo_core demo_app"]
  by auto

end
