(* ===== verification/Transport_Properties.thy ===== *)
theory Transport_Properties
  imports Transport_Lemmas Engine_Properties
begin

text \<open>
  The properties of the transport's methods.  The witnesses use \<open>demo_env\<close>, made of the
  instances for the third-party code, and \<open>demo_world\<close>, a transport just made whose
  application \<open>app\<close> exists.
\<close>

definition demo_env :: "(nat \<Rightarrow> nat) \<Rightarrow> (pairs, demo_json) env" where
  "demo_env slots = \<lparr>e_up = ref_up_rust, e_vs = ref_vsomeip, e_bm = pair_bimap,
     e_json = demo_json_api, e_pick = Min, e_overflow_checks = True, e_builds_runtime = (\<lambda>n. 0 < n),
     e_slots = slots\<rparr>"

definition demo_world :: "vs_call list \<Rightarrow> pairs world" where
  "demo_world h = fresh_world (demo_env (\<lambda>_. 1)) 0 \<lparr>app_name = ''app'', app_id = 1\<rparr>
     (demo_uri 0x10 0) ''remote'' (Some ''cfg'') (statics_init, h)"

lemma demo_env_fields [simp]:
  "e_up (demo_env s) = ref_up_rust" "e_vs (demo_env s) = ref_vsomeip"
  "e_bm (demo_env s) = pair_bimap" "e_json (demo_env s) = demo_json_api"
  "e_pick (demo_env s) = Min" "e_overflow_checks (demo_env s)"
  "e_builds_runtime (demo_env s) n \<longleftrightarrow> 0 < n" "e_slots (demo_env s) = s"
  by (simp_all add: demo_env_def)

lemma demo_env_ok: "env_ok (demo_env s) pairs_ok"
  by (simp add: env_ok_def pairs.bimap_spec_axioms iterates_members_Min)
    (simp add: ref_up_rust_def)

text \<open>A transport just made satisfies the invariant, if its storage is new to the process.\<close>

lemma fresh_world_fields [simp]:
  "hist (fresh_world E me c u r p s) = snd s" "self (fresh_world E me c u r p s) = me"
  "queue (fresh_world E me c u r p s) = []" "engine_alive (fresh_world E me c u r p s)"
  "point_to_point_listener (fresh_world E me c u r p s) = None"
  "config_path (fresh_world E me c u r p s) = p" "runtime_running (fresh_world E me c u r p s)"
  "engine_config_path (fresh_world E me c u r p s) = None"
  "awaits (fresh_world E me c u r p s) = 0"
  "statics (fresh_world E me c u r p s) = new_trait_obj (fst s)"
  "storage (fresh_world E me c u r p s) = transport_storage_new (e_bm E) c u r"
  by (simp_all add: fresh_world_def)

lemma new_trait_obj_handlers [simp]:
  "free_message_handler_ids (new_trait_obj g) = free_message_handler_ids g"
  "message_handler_id_to_transport_storage (new_trait_obj g) =
     message_handler_id_to_transport_storage g"
  by (simp_all add: new_trait_obj_def initialize_sender_receiver_def)

lemma fresh_world_ok:
  assumes env: "env_ok E bm_ok" and g: "statics_ok g"
    and me: "me \<notin> ran (message_handler_id_to_transport_storage g)"
  shows "transport_ok E bm_ok (fresh_world E me c u r p (g, h))"
    and "listeners E (fresh_world E me c u r p (g, h)) = Map.empty"
    and "free_handlers (fresh_world E me c u r p (g, h)) = free_message_handler_ids g"
proof -
  let ?w = "fresh_world E me c u r p (g, h)"
  have spec: "bimap_spec (e_bm E) bm_ok" using env by (simp add: env_ok_def)
  have new: "bm_ok (bm_new (e_bm E))" "bm_get_by_left (e_bm E) (bm_new (e_bm E)) = Map.empty"
    using bimap_spec.new_ok [OF spec] by auto
  show empty: "listeners E ?w = Map.empty"
    using new(2) by (simp add: listeners_def storage_view_def transport_storage_new_def)
  have "{i. message_handler_id_to_transport_storage g i = Some me} = {}"
    using me by (auto simp: ran_def)
  then have "handlers_ok E bm_ok ?w"
    using new g by (simp add: handlers_ok_def storage_inv_def registry_inv_def
        transport_storage_new_def statics_ok_def)
  with empty show "transport_ok E bm_ok ?w" by (simp add: transport_ok_def)
  show "free_handlers ?w = free_message_handler_ids g" by (simp add: free_handlers_def)
qed

lemma demo_world_fields [simp]:
  "hist (demo_world h) = h" "queue (demo_world h) = []" "engine_alive (demo_world h)"
  "awaits (demo_world h) = 0" "point_to_point_listener (demo_world h) = None"
  "config_path (demo_world h) = Some ''cfg''" "runtime_running (demo_world h)"
  "application_of (demo_world h) = ''app''" "self (demo_world h) = 0"
  "statics (demo_world h) = new_trait_obj statics_init"
  by (simp_all add: demo_world_def application_of_def transport_storage_new_def)

lemma demo_world_ok:
  "transport_ok (demo_env s) pairs_ok (demo_world h)"
  "listeners (demo_env s) (demo_world h) = Map.empty"
  "free_handlers (demo_world h) = {..<num_message_handlers}"
proof -
  have *: "demo_world h = fresh_world (demo_env s) 0 \<lparr>app_name = ''app'', app_id = 1\<rparr>
     (demo_uri 0x10 0) ''remote'' (Some ''cfg'') (statics_init, h)"
    by (simp add: demo_world_def fresh_world_def)
  show "transport_ok (demo_env s) pairs_ok (demo_world h)"
    "listeners (demo_env s) (demo_world h) = Map.empty"
    "free_handlers (demo_world h) = {..<num_message_handlers}"
    unfolding *
    using fresh_world_ok [OF demo_env_ok statics_ok_init, of 0 s]
    by (simp_all add: statics_init_def)
qed

subsection \<open>Registering and unregistering\<close>

lemma registered_key_exists:
  assumes "determine_type U src snk = Ok t" "t \<noteq> AllPointToPoint"
  shows "\<exists>s i m. registered_key V src snk t = Some (s, i, m)"
  using assms by (cases snk; cases t) (auto simp: determine_type_Some split: if_splits)

lemma engine_execute_register:
  assumes "vs_application_exists (e_vs E) (hist w) app"
    and "registered_key (e_vs E) src snk t = Some (s, i, m)"
  shows "\<exists>calls v. engine_execute E (RegisterListener src snk t h app) w = (Ok (), v) \<and>
    hist v = hist w @ calls @ [RegisterMessageHandler app s i m h] \<and>
    \<not> list_ex touches_handlers calls"
  using assms register_key [OF assms(2), of h app w]
  by (auto simp: engine_execute_def execute_def)

lemma engine_execute_register_rpc:
  "rpc_registry (storage (snd (engine_execute E (RegisterListener src snk t h app) w))) =
     rpc_registry (storage w)"
  by (auto simp: engine_execute_def execute_def register_listener_internal_def Let_def case_prod_unfold
      storage_insert_event_requested_def storage_insert_service_offered_def
      storage_insert_service_requested_def on_offered_def split: option.split registration_type.split)

lemma engine_side_application:
  "engine_side (v :: 'bm world) = engine_side (w :: 'bm world) \<Longrightarrow> application_of v = application_of w"
  using engine_side_more(9) [of v w] by (simp add: application_of_def)

lemma engine_side_prompt: "engine_side v = engine_side w \<Longrightarrow> prompt E v = prompt E w"
  by (rule engine_side_more(15))

text \<open>A registration, up to the call of the engine.\<close>

lemma register_listener_fresh:
  assumes env: "env_ok E bm_ok" and ok: "transport_ok E bm_ok w"
    and t: "determine_type (e_up E) src snk = Ok t" "t \<noteq> AllPointToPoint"
    and new: "(src, snk, l) \<notin> ran (listeners E w)" and room: "free_handlers w \<noteq> {}"
  obtains i v where "i = e_pick E (free_handlers w)" "i \<in> free_handlers w" "transport_ok E bm_ok v"
    "listeners E v = (listeners E w)(i \<mapsto> (src, snk, l))"
    "free_handlers v = free_handlers w - {i}" "engine_side v = engine_side w"
    "register_listener E src snk l w = call_engine E (RegisterListener src snk t
       (Extern_fn_message_handler i) (application_of w)) v"
proof -
  have spec: "bimap_spec (e_bm E) bm_ok" and pick: "iterates_members (e_pick E)"
    and inv: "handlers_ok E bm_ok w"
    using env ok by (simp_all add: env_ok_def transport_ok_def)
  from spec inv pick show ?thesis
  proof (cases rule: get_handler_cases [of E bm_ok w "(src, snk, l)"])
    case (fresh i v)
    have "not_point_to_point E (src, snk, l)" using t by (simp add: not_point_to_point_def)
    then have "transport_ok E bm_ok v"
      using transport_ok_get_handler(1) [OF env ok _ fresh(4)] by simp
    moreover have "application_of v = application_of w"
      using fresh(8) by (rule engine_side_application)
    ultimately show ?thesis
      using that [of i v] fresh t by (simp add: register_listener_def)
  qed (use new room in simp_all)
qed

lemma register_listener_runs:
  assumes env: "env_ok E bm_ok" and ok: "transport_ok E bm_ok w" and prompt: "prompt E w"
    and app: "vs_application_exists (e_vs E) (hist w) (application_of w)"
    and t: "determine_type (e_up E) src snk = Ok t" "t \<noteq> AllPointToPoint"
    and new: "(src, snk, l) \<notin> ran (listeners E w)" and room: "free_handlers w \<noteq> {}"
  shows "\<exists>i v s j m calls. register_listener E src snk l w = (Ok (), v) \<and>
    i \<in> free_handlers w \<and> free_handlers v = free_handlers w - {i} \<and>
    listeners E v = (listeners E w)(i \<mapsto> (src, snk, l)) \<and>
    storage_get_listener_for_message_handler_id (e_bm E) (storage v) i = Some l \<and>
    message_handler_id_to_transport_storage (statics v) i = Some (self w) \<and>
    registered_key (e_vs E) src snk t = Some (s, j, m) \<and>
    hist v = hist w @ calls @
      [RegisterMessageHandler (application_of w) s j m (Extern_fn_message_handler i)] \<and>
    calm v \<and> runtime_running v = runtime_running w \<and> queue v = [] \<and> transport_ok E bm_ok v \<and>
    i = e_pick E (free_handlers w) \<and> application_of v = application_of w \<and>
    \<not> list_ex touches_handlers calls \<and> rpc_registry (storage v) = rpc_registry (storage w)"
proof -
  obtain i u where i: "i = e_pick E (free_handlers w)"
    and u: "i \<in> free_handlers w" "transport_ok E bm_ok u"
    "listeners E u = (listeners E w)(i \<mapsto> (src, snk, l))"
    "free_handlers u = free_handlers w - {i}" "engine_side u = engine_side w"
    "register_listener E src snk l w = call_engine E (RegisterListener src snk t
       (Extern_fn_message_handler i) (application_of w)) u"
    using register_listener_fresh [OF env ok t new room] by metis
  let ?cmd = "RegisterListener src snk t (Extern_fn_message_handler i) (application_of w)"
  obtain s j m where key: "registered_key (e_vs E) src snk t = Some (s, j, m)"
    using registered_key_exists [OF t] by blast
  have app_u: "vs_application_exists (e_vs E) (hist (u\<lparr>awaits := Suc (awaits u)\<rparr>)) (application_of w)"
    using engine_side_more(1) [OF u(5)] app by simp
  from engine_execute_register [OF this key, of "Extern_fn_message_handler i"]
  obtain calls v where
    v: "engine_execute E ?cmd (u\<lparr>awaits := Suc (awaits u)\<rparr>) = (Ok (), v)"
    "hist v = hist u @ calls @
      [RegisterMessageHandler (application_of w) s j m (Extern_fn_message_handler i)]"
    "\<not> list_ex touches_handlers calls" by auto
  have call: "call_engine E ?cmd u = (Ok (), v)"
    by (rule call_engine_prompt [OF _ v(1)]) (use prompt engine_side_prompt [OF u(5), of E] in simp_all)
  have "calm u" using prompt engine_side_prompt [OF u(5), of E] by (simp add: prompt_def calm_def)
  then have calm: "calm v" using call_engine_calm [of u ?cmd E] call by simp
  have idle: "queue v = []"
    using engine_execute_fields(1) [of E ?cmd "u\<lparr>awaits := Suc (awaits u)\<rparr>"] v(1) prompt
      engine_side_more(3) [OF u(5)] by (simp add: prompt_def)
  have "caller_side v = caller_side u"
    using call_engine_caller_side [of E ?cmd u] call by simp
  note eq = caller_side_handlers(2) [OF this, of E] caller_side_handlers(3-6,10) [OF this]
  have "handlers_ok E bm_ok v" "listeners E v i = Some (src, snk, l)"
    using transport_ok_call_engineD [OF call u(2)] eq(1) u(3) by (simp_all add: transport_ok_def)
  then have "message_handler_id_to_transport_storage (statics v) i = Some (self v)"
    unfolding handlers_ok_def storage_inv_def registry_inv_def listeners_def storage_view_def
    by (auto simp: dom_def)
  moreover have "application_of v = application_of w"
    using eq(5) engine_side_more(9) [OF u(5)] by (simp add: application_of_def)
  moreover have "self v = self w" using eq(3) engine_side_more(2) [OF u(5)] by simp
  moreover have "storage_get_listener_for_message_handler_id (e_bm E) (storage v) i = Some l"
    using bimap_spec.storage_listener_view [of "e_bm E" bm_ok "(statics v, storage v)" i] env
      \<open>listeners E v i = _\<close> by (simp add: env_ok_def listeners_def)
  moreover have "rpc_registry (storage v) = rpc_registry (storage w)"
    using engine_execute_register_rpc [of E src snk t "Extern_fn_message_handler i" "application_of w"
        "u\<lparr>awaits := Suc (awaits u)\<rparr>"] v(1) u(5) by (simp add: engine_side_def)
  ultimately show ?thesis
    using u call v(2,3) key eq engine_side_more(1,7) [OF u(5)] calm idle i
      transport_ok_call_engineD [OF call u(2)]
    by (intro exI [of _ i] exI [of _ v] exI [of _ s] exI [of _ j] exI [of _ m] exI [of _ calls]) simp
qed

text \<open>C7. Registering a listener that is not registered yet, with handlers left and the engine
  idle, succeeds.  It takes one free handler function, files the listener under it for this
  transport, and registers just that function with vsomeip under the filters' key, as the last
  call.  A message for the function is dispatched to the listener from then on.\<close>

theorem register_listener_files_and_registers:
  assumes env: "env_ok E bm_ok" and ok: "transport_ok E bm_ok w" and prompt: "prompt E w"
    and app: "vs_application_exists (e_vs E) (hist w) (application_of w)"
    and t: "determine_type (e_up E) src snk = Ok t" "t \<noteq> AllPointToPoint"
    and new: "(src, snk, l) \<notin> ran (listeners E w)" and room: "free_handlers w \<noteq> {}"
  shows "\<exists>i v s j m calls. register_listener E src snk l w = (Ok (), v) \<and>
    i \<in> free_handlers w \<and> free_handlers v = free_handlers w - {i} \<and>
    listeners E v = (listeners E w)(i \<mapsto> (src, snk, l)) \<and>
    storage_get_listener_for_message_handler_id (e_bm E) (storage v) i = Some l \<and>
    message_handler_id_to_transport_storage (statics v) i = Some (self w) \<and>
    registered_key (e_vs E) src snk t = Some (s, j, m) \<and>
    hist v = hist w @ calls @
      [RegisterMessageHandler (application_of w) s j m (Extern_fn_message_handler i)]"
  using register_listener_runs [OF assms] by metis

lemma some_message_handlers [simp]: "{..<num_message_handlers} \<noteq> {}"
  by (auto simp: num_message_handlers_def lessThan_empty_iff)

lemma demo_app_created [simp]: "list_ex (creates ''app'') demo_app"
  by (simp add: demo_app_def)

lemmas demo_simps = demo_env_ok demo_world_ok prompt_def low16_def split_u32_to_u16_eq demo_uri_def

theorem register_listener_files_and_registers_witness:
  "\<exists>i v m. register_listener (demo_env (\<lambda>_. 1)) (demo_uri 1 0x8001) None (Listener 3)
      (demo_world demo_app) = (Ok (), v) \<and>
    storage_get_listener_for_message_handler_id pair_bimap (storage v) i = Some (Listener 3) \<and>
    last (hist v) = RegisterMessageHandler ''app'' 1 1 0x8001 (Extern_fn_message_handler i)"
  using register_listener_files_and_registers [where E = "demo_env (\<lambda>_. 1)" and bm_ok = pairs_ok
      and w = "demo_world demo_app" and src = "demo_uri 1 0x8001" and snk = None and t = Publish
      and l = "Listener 3"]
  by (auto simp: demo_simps)

text \<open>C10. Unregistering a listener right after registering it restores the registry: the same
  listeners are filed as before and the same handler functions are free.  This needs neither
  an idle engine nor an answer in time, only an engine that is not about to die of a queued
  send or start.\<close>

theorem register_then_unregister_restores:
  assumes env: "env_ok E bm_ok" and ok: "transport_ok E bm_ok w"
    and t: "determine_type (e_up E) src snk = Ok t" "t \<noteq> AllPointToPoint"
    and registered: "register_listener E src snk l w = (Ok (), w1)" and calm: "calm w1"
  shows "\<exists>w2. unregister_listener E src snk l w1 = (Ok (), w2) \<and>
    listeners E w2 = listeners E w \<and> free_handlers w2 = free_handlers w"
proof -
  let ?c = "(src, snk, l)"
  have spec: "bimap_spec (e_bm E) bm_ok" and pick: "iterates_members (e_pick E)"
    and inv: "handlers_ok E bm_ok w"
    using env ok by (simp_all add: env_ok_def transport_ok_def)
  obtain i v where v: "i \<in> free_handlers w" "?c \<notin> ran (listeners E w)"
    "listeners E v = (listeners E w)(i \<mapsto> ?c)" "free_handlers v = free_handlers w - {i}"
    "register_listener E src snk l w = call_engine E (RegisterListener src snk t
       (Extern_fn_message_handler i) (application_of v)) v"
    using spec inv pick
    by (cases rule: get_handler_cases [of E bm_ok w ?c])
      (use registered t in \<open>auto simp: register_listener_def\<close>)
  have "caller_side w1 = caller_side v"
    using call_engine_caller_side registered v(5) by (metis snd_conv)
  note w1 = caller_side_handlers(2) [OF this, of E] caller_side_handlers(3) [OF this]
  have ok1: "transport_ok E bm_ok w1"
    using register_listener_ok [OF env ok, of src snk l] registered by simp
  have c: "not_point_to_point E ?c" using t by (simp add: not_point_to_point_def)
  let ?cmd = "UnregisterListener src snk t (application_of w1)"
  obtain q u where call: "call_engine E ?cmd w1 = (q, u)" by fastforce
  then have "caller_side u = caller_side w1"
    using call_engine_caller_side by (metis snd_conv)
  note u = caller_side_handlers(2) [OF this, of E] caller_side_handlers(3) [OF this]
  have q: "q \<noteq> Panic" and ok_u: "transport_ok E bm_ok u"
    using call_engine_calm [OF calm, of ?cmd E] call transport_ok_call_engineD [OF call ok1]
    by simp_all
  have vacant: "listeners E w i = None"
    using bimap_spec.storage_free_unused [OF spec, of "self w" "(statics w, storage w)" i] inv v(1)
    by (simp add: handlers_ok_def free_handlers_def listeners_def)
  have inv_u: "handlers_ok E bm_ok u" using ok_u by (simp add: transport_ok_def)
  have "?c \<in> ran (listeners E u)"
    using u(1) w1(1) v(3) ranI [of "listeners E u" i ?c] by simp
  with spec inv_u obtain j x where x: "listeners E u j = Some ?c" "release_handler E ?c u = (Ok (), x)"
    "listeners E x = (listeners E u)(j := None)" "free_handlers x = insert j (free_handlers u)"
    by (cases rule: release_handler_cases [of E bm_ok u ?c]) simp_all
  have "j = i" using x(1) u(1) w1(1) v(2,3) by (auto simp: ran_def split: if_splits)
  with x u w1 v vacant t q call show ?thesis
    by (intro exI [of _ x]) (cases q, auto simp: unregister_listener_def fun_eq_iff)
qed

lemma demo_registered:
  obtains i w1 where "register_listener (demo_env (\<lambda>_. 1)) (demo_uri 1 0x8001) None (Listener 3)
     (demo_world demo_app) = (Ok (), w1)" "calm w1" "transport_ok (demo_env (\<lambda>_. 1)) pairs_ok w1"
    "listeners (demo_env (\<lambda>_. 1)) w1 = [i \<mapsto> (demo_uri 1 0x8001, None, Listener 3)]" "runtime_running w1"
proof -
  obtain i w1 where w1: "register_listener (demo_env (\<lambda>_. 1)) (demo_uri 1 0x8001) None (Listener 3)
     (demo_world demo_app) = (Ok (), w1)" "calm w1"
    "listeners (demo_env (\<lambda>_. 1)) w1 = [i \<mapsto> (demo_uri 1 0x8001, None, Listener 3)]" "runtime_running w1"
    using register_listener_runs [where E = "demo_env (\<lambda>_. 1)" and bm_ok = pairs_ok
      and w = "demo_world demo_app" and src = "demo_uri 1 0x8001" and snk = None and t = Publish
      and l = "Listener 3"]
    by (auto simp: demo_simps)
  with register_listener_ok [OF demo_env_ok demo_world_ok(1), of "\<lambda>_. 1" "demo_uri 1 0x8001" None
      "Listener 3" demo_app] that show ?thesis by simp
qed

theorem register_then_unregister_restores_witness:
  "\<exists>w1 w2. register_listener (demo_env (\<lambda>_. 1)) (demo_uri 1 0x8001) None (Listener 3)
      (demo_world demo_app) = (Ok (), w1) \<and>
    unregister_listener (demo_env (\<lambda>_. 1)) (demo_uri 1 0x8001) None (Listener 3) w1 = (Ok (), w2) \<and>
    listeners (demo_env (\<lambda>_. 1)) w2 = Map.empty"
proof -
  obtain w1 where w1: "register_listener (demo_env (\<lambda>_. 1)) (demo_uri 1 0x8001) None (Listener 3)
      (demo_world demo_app) = (Ok (), w1)" "calm w1" by (rule demo_registered)
  with register_then_unregister_restores [OF demo_env_ok demo_world_ok(1) _ _ w1, of Publish]
  show ?thesis by (auto simp: demo_world_ok)
qed

text \<open>Registering a listener a second time under the same filters is refused with INTERNAL; it
  changes nothing and does not reach the engine.  So is any registration when no handler
  function is free.\<close>

theorem register_listener_refused:
  assumes "env_ok E bm_ok" "transport_ok E bm_ok w"
    and "determine_type (e_up E) src snk = Ok t" "t \<noteq> AllPointToPoint"
    and "(src, snk, l) \<in> ran (listeners E w) \<or> free_handlers w = {}"
  shows "register_listener E src snk l w = (Err INTERNAL, w)"
proof -
  have "bimap_spec (e_bm E) bm_ok" "handlers_ok E bm_ok w" "iterates_members (e_pick E)"
    using assms(1,2) by (simp_all add: env_ok_def transport_ok_def)
  then show ?thesis
    by (cases rule: get_handler_cases [of E bm_ok w "(src, snk, l)"])
      (use assms(3-5) in \<open>auto simp: register_listener_def\<close>)
qed


theorem register_listener_refused_witness:
  "\<exists>w1. register_listener (demo_env (\<lambda>_. 1)) (demo_uri 1 0x8001) None (Listener 3)
      (demo_world demo_app) = (Ok (), w1) \<and>
    register_listener (demo_env (\<lambda>_. 1)) (demo_uri 1 0x8001) None (Listener 3) w1 =
      (Err INTERNAL, w1)"
proof -
  obtain i w1 where w1: "register_listener (demo_env (\<lambda>_. 1)) (demo_uri 1 0x8001) None (Listener 3)
     (demo_world demo_app) = (Ok (), w1)" "transport_ok (demo_env (\<lambda>_. 1)) pairs_ok w1"
    "listeners (demo_env (\<lambda>_. 1)) w1 = [i \<mapsto> (demo_uri 1 0x8001, None, Listener 3)]"
    by (rule demo_registered)
  with register_listener_refused [OF demo_env_ok w1(2), of "demo_uri 1 0x8001" None Publish
      "Listener 3"] show ?thesis by simp
qed

text \<open>A registration the engine refuses because the application does not exist fails with
  INTERNAL, and yet the listener stays filed and its handler function stays taken: the method
  does not give back what it took.\<close>

theorem failed_registration_keeps_the_handler:
  assumes env: "env_ok E bm_ok" and ok: "transport_ok E bm_ok w" and prompt: "prompt E w"
    and app: "\<not> vs_application_exists (e_vs E) (hist w) (application_of w)"
    and t: "determine_type (e_up E) src snk = Ok t" "t \<noteq> AllPointToPoint"
    and new: "(src, snk, l) \<notin> ran (listeners E w)" and room: "free_handlers w \<noteq> {}"
  shows "\<exists>i v. register_listener E src snk l w = (Err INTERNAL, v) \<and> i \<in> free_handlers w \<and>
    listeners E v = (listeners E w)(i \<mapsto> (src, snk, l)) \<and>
    free_handlers v = free_handlers w - {i} \<and> hist v = hist w"
proof -
  obtain i u where u: "i \<in> free_handlers w"
    "listeners E u = (listeners E w)(i \<mapsto> (src, snk, l))"
    "free_handlers u = free_handlers w - {i}" "engine_side u = engine_side w"
    "register_listener E src snk l w = call_engine E (RegisterListener src snk t
       (Extern_fn_message_handler i) (application_of w)) u"
    using register_listener_fresh [OF env ok t new room] by metis
  let ?cmd = "RegisterListener src snk t (Extern_fn_message_handler i) (application_of w)"
  let ?u = "u\<lparr>awaits := Suc (awaits u)\<rparr>"
  have "engine_execute E ?cmd ?u = (Err INTERNAL, ?u)"
    using app engine_side_more(1) [OF u(4)] by (simp add: engine_execute_def execute_def)
  then have call: "call_engine E ?cmd u = (Err INTERNAL, ?u)"
    by (rule call_engine_prompt [rotated]) (use prompt engine_side_prompt [OF u(4), of E] in simp_all)
  have "caller_side ?u = caller_side u" by simp
  note eq = caller_side_handlers(2) [OF this, of E] caller_side_handlers(3) [OF this]
  show ?thesis
    using u call eq engine_side_more(1) [OF u(4)] by (intro exI [of _ i] exI [of _ ?u]) simp
qed

theorem failed_registration_keeps_the_handler_witness:
  "\<exists>i v. register_listener (demo_env (\<lambda>_. 1)) (demo_uri 1 0x8001) None (Listener 3)
      (demo_world []) = (Err INTERNAL, v) \<and>
    free_handlers v = {..<num_message_handlers} - {i} \<and> i < num_message_handlers"
  using failed_registration_keeps_the_handler [where E = "demo_env (\<lambda>_. 1)" and bm_ok = pairs_ok
      and w = "demo_world []" and src = "demo_uri 1 0x8001" and snk = None and t = Publish
      and l = "Listener 3"]
  by (auto simp: demo_simps)

text \<open>C11. While the engine is alive and has no message to send and no application to start in its
  channel, unregistering a listener, whether it was registered or not, returns Ok and forgets it:
  also when the engine is too slow, when it answers with an error, and when the registry does not
  know the listener.  No other listener is forgotten and no free handler function is lost.\<close>

theorem unregister_listener_always_forgets:
  assumes "env_ok E bm_ok" "transport_ok E bm_ok w" "calm w"
    and "determine_type (e_up E) src snk \<noteq> Ok AllPointToPoint"
  shows "\<exists>v. unregister_listener E src snk l w = (Ok (), v) \<and>
    ran (listeners E v) = ran (listeners E w) - {(src, snk, l)} \<and>
    free_handlers w \<subseteq> free_handlers v \<and> transport_ok E bm_ok v \<and> calm v"
proof -
  have "not_point_to_point E (src, snk, l)" using assms(4) by (simp add: not_point_to_point_def)
  from unregister_listener_released [OF assms(1,2) this] assms(3) show ?thesis by metis
qed

theorem unregister_listener_always_forgets_witness:
  "\<exists>v. unregister_listener (demo_env (\<lambda>_. 0)) (demo_uri 1 0x8001) None (Listener 3)
      (demo_world []) = (Ok (), v) \<and> listeners (demo_env (\<lambda>_. 0)) v = Map.empty"
  using unregister_listener_always_forgets [where E = "demo_env (\<lambda>_. 0)" and bm_ok = pairs_ok
      and w = "demo_world []" and src = "demo_uri 1 0x8001" and snk = None and l = "Listener 3"]
  by (auto simp: demo_simps calm_def ran_empty_iff)

subsection \<open>The invariant and the end of a transport\<close>

text \<open>The methods of a transport keep its invariant, whatever the engine does and whatever they
  return: the handler registry and the process-wide statics fit together, and no listener is
  filed under point-to-point filters.\<close>

theorem transport_methods_keep_invariant:
  assumes "env_ok E bm_ok" "transport_ok E bm_ok w"
  shows "transport_ok E bm_ok (snd (register_listener E src snk l w)) \<and>
    transport_ok E bm_ok (snd (unregister_listener E src snk l w)) \<and>
    transport_ok E bm_ok (snd (send E umsg w))"
  using assms by (simp add: register_listener_ok unregister_listener_ok send_ok)

theorem transport_methods_keep_invariant_witness:
  "transport_ok (demo_env (\<lambda>_. 0)) pairs_ok (snd (register_listener (demo_env (\<lambda>_. 0))
      (demo_uri 1 0x8001) None (Listener 3) (demo_world [])))"
  using transport_methods_keep_invariant [OF demo_env_ok demo_world_ok(1)] by blast

text \<open>C12. Dropping a transport whose runtime runs, whatever its engine does.  If Drop comes to its
  end, all listeners are forgotten and all their handler functions given back: the process-wide
  table has no entry of this transport any more, so no message can be dispatched to it, and no
  function that was free is lost.  It comes to its end if the engine is alive and has no message
  to send and no application to start in its channel, however slow it is.  Otherwise Drop can
  panic, but only because the engine has stopped; and if the engine had stopped before, and its
  channel is empty, Drop always panics and releases nothing: the state is as it was.\<close>

theorem drop_releases_everything:
  assumes "env_ok E bm_ok" "transport_ok E bm_ok w" "runtime_running w"
  shows "\<exists>r v. drop_transport E w = (r, v) \<and>
    (r = Ok () \<longrightarrow> listeners E v = Map.empty \<and>
       (\<forall>i. message_handler_id_to_transport_storage (statics v) i \<noteq> Some (self w)) \<and>
       free_handlers w \<subseteq> free_handlers v \<and> \<not> runtime_running v) \<and>
    (calm w \<longrightarrow> r = Ok ()) \<and> (r \<noteq> Ok () \<longrightarrow> r = Panic \<and> \<not> engine_alive v) \<and>
    (\<not> engine_alive w \<and> queue w = [] \<longrightarrow> r = Panic \<and> v = w)"
  using drop_transport_dead [OF assms(1,2)]
  by (cases rule: drop_transport_released [OF assms]) auto

theorem drop_releases_everything_witness:
  "\<exists>w1 v. register_listener (demo_env (\<lambda>_. 1)) (demo_uri 1 0x8001) None (Listener 3)
      (demo_world demo_app) = (Ok (), w1) \<and>
    drop_transport (demo_env (\<lambda>_. 1)) w1 = (Ok (), v) \<and>
    listeners (demo_env (\<lambda>_. 1)) v = Map.empty"
proof -
  obtain w1 where w1: "register_listener (demo_env (\<lambda>_. 1)) (demo_uri 1 0x8001) None (Listener 3)
     (demo_world demo_app) = (Ok (), w1)" "calm w1" "transport_ok (demo_env (\<lambda>_. 1)) pairs_ok w1"
    and running: "runtime_running w1"
    by (rule demo_registered)
  with drop_releases_everything [OF demo_env_ok w1(3)] show ?thesis by auto
qed

subsection \<open>A slow engine and a dead engine\<close>

text \<open>C37. When the engine does not get to a registration within the three seconds, the caller is told
  DEADLINE\_EXCEEDED, but the command stays queued: once the engine gets to it, the listener's
  function is registered with vsomeip after all.\<close>

theorem timed_out_registration_happens_later:
  assumes env: "env_ok E bm_ok" and ok: "transport_ok E bm_ok w"
    and slow: "engine_alive w" "queue w = []" "e_slots E (awaits w) = 0"
    and app: "vs_application_exists (e_vs E) (hist w) (application_of w)"
    and t: "determine_type (e_up E) src snk = Ok t" "t \<noteq> AllPointToPoint"
    and new: "(src, snk, l) \<notin> ran (listeners E w)" and room: "free_handlers w \<noteq> {}"
  shows "\<exists>i v v' s j m calls. register_listener E src snk l w = (Err DEADLINE_EXCEEDED, v) \<and>
    hist v = hist w \<and>
    queue v = [RegisterListener src snk t (Extern_fn_message_handler i) (application_of w)] \<and>
    listeners E v = (listeners E w)(i \<mapsto> (src, snk, l)) \<and>
    engine_run E 1 v = (Some (Ok ()), v') \<and>
    hist v' = hist w @ calls @
      [RegisterMessageHandler (application_of w) s j m (Extern_fn_message_handler i)]"
proof -
  obtain i u where u: "i \<in> free_handlers w" "transport_ok E bm_ok u"
    "listeners E u = (listeners E w)(i \<mapsto> (src, snk, l))" "engine_side u = engine_side w"
    "register_listener E src snk l w = call_engine E (RegisterListener src snk t
       (Extern_fn_message_handler i) (application_of w)) u"
    using register_listener_fresh [OF env ok t new room] by metis
  let ?cmd = "RegisterListener src snk t (Extern_fn_message_handler i) (application_of w)"
  let ?v = "u\<lparr>queue := [?cmd], awaits := Suc (awaits u)\<rparr>"
  note side = engine_side_more [OF u(4)]
  have call: "call_engine E ?cmd u = (Err DEADLINE_EXCEEDED, ?v)"
    using slow side by (simp add: call_engine_def send_to_engine_with_status_def
        channel_capacity_def await_engine_def)
  obtain s j m where key: "registered_key (e_vs E) src snk t = Some (s, j, m)"
    using registered_key_exists [OF t] by blast
  have "vs_application_exists (e_vs E) (hist (?v\<lparr>queue := []\<rparr>)) (application_of w)"
    using app side(1) by simp
  from engine_execute_register [OF this key, of "Extern_fn_message_handler i"]
  obtain calls v' where v': "engine_execute E ?cmd (?v\<lparr>queue := []\<rparr>) = (Ok (), v')"
    "hist v' = hist w @ calls @
      [RegisterMessageHandler (application_of w) s j m (Extern_fn_message_handler i)]"
    using side(1) by auto
  then have "engine_run E 1 ?v = (Some (Ok ()), v')" by simp
  moreover have "listeners E ?v = listeners E u" by (simp add: listeners_def)
  ultimately show ?thesis
    using u(3,5) call v'(2) side(1)
    by (intro exI [of _ i] exI [of _ ?v] exI [of _ v'] exI [of _ s] exI [of _ j] exI [of _ m]
        exI [of _ calls]) simp
qed

theorem timed_out_registration_happens_later_witness:
  "\<exists>i v v' s j m calls. register_listener (demo_env (\<lambda>_. 0)) (demo_uri 1 0x8001) None (Listener 3)
      (demo_world demo_app) = (Err DEADLINE_EXCEEDED, v) \<and> hist v = demo_app \<and>
    engine_run (demo_env (\<lambda>_. 0)) 1 v = (Some (Ok ()), v') \<and>
    hist v' = demo_app @ calls @
      [RegisterMessageHandler ''app'' s j m (Extern_fn_message_handler i)]"
  using timed_out_registration_happens_later [where E = "demo_env (\<lambda>_. 0)" and bm_ok = pairs_ok
      and w = "demo_world demo_app" and src = "demo_uri 1 0x8001" and snk = None and t = Publish
      and l = "Listener 3"]
  by (fastforce simp: demo_simps simp del: engine_run.simps)

text \<open>C34. In a build with overflow checks, one request sent when the session counter stands at
  65535 ends the engine: the sender is told INTERNAL, and the next attempt to unregister a
  listener, any listener, panics in the caller's thread.\<close>

theorem session_overflow_stops_the_transport:
  assumes prompt: "prompt E w" and p2p: "point_to_point_listener w = None"
    and app: "vs_application_exists (e_vs E) (hist w) (application_of w)"
    and checks: "e_overflow_checks E"
    and full: "session_table w (vs_get_client (e_vs E) (hist w) (application_of w)) = Some 0xFFFF"
    and umsg: "attributes umsg = Some a" "u_validate_attributes (e_up E) a"
      "msg_type a = Some UMESSAGE_TYPE_REQUEST" "msg_source a = Some src"
      "msg_sink a = Some snk" "msg_id a = Some i"
    and t: "determine_type (e_up E) src' snk' \<noteq> Ok AllPointToPoint"
  shows "\<exists>v. send E umsg w = (Err INTERNAL, v) \<and> \<not> engine_alive v \<and> hist v = hist w \<and>
    unregister_listener E src' snk' l v = (Panic, v)"
proof -
  obtain mt where mt: "determine_type (e_up E) src (Some snk) = Ok mt"
    using determine_type_total by blast
  let ?cmd = "Send umsg mt (application_of w)"
  let ?w = "w\<lparr>awaits := Suc (awaits w), queue := []\<rparr>"
  have "fst (engine_execute E ?cmd ?w) = Panic"
    using app checks full umsg
    by (simp add: engine_execute_def execute_def send_panic_iff table_defs)
  moreover have "hist (snd (send_internal (e_up E) (e_vs E) (e_overflow_checks E) umsg
      (application_of w) ?w)) = hist w"
    using umsg(1,3) conversions_quiet(4) [of "e_up E" "e_vs E" "e_overflow_checks E" umsg
      "application_of w" ?w] calculation app
    by (simp add: engine_execute_def execute_def send_internal_def Let_def and_then_panic_state)
  ultimately obtain u where u: "engine_execute E ?cmd ?w = (Panic, u)" "hist u = hist w"
    using app by (cases "engine_execute E ?cmd ?w") (auto simp: engine_execute_def execute_def)
  let ?v = "u\<lparr>queue := [], engine_alive := False\<rparr>"
  obtain n where n: "e_slots E (awaits w) = Suc n"
    using prompt by (cases "e_slots E (awaits w)") (auto simp: prompt_def)
  have "call_engine E ?cmd w = (Err INTERNAL, ?v)"
    using prompt n u(1)
    by (simp add: call_engine_def send_to_engine_with_status_def await_engine_def prompt_def
        channel_capacity_def)
  then have "send E umsg w = (Err INTERNAL, ?v)"
    using umsg mt p2p by (simp add: send_def register_for_returning_response_def)
  moreover obtain t' where "determine_type (e_up E) src' snk' = Ok t'" "t' \<noteq> AllPointToPoint"
    using determine_type_total t by metis
  then have "unregister_listener E src' snk' l ?v = (Panic, ?v)"
    by (simp add: unregister_listener_def call_engine_dead)
  ultimately show ?thesis using u(2) by (intro exI [of _ ?v]) simp
qed


definition demo_exhausted :: "pairs world" where
  "demo_exhausted = (demo_world demo_app)\<lparr>storage := (storage (demo_world demo_app))
     \<lparr>rpc_registry := rpc_correlation_new\<lparr>client_id_session_id_tracking := [0x0345 \<mapsto> 0xFFFF]\<rparr>\<rparr>\<rparr>"

theorem session_overflow_stops_the_transport_witness:
  "\<exists>v. send (demo_env (\<lambda>_. 1)) (demo_message UMESSAGE_TYPE_REQUEST (demo_uri 0x11 0)
      (Some (demo_uri 0x22 0x33)) None) demo_exhausted = (Err INTERNAL, v) \<and>
    unregister_listener (demo_env (\<lambda>_. 1)) (demo_uri 1 0x8001) None (Listener 3) v = (Panic, v)"
proof -
  have "application_of demo_exhausted = ''app''"
    by (simp add: demo_exhausted_def application_of_def demo_world_def transport_storage_new_def)
  then show ?thesis
    using session_overflow_stops_the_transport [where E = "demo_env (\<lambda>_. 1)" and
        w = demo_exhausted and umsg = "demo_message UMESSAGE_TYPE_REQUEST (demo_uri 0x11 0)
          (Some (demo_uri 0x22 0x33)) None" and src' = "demo_uri 1 0x8001" and snk' = None
        and l = "Listener 3"]
    by (fastforce simp: demo_exhausted_def prompt_def table_defs demo_message_def ref_up_rust_def)
qed

subsection \<open>Point-to-point listeners\<close>

lemma unregister_services_keeps_listener:
  assumes env: "env_ok E bm_ok"
  shows "transport_ok E bm_ok w \<Longrightarrow> calm w \<Longrightarrow>
    \<exists>v. unregister_services E l cs w = (Ok (), v) \<and>
      point_to_point_listener v = point_to_point_listener w \<and> config_path v = config_path w"
proof (induction cs arbitrary: w)
  case (Cons c cs)
  let ?snk = "any_uuri_fixed_authority_id (get_local_authority (storage w)) (service_ue_id c)"
  obtain t where t: "determine_type (e_up E) (u_any (e_up E)) (Some ?snk) = Ok t"
    using determine_type_total by blast
  let ?cmd = "UnregisterListener (u_any (e_up E)) (Some ?snk) t (application_of w)"
  obtain q u where call: "call_engine E ?cmd w = (q, u)" by fastforce
  obtain r v where release: "release_handler E (u_any (e_up E), Some ?snk, l) u = (r, v)"
    by fastforce
  have u: "calm u" "q \<noteq> Panic" "transport_ok E bm_ok u"
    using call_engine_calm [OF Cons.prems(2), of ?cmd E] call
      transport_ok_call_engineD [OF call Cons.prems(1)] by simp_all
  have "caller_side u = caller_side w"
    using call_engine_caller_side [of E ?cmd w] call by simp
  note eq = caller_side_handlers(8,9) [OF this]
  have side: "engine_side v = engine_side u"
    using release_handler_engine_side [of E _ u] release by (metis snd_conv)
  note v = transport_ok_release_handler(1) [OF env u(3) release] engine_side_more(5,6,14) [OF side]
  have "calm v" using v(4) u(1) by simp
  from Cons.IH [OF v(1) this] Cons.IH [OF u(3,1)] t call release u(2) eq v
  show ?case by (cases q) auto
qed simp

definition streamer_uri :: "string \<Rightarrow> uuri" where
  "streamer_uri a = \<lparr>authority_name = a, ue_id = 0xFFFFFFFF, ue_version_major = 0xFF,
     resource_id = 0xFFFF\<rparr>"

lemma streamer_type:
  "determine_type ref_up_rust (streamer_uri ''a'') (Some (streamer_uri ''b'')) = Ok AllPointToPoint"
  by (simp add: determine_type_Some streamer_filters_def wildcard_below_authority_def ref_up_rust_def
      streamer_uri_def)

lemma demo_services:
  "extract_services demo_json_api ''cfg'' = Ok [\<lparr>sc_service = 0x10, sc_instance = 1\<rparr>]"
  by (simp add: extract_services_def read_json_file_def demo_json_api_def demo_file_def
      service_from_value_def deserialize_hex_u16_def u16_from_str_radix_16_def to_digit_16_def)

lemma register_services_keeps_listener:
  "point_to_point_listener (snd (register_services E l cs w)) = point_to_point_listener w \<and>
   config_path (snd (register_services E l cs w)) = config_path w"
proof (induction cs arbitrary: w)
  case (Cons c cs)
  let ?snk = "any_uuri_fixed_authority_id (get_local_authority (storage w)) (service_ue_id c)"
  obtain r v where get: "get_handler E (u_any (e_up E), Some ?snk, l) w = (r, v)" by fastforce
  then have "engine_side v = engine_side w"
    using get_handler_engine_side by (metis snd_conv)
  note v = engine_side_more(5,6) [OF this]
  show ?case
  proof (cases r)
    case (Ok h)
    let ?cmd = "RegisterListener (u_any (e_up E)) (Some ?snk) Request h (application_of v)"
    obtain q u where call: "call_engine E ?cmd v = (q, u)" by fastforce
    then have "caller_side u = caller_side v"
      using call_engine_caller_side by (metis snd_conv)
    note u = caller_side_handlers(8,9) [OF this]
    from Cons.IH [of u] get Ok call u v show ?thesis by (cases q) simp_all
  qed (use get v in simp_all)
qed simp

text \<open>Registering a point-to-point listener sets it before the configured services are
  registered, and nothing takes it back: whether the method succeeds, fails on one of the
  services or panics, the listener stays set and can not be registered again.\<close>

theorem point_to_point_registration_is_not_undone:
  assumes "config_path w = Some path" "extract_services (e_json E) path = Ok cs"
    and "point_to_point_listener w = None"
    and "determine_type (e_up E) src snk = Ok AllPointToPoint"
  shows "\<exists>r v. register_listener E src snk l w = (r, v) \<and> point_to_point_listener v = Some l \<and>
    register_listener E src snk l v = (Err ALREADY_EXISTS, v)"
proof -
  obtain r v where rv: "register_services E l cs (w\<lparr>point_to_point_listener := Some l\<rparr>) = (r, v)"
    by fastforce
  then have "point_to_point_listener v = Some l" "config_path v = Some path"
    using register_services_keeps_listener [of E l cs "w\<lparr>point_to_point_listener := Some l\<rparr>"]
      assms(1) by simp_all
  with rv assms show ?thesis
    by (simp add: register_listener_def register_point_to_point_listener_def)
qed

theorem point_to_point_registration_is_not_undone_witness:
  "\<exists>r v. register_listener (demo_env (\<lambda>_. 1)) (streamer_uri ''a'') (Some (streamer_uri ''b''))
      (Listener 1) (demo_world []) = (r, v) \<and>
    register_listener (demo_env (\<lambda>_. 1)) (streamer_uri ''a'') (Some (streamer_uri ''b''))
      (Listener 1) v = (Err ALREADY_EXISTS, v)"
  using point_to_point_registration_is_not_undone [where E = "demo_env (\<lambda>_. 1)"
      and w = "demo_world []" and l = "Listener 1" and path = "''cfg''"
      and src = "streamer_uri ''a''" and snk = "Some (streamer_uri ''b'')"]
  by (fastforce simp: streamer_type demo_services)

text \<open>C30. While a point-to-point listener is set, sending a request first registers that listener for
  the answer: it is filed under the request's addresses with source and sink swapped, and its
  handler function is registered with vsomeip as a response handler of the service and method
  the request goes to.  Sending the same request again does not register it again.\<close>

theorem request_registers_returning_response:
  assumes env: "env_ok E bm_ok" and ok: "transport_ok E bm_ok w" and prompt: "prompt E w"
    and app: "vs_application_exists (e_vs E) (hist w) (application_of w)"
    and p2p: "point_to_point_listener w = Some l"
    and t: "determine_type (e_up E) src (Some snk) = Ok Request"
    and new: "(snk, Some src, l) \<notin> ran (listeners E w)" and room: "1 < card (free_handlers w)"
  shows "\<exists>i v calls. register_for_returning_response E src (Some snk) Request w = (Ok True, v) \<and>
    listeners E v = (listeners E w)(i \<mapsto> (snk, Some src, l)) \<and> i \<in> free_handlers w \<and>
    hist v = hist w @ calls @ [RegisterMessageHandler (application_of w) (ucast (ue_id snk))
      (ANY_INSTANCE (e_vs E)) (ucast (resource_id snk)) (Extern_fn_message_handler i)] \<and>
    register_for_returning_response E src (Some snk) Request v = (Ok True, v)"
proof -
  let ?c = "(snk, Some src, l)"
  have spec: "bimap_spec (e_bm E) bm_ok" and pick: "iterates_members (e_pick E)"
    and inv: "handlers_ok E bm_ok w"
    using env ok by (simp_all add: env_ok_def transport_ok_def)
  have "determine_type (e_up E) src (Some snk) \<noteq> Ok AllPointToPoint" using t by simp
  from determine_type_not_point_to_point_swap [OF this]
  have c: "not_point_to_point E ?c" by (simp add: not_point_to_point_def)
  obtain i u where u: "i \<in> free_handlers w" "get_handler E ?c w = (Ok (Extern_fn_message_handler i), u)"
    "listeners E u = (listeners E w)(i \<mapsto> ?c)" "engine_side u = engine_side w"
    "free_handlers u = free_handlers w - {i}"
    using spec inv pick
    by (cases rule: get_handler_cases [of E bm_ok w ?c]) (use new room in auto)
  have "card (free_handlers u) = card (free_handlers w) - 1"
    using u(1,5) by (simp add: card_Diff_singleton)
  then have room_u: "free_handlers u \<noteq> {}" using room by auto
  note ok_u = transport_ok_get_handler(1) [OF env ok c u(2)]
  note side = engine_side_more [OF u(4)]
  have app_u: "application_of u = application_of w" using u(4) by (rule engine_side_application)
  let ?cmd = "RegisterListener snk (Some src) Response (Extern_fn_message_handler i) (application_of w)"
  have key: "registered_key (e_vs E) snk (Some src) Response =
      Some (ucast (ue_id snk), ANY_INSTANCE (e_vs E), ucast (resource_id snk))"
    by (simp add: low16_def snd_split_u32_to_u16)
  have "vs_application_exists (e_vs E) (hist (u\<lparr>awaits := Suc (awaits u)\<rparr>)) (application_of w)"
    using app side(1) by simp
  from engine_execute_register [OF this key, of "Extern_fn_message_handler i"] side(1)
  obtain calls v where
    v: "engine_execute E ?cmd (u\<lparr>awaits := Suc (awaits u)\<rparr>) = (Ok (), v)"
    "hist v = hist w @ calls @ [RegisterMessageHandler (application_of w) (ucast (ue_id snk))
      (ANY_INSTANCE (e_vs E)) (ucast (resource_id snk)) (Extern_fn_message_handler i)]" by auto
  have call: "call_engine E ?cmd u = (Ok (), v)"
    by (rule call_engine_prompt [OF _ v(1)])
      (use prompt engine_side_prompt [OF u(4), of E] in simp_all)
  then have "caller_side v = caller_side u" using call_engine_caller_side by (metis snd_conv)
  note eq = caller_side_handlers(2) [OF this, of E] caller_side_handlers(3,8) [OF this]
  have dup: "?c \<in> ran (listeners E v)" using eq(1) u(3) ranI [of "listeners E u" i ?c] by simp
  have inv_v: "handlers_ok E bm_ok v"
    using transport_ok_call_engineD [OF call ok_u] by (simp add: transport_ok_def)
  have "register_for_returning_response E src (Some snk) Request v = (Ok True, v)"
    using spec inv_v pick
    by (cases rule: get_handler_cases [of E bm_ok v ?c])
      (use dup eq(2,3) room_u side(5) p2p in
        \<open>simp_all add: register_for_returning_response_def\<close>)
  moreover have "register_for_returning_response E src (Some snk) Request w = (Ok True, v)"
    using p2p u(2) call app_u by (simp add: register_for_returning_response_def)
  ultimately show ?thesis
    using u(1,3) eq(1) v(2) by (intro exI [of _ i] exI [of _ v] exI [of _ calls]) simp
qed

theorem request_registers_returning_response_witness:
  "\<exists>i v. register_for_returning_response (demo_env (\<lambda>_. 1)) (demo_uri 0x11 0)
      (Some (demo_uri 0x22 0x33)) Request
      ((demo_world demo_app)\<lparr>point_to_point_listener := Some (Listener 1)\<rparr>) = (Ok True, v) \<and>
    listeners (demo_env (\<lambda>_. 1)) v = [i \<mapsto> (demo_uri 0x22 0x33, Some (demo_uri 0x11 0), Listener 1)]"
proof -
  let ?w = "(demo_world demo_app)\<lparr>point_to_point_listener := Some (Listener 1)\<rparr>"
  have "determine_type ref_up_rust (demo_uri 0x11 0) (Some (demo_uri 0x22 0x33)) = Ok Request"
    by (simp add: determine_type_Some streamer_filters_def wildcard_below_authority_def
        ref_up_rust_def demo_uri_def)
  moreover have "listeners (demo_env s) ?w = Map.empty"
    "free_handlers ?w = {..<num_message_handlers}" "application_of ?w = ''app''" for s
    using demo_world_ok(2) [of s demo_app] demo_world_ok(3) [of demo_app]
    by (simp_all add: listeners_def free_handlers_def application_of_def demo_world_def
        transport_storage_new_def)
  ultimately show ?thesis
    using request_registers_returning_response [where E = "demo_env (\<lambda>_. 1)" and bm_ok = pairs_ok
        and w = ?w and src = "demo_uri 0x11 0" and snk = "demo_uri 0x22 0x33" and l = "Listener 1"]
    by (fastforce simp: demo_env_ok demo_world_ok prompt_def num_message_handlers_def)
qed

text \<open>When no handler function is free, sending a request while a point-to-point listener is set
  fails with INTERNAL, even when the listener for the answer is registered already: the
  registry looks for a free function before it looks for a duplicate.\<close>

theorem request_fails_without_free_handler:
  assumes "env_ok E bm_ok" "transport_ok E bm_ok w"
    and "point_to_point_listener w = Some l" "free_handlers w = {}"
    and "attributes umsg = Some a" "u_validate_attributes (e_up E) a"
      "msg_source a = Some src" "msg_sink a = Some snk"
    and "determine_type (e_up E) src (Some snk) = Ok Request"
  shows "send E umsg w = (Err INTERNAL, w)"
proof -
  have "bimap_spec (e_bm E) bm_ok" "handlers_ok E bm_ok w" "iterates_members (e_pick E)"
    using assms(1,2) by (simp_all add: env_ok_def transport_ok_def)
  then have "get_handler E (snk, Some src, l) w = (Err (OtherError RESOURCE_EXHAUSTED), w)"
    by (cases rule: get_handler_cases [of E bm_ok w "(snk, Some src, l)"])
      (use assms(4) in simp_all)
  with assms show ?thesis
    by (simp add: send_def register_for_returning_response_def)
qed

text \<open>Statics in which another transport holds every handler function.\<close>

definition exhausted_statics :: statics where
  "exhausted_statics = statics_init\<lparr>free_message_handler_ids := {},
     message_handler_id_to_transport_storage :=
       (\<lambda>i. if i < num_message_handlers then Some 99 else None)\<rparr>"

definition exhausted_world :: "pairs world" where
  "exhausted_world = (fresh_world (demo_env (\<lambda>_. 1)) 0 \<lparr>app_name = ''app'', app_id = 1\<rparr>
     (demo_uri 0x10 0) ''remote'' (Some ''cfg'') (exhausted_statics, demo_app))
       \<lparr>point_to_point_listener := Some (Listener 1)\<rparr>"

lemma exhausted_statics_ok:
  "statics_ok exhausted_statics" "0 \<notin> ran (message_handler_id_to_transport_storage exhausted_statics)"
  by (auto simp: exhausted_statics_def statics_ok_def ran_def split: if_splits)

theorem request_fails_without_free_handler_witness:
  "send (demo_env (\<lambda>_. 1)) (demo_message UMESSAGE_TYPE_REQUEST (demo_uri 0x11 0)
      (Some (demo_uri 0x22 0x33)) None) exhausted_world = (Err INTERNAL, exhausted_world)"
proof -
  have "transport_ok (demo_env (\<lambda>_. 1)) pairs_ok exhausted_world"
    using fresh_world_ok(1) [OF demo_env_ok exhausted_statics_ok, of "\<lambda>_. 1"]
    by (simp add: exhausted_world_def)
  moreover have "free_handlers exhausted_world = {}"
    by (simp add: exhausted_world_def free_handlers_def exhausted_statics_def)
  moreover have "determine_type ref_up_rust (demo_uri 0x11 0) (Some (demo_uri 0x22 0x33)) = Ok Request"
    by (simp add: determine_type_Some streamer_filters_def wildcard_below_authority_def
        ref_up_rust_def demo_uri_def)
  ultimately show ?thesis
    using request_fails_without_free_handler [OF demo_env_ok, of "\<lambda>_. 1" exhausted_world "Listener 1"
      "demo_message UMESSAGE_TYPE_REQUEST (demo_uri 0x11 0) (Some (demo_uri 0x22 0x33)) None"]
    by (fastforce simp: demo_message_def exhausted_world_def ref_up_rust_def)
qed

subsection \<open>Making a transport\<close>

lemma engine_start_prompt:
  assumes "prompt E w" "engine_config_path w = None"
    and "start_vsomeip_app_internal (e_vs E) (e_pick E) app None (w\<lparr>awaits := Suc (awaits w)\<rparr>) = (r, v)"
    and "r \<noteq> Panic"
  shows "call_engine E (StartVsomeipApp c app) w = (r, v)"
  using assms by (intro call_engine_prompt) (simp_all add: engine_execute_def execute_def)

text \<open>A transport is not made, and nothing in the process changes, when the major version of its
  address does not fit into eight bits or the address is not that of an RPC response; a
  configuration file that does not exist is noticed first.\<close>

theorem new_rejects_bad_input:
  assumes "\<not> ue_version_major u < 256 \<or> \<not> u_verify_rpc_response (e_up E) u"
  shows "new E me c u r rc s = (Err INVALID_ARGUMENT, s) \<and>
    new_with_config E me u r path rc s =
      (Err (if \<not> j_exists (e_json E) path then NOT_FOUND else INVALID_ARGUMENT), s)"
proof -
  have "extract_application (e_json E) path = Err INVALID_ARGUMENT \<or>
      (\<exists>x. extract_application (e_json E) path = Ok x)"
    by (auto simp: extract_application_def split: option.split list.split)
  with assms show ?thesis
    by (auto simp: new_def new_with_config_def new_internal_def u8_try_from_def)
qed

theorem new_rejects_bad_input_witness:
  "new (demo_env (\<lambda>_. 1)) 0 \<lparr>app_name = ''app'', app_id = 1\<rparr> (demo_uri 0x10 7) ''r'' None
      (statics_init, []) = (Err INVALID_ARGUMENT, statics_init, [])"
  using new_rejects_bad_input [of "demo_uri 0x10 7" "demo_env (\<lambda>_. 1)" 0
      "\<lparr>app_name = ''app'', app_id = 1\<rparr>" "''r''" None "(statics_init, [])"]
  by (simp add: ref_up_rust_def demo_uri_def)

text \<open>C36. Making a transport under the name of an application that exists already fails with
  INTERNAL, and the transport that was half made is dropped: this stops the existing
  application, which belongs to another transport.\<close>

theorem new_with_taken_name_stops_the_other_application:
  assumes env: "env_ok E bm_ok" and g: "statics_ok g"
    and me: "me \<notin> ran (message_handler_id_to_transport_storage g)"
    and u: "ue_version_major u < 256" "u_verify_rpc_response (e_up E) u"
    and threads: "e_builds_runtime E (runtime_threads rc)" and prompt: "\<And>k. 0 < e_slots E k"
    and taken: "vs_application_exists (e_vs E) h (app_name c)"
  shows "\<exists>g'. new E me c u r rc (g, h) = (Err INTERNAL, g', h @ [StopApplication (app_name c)])"
proof -
  let ?w = "fresh_world E me c u r None (g, h)"
  let ?v = "?w\<lparr>awaits := 1\<rparr>"
  have spec: "bimap_spec (e_bm E) bm_ok" using env by (simp add: env_ok_def)
  have "start_vsomeip_app_internal (e_vs E) (e_pick E) (app_name c) None ?v =
      (Err ALREADY_EXISTS, ?v)"
    using taken by (simp add: start_vsomeip_app_internal_def create_app_def)
  then have "call_engine E (StartVsomeipApp (app_id c) (app_name c)) ?w = (Err ALREADY_EXISTS, ?v)"
    by (intro engine_start_prompt) (simp_all add: prompt_def prompt)
  then have init: "initialize_vsomeip_app E (app_name c) ?w = (Err INTERNAL, ?v)"
    by (simp add: initialize_vsomeip_app_def transport_storage_new_def)
  have "set (storage_get_all_listener_configs (e_bm E) (transport_storage_new (e_bm E) c u r)) = {}"
    using bimap_spec.get_all_listener_configs_set(1) [OF spec] bimap_spec.new_ok [OF spec]
    by (auto simp: storage_get_all_listener_configs_def transport_storage_new_def ran_def)
  moreover have "call_engine E (StopVsomeipApp (app_name c)) ?v =
      (Ok (), call_vs (StopApplication (app_name c)) (?v\<lparr>awaits := 2\<rparr>))"
    by (rule call_engine_prompt)
      (use taken in \<open>simp_all add: prompt_def prompt engine_execute_def execute_def
        stop_vsomeip_app_internal_def numeral_2_eq_2\<close>)
  moreover have "runtime_running (call_vs call w) = runtime_running w" for call and w :: "'a world"
    by (simp add: call_vs_def)
  ultimately have "drop_transport E ?v = (Ok (), (call_vs (StopApplication (app_name c))
      (?v\<lparr>awaits := 2\<rparr>))\<lparr>runtime_running := False\<rparr>)"
    by (simp add: drop_transport_def shutdown_vsomeip_app_def application_of_def
        transport_storage_new_def)
  with init u threads show ?thesis
    by (simp add: new_def new_internal_def u8_try_from_def get_callback_runtime_handle_def Let_def)
qed


theorem new_with_taken_name_stops_the_other_application_witness:
  "\<exists>g'. new (demo_env (\<lambda>_. 1)) 0 \<lparr>app_name = ''app'', app_id = 1\<rparr> (demo_uri 0x10 0) ''r'' None
      (statics_init, demo_app) = (Err INTERNAL, g', demo_app @ [StopApplication ''app''])"
  using new_with_taken_name_stops_the_other_application [OF demo_env_ok statics_ok_init,
      of 0 "demo_uri 0x10 0" "\<lambda>_. 1" None demo_app "\<lparr>app_name = ''app'', app_id = 1\<rparr>" "''r''"]
  by (auto simp: statics_init_def ref_up_rust_def demo_uri_def runtime_threads_def
      DEFAULT_NUM_THREADS_def)

lemma new_internal_ready:
  assumes env: "env_ok E bm_ok" and g: "statics_ok g" "states_ok (new_trait_obj g)"
    and me: "me \<notin> ran (message_handler_id_to_transport_storage g)"
    and u: "ue_version_major u < 256" "u_verify_rpc_response (e_up E) u"
    and threads: "e_builds_runtime E (runtime_threads rc)" and prompt: "0 < e_slots E 0"
    and pool: "free_state_handler_ids g \<noteq> {}" "i = e_pick E (free_state_handler_ids g)"
      "available_state_channels (new_trait_obj g) i = Some []"
    and app: "\<not> vs_application_exists (e_vs E) h (app_name c)"
      "vs_creates_application (e_vs E) h (app_name c) None"
    and reported: "vs_reported_states (e_vs E)
        (h @ start_calls (e_vs E) h (app_name c) None i) (app_name c) = st # sts"
      "length sts < state_channel_capacity"
  shows "\<exists>w. new_internal E me c u r path rc (g, h) = (Ok w, statics w, hist w) \<and>
    transport_ok E bm_ok w \<and> listeners E w = Map.empty \<and> config_path w = path \<and>
    hist w = h @ start_calls (e_vs E) h (app_name c) None i @ [UnregisterStateHandler (app_name c)] \<and>
    free_state_handler_ids (statics w) = free_state_handler_ids g \<and>
    free_handlers w = free_message_handler_ids g \<and> queue w = [] \<and> engine_alive w \<and>
    application_of w = app_name c \<and> rpc_registry (storage w) = rpc_correlation_new \<and>
    init_done (statics w) \<and>
    available_state_channels (statics w) = (available_state_channels (new_trait_obj g))(i \<mapsto> sts) \<and>
    point_to_point_listener w = None"
proof -
  let ?w = "fresh_world E me c u r path (g, h)"
  let ?a = "?w\<lparr>awaits := 1\<rparr>"
  have state_ids: "free_state_handler_ids (new_trait_obj g) = free_state_handler_ids g"
    by (simp add: new_trait_obj_def initialize_sender_receiver_def)
  have pick: "iterates_members (e_pick E)" using env by (simp add: env_ok_def)
  have "finite (free_state_handler_ids g)"
    using g(2) state_ids by (auto simp: states_ok_def intro: finite_subset)
  then have i: "i \<in> free_state_handler_ids g" using pick pool by (simp add: iterates_members_def)
  then have "i < num_state_handlers" using g(2) state_ids by (auto simp: states_ok_def)
  with create_app_run [where w = ?a and V = "e_vs E" and i = i and pick = "e_pick E" and
      app = "app_name c" and config = None and q = "[]" and states = "st # sts"] i pool app reported
  obtain v where v: "start_vsomeip_app_internal (e_vs E) (e_pick E) (app_name c) None ?a = (Ok (), v)"
    "hist v = h @ start_calls (e_vs E) h (app_name c) None i @ [UnregisterStateHandler (app_name c)]"
    "free_state_handler_ids (statics v) = free_state_handler_ids g"
    "available_state_channels (statics v) = (available_state_channels (new_trait_obj g))(i \<mapsto> sts)"
    "storage v = storage ?a"
    by (auto simp: start_vsomeip_app_internal_def state_ids)
  let ?cmd = "StartVsomeipApp (app_id c) (app_name c)"
  have call: "call_engine E ?cmd ?w = (Ok (), v)"
    by (rule engine_start_prompt) (use v(1) prompt in \<open>simp_all add: prompt_def\<close>)
  then have init: "initialize_vsomeip_app E (app_name c) ?w = (Ok (app_name c), v)"
    by (simp add: initialize_vsomeip_app_def transport_storage_new_def)
  have "caller_side v = caller_side ?w" using call call_engine_caller_side by (metis snd_conv)
  note eq = caller_side_handlers(2) [OF this, of E] caller_side_handlers(3,6,8,9) [OF this]
  have "init_done (statics v)"
    using \<open>caller_side v = caller_side ?w\<close> by (simp add: caller_side_def untouched_def new_trait_obj_def)
  have "engine_execute E ?cmd ?a = (Ok (), v)"
    using v(1) by (simp add: engine_execute_def execute_def)
  then have idle: "queue v = []" "engine_alive v"
    using engine_execute_fields(1,2) [of E ?cmd ?a] by simp_all
  have "transport_ok E bm_ok v"
    using transport_ok_call_engineD [OF call fresh_world_ok(1) [OF env g(1) me]] .
  with init v u threads eq idle \<open>init_done (statics v)\<close> fresh_world_ok(2,3) [OF env g(1) me] show ?thesis
    by (intro exI [of _ v])
      (simp add: new_internal_def u8_try_from_def application_of_def transport_storage_new_def
        get_callback_runtime_handle_def)
qed

text \<open>C29. Making a transport from a configuration file, or without one, under a new name succeeds
  when vsomeip creates the application and reports a state in time: vsomeip has then been told
  to create, initialise and start the application, with a state handler that is registered
  before the start and unregistered after the state was reported; the transport satisfies its
  invariant and has no listeners, and the statics have all their state handlers.  vsomeip is not
  told the path of the file: the application is created without one.  That the starting thread
  finds the application is what vsomeip documents of one it has created.\<close>

theorem new_transport_is_ready:
  assumes env: "env_ok E bm_ok" and g: "statics_ok g" "states_ok (new_trait_obj g)"
    and me: "me \<notin> ran (message_handler_id_to_transport_storage g)"
    and u: "ue_version_major u < 256" "u_verify_rpc_response (e_up E) u"
    and threads: "e_builds_runtime E (runtime_threads rc)" and prompt: "0 < e_slots E 0"
    and pool: "free_state_handler_ids g \<noteq> {}" "i = e_pick E (free_state_handler_ids g)"
      "available_state_channels (new_trait_obj g) i = Some []"
    and apps: "vsomeip_applications (e_vs E)"
    and app: "\<not> vs_application_exists (e_vs E) h (app_name c)"
      "vs_creates_application (e_vs E) h (app_name c) None"
    and calls: "calls = [CreateApplication (app_name c) None, Init (app_name c),
        RegisterStateHandler (app_name c) (Available_state_handler_extern_fn i),
        StartApplication (app_name c)]"
    and reported: "vs_reported_states (e_vs E) (h @ calls) (app_name c) = st # sts"
      "length sts < state_channel_capacity"
  shows "\<exists>w. new_internal E me c u r path rc (g, h) = (Ok w, statics w, hist w) \<and>
    transport_ok E bm_ok w \<and> listeners E w = Map.empty \<and> config_path w = path \<and>
    hist w = h @ calls @ [UnregisterStateHandler (app_name c)] \<and>
    free_state_handler_ids (statics w) = free_state_handler_ids g"
proof -
  have "start_calls (e_vs E) h (app_name c) None i = calls"
    using calls vsomeip_applications.start_calls_started [OF apps app(2)] by simp
  with new_internal_ready [OF env g me u threads prompt pool app, of st sts r path] reported
  show ?thesis by auto
qed

theorem new_transport_is_ready_witness:
  "\<exists>w. new_internal (demo_env (\<lambda>_. 1)) 0 \<lparr>app_name = ''new'', app_id = 1\<rparr> (demo_uri 0x10 0) ''r''
      (Some ''cfg'') None (statics_init, []) = (Ok w, statics w, hist w) \<and>
    config_path w = Some ''cfg'' \<and>
    hist w = [CreateApplication ''new'' None, Init ''new'',
      RegisterStateHandler ''new'' (Available_state_handler_extern_fn 0), StartApplication ''new'',
      UnregisterStateHandler ''new'']"
proof -
  let ?c = "\<lparr>app_name = ''new'', app_id = 1\<rparr>"
  have ids: "free_state_handler_ids statics_init = {..<num_state_handlers}"
    by (simp add: statics_init_def)
  have "0 \<notin> ran (message_handler_id_to_transport_storage statics_init)"
    by (simp add: statics_init_def)
  from new_transport_is_ready [OF demo_env_ok statics_ok_init states_ok_init this,
      of "demo_uri 0x10 0" "\<lambda>_. 1" None 0 "[]" ?c _ ST_REGISTERED "[]" "''r''" "Some ''cfg''", OF _ _ _ _ _ _ _ _ _ _ refl]
  show ?thesis
    using ref_apps.vsomeip_applications_axioms
    by (auto simp: ids Min_state_handlers ref_up_rust_def demo_uri_def state_channel_capacity_def
        runtime_threads_def DEFAULT_NUM_THREADS_def)
qed

end
