(* ===== verification/Transport_Runs.thy ===== *)
theory Transport_Runs
  imports Transport_Properties
begin

text \<open>
  How the transport's methods and its engine run together: the engine works its channel off
  as the event loop of \<^verbatim>\<open>Transport_Engine.thy\<close>, sending through an idle engine is the
  engine's own send, and what becomes of the function of a listener that was unregistered.
\<close>

subsection \<open>The engine runs its loop\<close>

text \<open>No command looks at the channel it came from.\<close>

abbreviation with_queue :: "command list \<Rightarrow> 'a \<times> 'bm world \<Rightarrow> 'a \<times> 'bm world" where
  "with_queue q \<equiv> map_prod id (\<lambda>w. w\<lparr>queue := q\<rparr>)"

named_theorems queue_free \<open>operations that do not depend on the engine's channel\<close>

lemma call_vs_queue [queue_free]: "call_vs c (w\<lparr>queue := q\<rparr>) = (call_vs c w)\<lparr>queue := q\<rparr>"
  by (simp add: call_vs_def)

lemma on_storage_queue [queue_free]:
  "on_storage f (w\<lparr>queue := q\<rparr>) = with_queue q (on_storage f w)"
  by (simp add: on_storage_def case_prod_unfold Let_def)

lemma on_statics_queue [queue_free]:
  "on_statics f (w\<lparr>queue := q\<rparr>) = with_queue q (on_statics f w)"
  by (simp add: on_statics_def case_prod_unfold Let_def)

lemma on_statics_queue_statics [queue_free]:
  "on_statics f (w\<lparr>queue := q, statics := g\<rparr>) = with_queue q (on_statics f (w\<lparr>statics := g\<rparr>))"
  by (simp add: on_statics_def case_prod_unfold Let_def)

lemma and_then_queue:
  assumes "\<And>a w. f a (w\<lparr>queue := q\<rparr>) = with_queue q (f a w)"
  shows "and_then (with_queue q r) f = with_queue q (and_then r f)"
  using assms by (cases r; cases "fst r") auto

lemma publish_queue [queue_free]:
  "umsg_publish_to_vsomeip_notification U V umsg app (w\<lparr>queue := q\<rparr>) =
     with_queue q (umsg_publish_to_vsomeip_notification U V umsg app w)"
  by (simp add: umsg_publish_to_vsomeip_notification_def queue_free Let_def case_prod_unfold
      split: option.split)

lemma request_queue [queue_free]:
  "umsg_request_to_vsomeip_message U V oc umsg app (w\<lparr>queue := q\<rparr>) =
     with_queue q (umsg_request_to_vsomeip_message U V oc umsg app w)"
  by (simp add: umsg_request_to_vsomeip_message_def queue_free Let_def case_prod_unfold
      and_then_queue split: option.split)

lemma response_queue [queue_free]:
  "umsg_response_to_vsomeip_message U V umsg (w\<lparr>queue := q\<rparr>) =
     with_queue q (umsg_response_to_vsomeip_message U V umsg w)"
  by (simp add: umsg_response_to_vsomeip_message_def queue_free Let_def case_prod_unfold
      and_then_queue split: option.split)

lemma send_internal_queue [queue_free]:
  "send_internal U V oc umsg app (w\<lparr>queue := q\<rparr>) = with_queue q (send_internal U V oc umsg app w)"
  by (simp add: send_internal_def queue_free Let_def case_prod_unfold and_then_queue
      split: umessage_type.split)

lemma register_queue [queue_free]:
  "register_listener_internal V src snk t f app (w\<lparr>queue := q\<rparr>) =
     with_queue q (register_listener_internal V src snk t f app w)"
  by (simp add: register_listener_internal_def queue_free Let_def case_prod_unfold
      split: registration_type.split option.split)

lemma unregister_queue [queue_free]:
  "unregister_listener_internal V src snk t app (w\<lparr>queue := q\<rparr>) =
     with_queue q (unregister_listener_internal V src snk t app w)"
  by (simp add: unregister_listener_internal_def queue_free Let_def case_prod_unfold
      split: registration_type.split option.split)

lemma start_thread_queue [queue_free]:
  "start_thread V app (w\<lparr>queue := q\<rparr>) = with_queue q (start_thread V app w)"
  by (simp add: start_thread_def queue_free split: option.split)

lemma state_handlers_queue [queue_free]:
  "storage_find_state_handler_id pick (w\<lparr>queue := q\<rparr>) =
     with_queue q (storage_find_state_handler_id pick w)"
  "storage_get_state_handler i (w\<lparr>queue := q\<rparr>) = storage_get_state_handler i w"
  "storage_free_state_handler_id i (w\<lparr>queue := q\<rparr>) = with_queue q (storage_free_state_handler_id i w)"
  by (simp_all add: storage_find_state_handler_id_def storage_get_state_handler_def
      storage_free_state_handler_id_def on_statics_queue)

lemma create_app_queue [queue_free]:
  "create_app V pick app config (w\<lparr>queue := q\<rparr>) = with_queue q (create_app V pick app config w)"
  unfolding create_app_def state_handlers_queue
  by (subst and_then_queue)
    (simp_all add: queue_free Let_def case_prod_unfold split: option.split outcome.split)

lemma execute_queue [queue_free]:
  "execute U V pick oc config cmd (w\<lparr>queue := q\<rparr>) = with_queue q (execute U V pick oc config cmd w)"
  by (simp add: execute_def start_vsomeip_app_internal_def stop_vsomeip_app_internal_def queue_free
      and_then_queue split: command.split option.split)

text \<open>The configuration path is the engine's own and never changes.\<close>

lemma engine_execute_config [simp]:
  "engine_config_path (snd (engine_execute E cmd w)) = engine_config_path w"
  using engine_execute_fields(4) [of E cmd w] by (simp add: caller_side_def)

definition engine_loop ::
  "('bm, 'v) env \<Rightarrow> command list \<Rightarrow> 'bm world \<Rightarrow> unit result list \<times> bool \<times> 'bm world" where
  "engine_loop E cmds w =
     event_loop (e_up E) (e_vs E) (e_pick E) (e_overflow_checks E) (engine_config_path w) cmds w"

lemma engine_loop_Cons:
  "engine_loop E (cmd # cmds) w =
     (case engine_execute E cmd w of
        (Panic, w) \<Rightarrow> ([], False, w)
      | (res, w) \<Rightarrow> let (answers, alive, w) = engine_loop E cmds w in (res # answers, alive, w))"
proof -
  have "engine_config_path (snd (engine_execute E cmd w)) = engine_config_path w" by simp
  then show ?thesis
    by (auto simp: engine_loop_def engine_execute_def case_prod_unfold Let_def split: outcome.split)
qed

lemma engine_execute_queue:
  "engine_execute E cmd (w\<lparr>queue := q\<rparr>) = with_queue q (engine_execute E cmd w)"
  by (simp add: engine_execute_def execute_queue)

lemma engine_loop_queue:
  "engine_loop E cmds (w\<lparr>queue := q\<rparr>) =
     map_prod id (map_prod id (\<lambda>w. w\<lparr>queue := q\<rparr>)) (engine_loop E cmds w)"
proof (induction cmds arbitrary: w)
  case (Cons cmd cmds)
  show ?case
    by (cases "engine_execute E cmd w"; cases "fst (engine_execute E cmd w)")
      (simp_all add: engine_loop_Cons engine_execute_queue Cons.IH case_prod_unfold Let_def)
qed (simp add: engine_loop_def)

lemma engine_loop_Nil [simp]: "engine_loop E [] w = ([], True, w)"
  by (simp add: engine_loop_def)

lemma engine_loop_answers:
  "engine_loop E cmds w = (answers, True, v) \<Longrightarrow> length answers = length cmds"
proof (induction cmds arbitrary: w answers)
  case (Cons cmd cmds)
  obtain r u where "engine_execute E cmd w = (r, u)" by fastforce
  moreover obtain a b x where "engine_loop E cmds u = (a, b, x)" by (metis prod_cases3)
  ultimately show ?case
    using Cons.prems Cons.IH [of u a] by (cases r) (auto simp: engine_loop_Cons)
qed simp

text \<open>
  \<open>engine_run\<close> is how the sequential model lets the engine's task go on while a caller waits.
  It is the event loop on the commands at the head of the channel, in the order they were sent:
  after \<open>n\<close> of them, if none of them panicked, the rest of the channel is untouched, and the
  waiting caller, whose command is the last one, has its answer exactly if the engine got that
  far; a panic loses the whole channel and ends the engine.
\<close>

lemma engine_run_refines_event_loop:
  "engine_run E n w =
     (let (answers, alive, v) = engine_loop E (take n (queue w)) w
      in if alive
         then (if queue w \<noteq> [] \<and> length (queue w) \<le> n then Some (last answers) else None,
               v\<lparr>queue := drop n (queue w)\<rparr>)
         else (None, v\<lparr>queue := [], engine_alive := False\<rparr>))"
proof (induction n arbitrary: w)
  case 0
  then show ?case by (simp add: engine_loop_def)
next
  case (Suc n)
  show ?case
  proof (cases "queue w")
    case Nil
    then show ?thesis by (simp add: engine_loop_def)
  next
    case (Cons cmd cmds)
    obtain r v where x: "engine_execute E cmd w = (r, v)" by fastforce
    then have v: "queue v = cmd # cmds" using engine_execute_fields(1) [of E cmd w] Cons by simp
    have "engine_run E (Suc n) w = (case r of
        Panic \<Rightarrow> (None, v\<lparr>queue := [], engine_alive := False\<rparr>)
      | _ \<Rightarrow> if cmds = [] then (Some r, v\<lparr>queue := []\<rparr>) else engine_run E n (v\<lparr>queue := cmds\<rparr>))"
      using x Cons by (cases r) (auto simp: engine_execute_queue)
    moreover obtain answers alive u where rest: "engine_loop E (take n cmds) v = (answers, alive, u)"
      by (metis prod_cases3)
    moreover have "alive \<Longrightarrow> cmds \<noteq> [] \<Longrightarrow> length cmds \<le> n \<Longrightarrow> answers \<noteq> []"
      using engine_loop_answers [of E "take n cmds" v answers u] rest by auto
    ultimately show ?thesis
      using x Cons Suc.IH [of "v\<lparr>queue := cmds\<rparr>"]
      by (cases r; cases "cmds = []")
        (simp_all add: engine_loop_Cons engine_loop_queue del: engine_run.simps)
  qed
qed

subsection \<open>Sending\<close>

lemma call_engine_prompt_panic:
  assumes "prompt E w" "engine_execute E cmd (w\<lparr>awaits := Suc (awaits w)\<rparr>) = (Panic, v)"
  shows "call_engine E cmd w = (Err INTERNAL, v\<lparr>queue := [], engine_alive := False\<rparr>)"
proof -
  obtain n where n: "e_slots E (awaits w) = Suc n"
    using assms(1) by (cases "e_slots E (awaits w)") (auto simp: prompt_def)
  have idle: "engine_alive w" "queue w = []" using assms(1) by (simp_all add: prompt_def)
  then have same: "w\<lparr>awaits := Suc (awaits w), queue := []\<rparr> = w\<lparr>awaits := Suc (awaits w)\<rparr>"
    by (cases w) simp
  have "engine_execute E cmd (w\<lparr>awaits := Suc (awaits w), queue := []\<rparr>) = (Panic, v)"
    unfolding same by (rule assms(2))
  then show ?thesis
    using idle n by (simp add: call_engine_def send_to_engine_with_status_def await_engine_def
        channel_capacity_def)
qed

text \<open>C15. Without a point-to-point listener and with an idle engine, sending is the engine's
  \<open>send_internal\<close> on the transport's application, its result and its effects, for messages
  with valid attributes and a source; every other message is refused with INVALID\_ARGUMENT
  before anything happens.  If the engine panics on the message the caller gets INTERNAL and
  the engine is gone.\<close>

theorem send_is_send_internal:
  assumes prompt: "prompt E w" and p2p: "point_to_point_listener w = None"
    and app: "vs_application_exists (e_vs E) (hist w) (application_of w)"
  shows "send E umsg w =
    (if \<exists>a. attributes umsg = Some a \<and> u_validate_attributes (e_up E) a \<and> msg_source a \<noteq> None
     then (case send_internal (e_up E) (e_vs E) (e_overflow_checks E) umsg (application_of w)
                  (w\<lparr>awaits := Suc (awaits w)\<rparr>) of
             (Panic, v) \<Rightarrow> (Err INTERNAL, v\<lparr>queue := [], engine_alive := False\<rparr>)
           | result \<Rightarrow> result)
     else (Err INVALID_ARGUMENT, w))"
proof (cases "\<exists>a src. attributes umsg = Some a \<and> u_validate_attributes (e_up E) a \<and>
    msg_source a = Some src")
  case True
  then obtain a src where a: "attributes umsg = Some a" "u_validate_attributes (e_up E) a"
    "msg_source a = Some src" by blast
  obtain t where t: "determine_type (e_up E) src (msg_sink a) = Ok t"
    using determine_type_total by blast
  let ?cmd = "Send umsg t (application_of w)"
  obtain r v where x: "send_internal (e_up E) (e_vs E) (e_overflow_checks E) umsg (application_of w)
      (w\<lparr>awaits := Suc (awaits w)\<rparr>) = (r, v)" by fastforce
  then have "engine_execute E ?cmd (w\<lparr>awaits := Suc (awaits w)\<rparr>) = (r, v)"
    using app by (simp add: engine_execute_def execute_def)
  with call_engine_prompt [OF prompt, of ?cmd r v] call_engine_prompt_panic [OF prompt, of ?cmd v]
  have "call_engine E ?cmd w = (case r of
      Panic \<Rightarrow> (Err INTERNAL, v\<lparr>queue := [], engine_alive := False\<rparr>) | _ \<Rightarrow> (r, v))"
    by (cases r) simp_all
  with a t p2p x show ?thesis
    by (cases r) (simp_all add: send_def register_for_returning_response_def)
next
  case False
  then show ?thesis
    by (auto simp: send_def split: option.splits)
qed

theorem send_is_send_internal_witness:
  "send (demo_env (\<lambda>_. 1)) (demo_message UMESSAGE_TYPE_PUBLISH (demo_uri 0x10 0x8001) None None)
     (demo_world demo_app) =
   send_internal ref_up_rust ref_vsomeip True
     (demo_message UMESSAGE_TYPE_PUBLISH (demo_uri 0x10 0x8001) None None) ''app''
     (demo_world demo_app\<lparr>awaits := 1\<rparr>)"
proof -
  let ?m = "demo_message UMESSAGE_TYPE_PUBLISH (demo_uri 0x10 0x8001) None None"
  have "fst (send_internal ref_up_rust ref_vsomeip True ?m ''app'' (demo_world demo_app\<lparr>awaits := 1\<rparr>))
      \<noteq> Panic"
    by (simp add: send_panic_iff)
  then show ?thesis
    using send_is_send_internal [of "demo_env (\<lambda>_. 1)" "demo_world demo_app" ?m]
    by (auto simp: demo_simps demo_message_def ref_up_rust_def split: prod.splits outcome.splits)
qed

subsection \<open>Unregistering, with an idle engine\<close>

lemma engine_execute_unregister:
  assumes "vs_application_exists (e_vs E) (hist w) app"
    and "unregistered_key (e_vs E) src snk t = Some (s, i, m)"
  shows "engine_execute E (UnregisterListener src snk t app) w =
    (Ok (), call_vs (UnregisterMessageHandler app s i m) w)"
  using assms unregister_key [OF assms(2), of app w]
  by (simp add: engine_execute_def execute_def)

lemma call_vs_world [simp]:
  "queue (call_vs c w) = queue w" "engine_alive (call_vs c w) = engine_alive w"
  "awaits (call_vs c w) = awaits w" "caller_side (call_vs c w) = caller_side w"
  by (simp_all add: call_vs_def caller_side_def untouched_def)

lemma unregister_listener_runs:
  assumes env: "env_ok E bm_ok" and ok: "transport_ok E bm_ok w" and prompt: "prompt E w"
    and app: "vs_application_exists (e_vs E) (hist w) (application_of w)"
    and t: "determine_type (e_up E) src snk = Ok t" "t \<noteq> AllPointToPoint"
    and key: "unregistered_key (e_vs E) src snk t = Some (s, j, m)"
    and filed: "listeners E w i = Some (src, snk, l)"
  shows "\<exists>v. unregister_listener E src snk l w = (Ok (), v) \<and>
    hist v = hist w @ [UnregisterMessageHandler (application_of w) s j m] \<and>
    listeners E v = (listeners E w)(i := None) \<and> free_handlers v = insert i (free_handlers w) \<and>
    transport_ok E bm_ok v \<and> engine_alive v \<and> queue v = [] \<and> application_of v = application_of w"
proof -
  let ?app = "application_of w" and ?c = "(src, snk, l)"
  let ?u = "call_vs (UnregisterMessageHandler ?app s j m) (w\<lparr>awaits := Suc (awaits w)\<rparr>)"
  have exec: "engine_execute E (UnregisterListener src snk t ?app) (w\<lparr>awaits := Suc (awaits w)\<rparr>) =
      (Ok (), ?u)"
    by (rule engine_execute_unregister) (use app key in simp_all)
  have call: "call_engine E (UnregisterListener src snk t ?app) w = (Ok (), ?u)"
    by (rule call_engine_prompt [OF prompt exec]) simp
  have "caller_side ?u = caller_side w" by simp
  note eq = caller_side_handlers(2) [OF this, of E] caller_side_handlers(3,6) [OF this]
  have ok_u: "transport_ok E bm_ok ?u"
    using transport_ok_call_engineD [OF call ok] .
  then have inv: "handlers_ok E bm_ok ?u" by (simp add: transport_ok_def)
  have spec: "bimap_spec (e_bm E) bm_ok" using env by (simp add: env_ok_def)
  have filed_u: "listeners E ?u i = Some ?c" using filed eq(1) by simp
  from spec inv show ?thesis
  proof (cases rule: release_handler_cases [of E bm_ok ?u ?c])
    case unknown
    with filed_u show ?thesis by (auto simp: ran_def)
  next
    case (known k v)
    have "k = i"
      using inj_onD [OF bimap_spec.storage_view_inj [OF spec, of "self ?u" "(statics ?u, storage ?u)"],
          of k i] inv known(1) filed_u
      by (auto simp: handlers_ok_def listeners_def)
    moreover have side: "engine_side v = engine_side ?u"
      using release_handler_engine_side [of E ?c ?u] known(2) by simp
    moreover have "unregister_listener E src snk l w = (Ok (), v)"
      using t call known(2) by (simp add: unregister_listener_def)
    moreover from this have "transport_ok E bm_ok v"
      using unregister_listener_ok [OF env ok, of src snk l] by simp
    ultimately show ?thesis
      using known(4,5) eq engine_side_more(1,3,4) [OF side] engine_side_application [OF side] prompt
      by (intro exI [of _ v]) (simp add: prompt_def application_of_def)
  qed
qed

text \<open>C24. vsomeip keeps calling the function of a publish listener that was unregistered, and the
  function is handed to the next listener: after registering and unregistering a listener for
  one event and registering another listener, for whatever filters, the second listener is
  filed under the very function that vsomeip still has registered for the first one's event,
  since it was only ever asked to remove it for another instance.  So the second listener is
  called for events it never asked for.  Nothing here is an error: all three methods return
  Ok on an idle engine.\<close>

theorem stale_function_calls_next_listener:
  assumes env: "env_ok E bm_ok" and ok: "transport_ok E bm_ok w"
    and idle: "engine_alive w" "queue w = []" "\<forall>k. 0 < e_slots E k"
    and app: "\<forall>calls. vs_application_exists (e_vs E) (hist w @ calls) (application_of w)"
    and inst: "ANY_INSTANCE (e_vs E) \<noteq> 1"
    and first: "(src, None, l) \<notin> ran (listeners E w)" and room: "free_handlers w \<noteq> {}"
    and second: "determine_type (e_up E) src' snk' = Ok t" "t \<noteq> AllPointToPoint"
      "(src', snk', l') \<notin> ran (listeners E w)"
  shows "\<exists>i v1 v2 v3. register_listener E src None l w = (Ok (), v1) \<and>
    unregister_listener E src None l v1 = (Ok (), v2) \<and>
    register_listener E src' snk' l' v2 = (Ok (), v3) \<and>
    storage_get_listener_for_message_handler_id (e_bm E) (storage v3) i = Some l' \<and>
    (let new_calls = drop (length (hist w)) (hist v3); app = application_of w;
         s = ucast (ue_id src); e = ucast (resource_id src)
     in RegisterMessageHandler app s 1 e (Extern_fn_message_handler i) \<in> set new_calls \<and>
        UnregisterMessageHandler app s 1 e \<notin> set new_calls)"
proof -
  let ?app = "application_of w" and ?s = "ucast (ue_id src) :: u16" and ?e = "ucast (resource_id src) :: u16"
  have key: "registered_key (e_vs E) src None Publish = Some (?s, 1, ?e)"
    "unregistered_key (e_vs E) src None Publish = Some (?s, ANY_INSTANCE (e_vs E), ?e)"
    by (simp_all add: low16_def snd_split_u32_to_u16)
  have prompt: "prompt E w" using idle by (simp add: prompt_def)
  have app0: "vs_application_exists (e_vs E) (hist w) ?app" using app [rule_format, of "[]"] by simp
  from register_listener_runs [OF env ok prompt app0 determine_type_None _ first room] key(1)
  obtain i v1 calls where v1: "register_listener E src None l w = (Ok (), v1)" "i \<in> free_handlers w"
    "free_handlers v1 = free_handlers w - {i}" "listeners E v1 = (listeners E w)(i \<mapsto> (src, None, l))"
    "hist v1 = hist w @ calls @ [RegisterMessageHandler ?app ?s 1 ?e (Extern_fn_message_handler i)]"
    "calm v1" "queue v1 = []" "transport_ok E bm_ok v1" "i = e_pick E (free_handlers w)"
    "application_of v1 = ?app" "\<not> list_ex touches_handlers calls" by auto
  have prompt1: "prompt E v1" using v1(6,7) idle(3) by (simp add: prompt_def calm_def)
  have app1: "vs_application_exists (e_vs E) (hist v1) (application_of v1)"
    using app v1(5,10) by simp
  have filed: "listeners E v1 i = Some (src, None, l)" using v1(4) by simp
  from unregister_listener_runs [OF env v1(8) prompt1 app1 determine_type_None _ key(2) filed]
  obtain v2 where v2: "unregister_listener E src None l v1 = (Ok (), v2)"
    "hist v2 = hist v1 @ [UnregisterMessageHandler ?app ?s (ANY_INSTANCE (e_vs E)) ?e]"
    "listeners E v2 = (listeners E v1)(i := None)" "free_handlers v2 = insert i (free_handlers v1)"
    "transport_ok E bm_ok v2" "engine_alive v2" "queue v2 = []" "application_of v2 = ?app"
    unfolding v1(10) by auto
  have again: "free_handlers v2 = free_handlers w" using v2(4) v1(2,3) by auto
  have prompt2: "prompt E v2" using v2(6,7) idle(3) by (simp add: prompt_def)
  have app2: "vs_application_exists (e_vs E) (hist v2) (application_of v2)"
    using app v1(5) v2(2,8) by simp
  have new: "(src', snk', l') \<notin> ran (listeners E v2)"
    using second(3) v1(4) v2(3) by (auto simp: ran_def split: if_splits)
  from register_listener_runs [OF env v2(5) prompt2 app2 second(1,2) new,
      unfolded again v2(8) v1(9) [symmetric], OF room]
  obtain v3 a b c calls' where v3: "register_listener E src' snk' l' v2 = (Ok (), v3)"
    "storage_get_listener_for_message_handler_id (e_bm E) (storage v3) i = Some l'"
    "hist v3 = hist v2 @ calls' @ [RegisterMessageHandler ?app a b c (Extern_fn_message_handler i)]"
    "\<not> list_ex touches_handlers calls'" by metis
  have added: "drop (length (hist w)) (hist v3) = calls @
      [RegisterMessageHandler ?app ?s 1 ?e (Extern_fn_message_handler i),
       UnregisterMessageHandler ?app ?s (ANY_INSTANCE (e_vs E)) ?e] @ calls' @
      [RegisterMessageHandler ?app a b c (Extern_fn_message_handler i)]"
    using v1(5) v2(2) v3(3) by simp
  have quiet: "UnregisterMessageHandler ?app ?s 1 ?e \<notin> set calls"
    "UnregisterMessageHandler ?app ?s 1 ?e \<notin> set calls'"
    using v1(11) v3(4) by (auto simp: list_ex_iff)
  show ?thesis
    using v1(1) v2(1) v3(1,2) inst quiet
    by (intro exI [of _ i] exI [of _ v1] exI [of _ v2] exI [of _ v3]) (simp add: added Let_def)
qed

theorem stale_function_calls_next_listener_witness:
  "\<exists>i v1 v2 v3. register_listener (demo_env (\<lambda>_. 1)) (demo_uri 1 0x8001) None (Listener 3)
      (demo_world demo_app) = (Ok (), v1) \<and>
    unregister_listener (demo_env (\<lambda>_. 1)) (demo_uri 1 0x8001) None (Listener 3) v1 = (Ok (), v2) \<and>
    register_listener (demo_env (\<lambda>_. 1)) (demo_uri 2 0x8002) None (Listener 4) v2 = (Ok (), v3) \<and>
    storage_get_listener_for_message_handler_id pair_bimap (storage v3) i = Some (Listener 4) \<and>
    RegisterMessageHandler ''app'' 1 1 0x8001 (Extern_fn_message_handler i) \<in> set (hist v3)"
  using stale_function_calls_next_listener [where E = "demo_env (\<lambda>_. 1)" and bm_ok = pairs_ok
      and w = "demo_world demo_app" and src = "demo_uri 1 0x8001" and l = "Listener 3"
      and src' = "demo_uri 2 0x8002" and snk' = None and l' = "Listener 4" and t = Publish]
  by (auto simp: demo_simps Let_def dest!: in_set_dropD)

end
