(* ===== verification/Process.thy ===== *)
theory Process
  imports Transport_Runs
begin

text \<open>
  A process with several transports, and what happens when vsomeip calls one of the
  \<open>extern "C"\<close> functions: \<open>call_shared_extern_fn\<close> of
  \<^verbatim>\<open>vsomeip-proc-macro/src/lib.rs\<close> and the access to the process-wide table in
  \<^verbatim>\<open>storage/message_handler_registry.rs\<close>.

  The statics and the history of vsomeip calls are shared; a transport is entered with their
  current values and left with its own.  A \<open>Weak\<close> reference can be upgraded while the
  transport is alive.  The process makes one step at a time: a method of a transport, the
  engine of a transport handling one command, a transport made or dropped, or a message that
  vsomeip hands to a handler function.
\<close>

record 'bm process =
  p_statics :: statics
  p_hist :: "vs_call list"
  p_transports :: "storage_ref \<rightharpoonup> 'bm world"

definition enter :: "'bm process \<Rightarrow> 'bm world \<Rightarrow> 'bm world" where
  "enter p w = w\<lparr>statics := p_statics p, hist := p_hist p\<rparr>"

definition leave :: "'bm process \<Rightarrow> storage_ref \<Rightarrow> 'bm world \<Rightarrow> 'bm process" where
  "leave p me w = \<lparr>p_statics = statics w, p_hist = hist w,
     p_transports = (p_transports p)(me \<mapsto> w)\<rparr>"

definition process_init :: "'bm process" where
  "process_init = \<lparr>p_statics = statics_init, p_hist = [], p_transports = Map.empty\<rparr>"

subsection \<open>A message arrives\<close>

definition get_message_handler_id_transport ::
  "nat \<Rightarrow> 'bm process \<Rightarrow> (storage_ref \<times> 'bm world) option" where
  "get_message_handler_id_transport message_handler_id p =
     (case message_handler_id_to_transport_storage (p_statics p) message_handler_id of
        None \<Rightarrow> None
      | Some transport \<Rightarrow> map_option (Pair transport) (p_transports p transport))"

text \<open>
  The result is what is handed to \<open>on_receive\<close>, if anything.  The conversion runs in a task
  of its own: when it panics, the task's end of the channel is dropped, and the receiving end
  returns without a message, as after an error.  Here the function runs without interruption; the
  lookup of the transport, the conversion and the lookup of the listener are under separate
  locks, and \<open>Dispatch_Steps\<close> has them as separate steps with anything in between.
\<close>

definition call_shared_extern_fn ::
  "('bm, 'v) env \<Rightarrow> nat \<Rightarrow> nat \<Rightarrow> vmessage \<Rightarrow> 'bm process \<Rightarrow>
     (listener \<times> umessage) option \<times> 'bm process" where
  "call_shared_extern_fn E n message_handler_id vsomeip_msg p =
     (case get_message_handler_id_transport message_handler_id p of
        None \<Rightarrow> (None, p)
      | Some (me, w) \<Rightarrow>
          (case convert_vsomeip_msg_to_umsg (e_up E) (e_vs E) n (get_local_authority (storage w))
                  (storage_uri (storage w)) (remote_authority (storage w)) vsomeip_msg (enter p w) of
             (Ok umsg, w) \<Rightarrow>
               (case storage_get_listener_for_message_handler_id (e_bm E) (storage w)
                       message_handler_id of
                  Some listener \<Rightarrow> (Some (listener, umsg), leave p me w)
                | None \<Rightarrow> (None, leave p me w))
           | (_, w) \<Rightarrow> (None, leave p me w)))"

subsection \<open>Steps\<close>

text \<open>
  The storage of a new transport is a new allocation: its address is neither that of a live
  transport nor one that a \<open>Weak\<close> reference still points to.
\<close>

inductive process_step :: "('bm, 'v) env \<Rightarrow> 'bm process \<Rightarrow> 'bm process \<Rightarrow> bool" for E p where
  registers: "p_transports p me = Some w \<Longrightarrow> register_listener E src snk l (enter p w) = (r, v) \<Longrightarrow>
    process_step E p (leave p me v)"
| unregisters: "p_transports p me = Some w \<Longrightarrow> unregister_listener E src snk l (enter p w) = (r, v) \<Longrightarrow>
    process_step E p (leave p me v)"
| sends: "p_transports p me = Some w \<Longrightarrow> send E umsg (enter p w) = (r, v) \<Longrightarrow>
    process_step E p (leave p me v)"
| engine_works: "p_transports p me = Some w \<Longrightarrow> engine_run E 1 (enter p w) = (a, v) \<Longrightarrow>
    process_step E p (leave p me v)"
| makes: "p_transports p me = None \<Longrightarrow>
    me \<notin> ran (message_handler_id_to_transport_storage (p_statics p)) \<Longrightarrow>
    new_internal E me c u remote path rc (p_statics p, p_hist p) = (Ok v, g, h) \<Longrightarrow>
    process_step E p (leave p me v)"
| makes_none: "p_transports p me = None \<Longrightarrow>
    me \<notin> ran (message_handler_id_to_transport_storage (p_statics p)) \<Longrightarrow>
    new_internal E me c u remote path rc (p_statics p, p_hist p) = (r, g, h) \<Longrightarrow>
    (\<nexists>v. r = Ok v) \<Longrightarrow> process_step E p (p\<lparr>p_statics := g, p_hist := h\<rparr>)"
| drops: "p_transports p me = Some w \<Longrightarrow> drop_transport E (enter p w) = (r, v) \<Longrightarrow>
    process_step E p \<lparr>p_statics = statics v, p_hist = hist v,
      p_transports = (p_transports p)(me := None)\<rparr>"
| receives: "call_shared_extern_fn E n i vsomeip_msg p = (d, q) \<Longrightarrow> process_step E p q"

inductive process_reachable :: "('bm, 'v) env \<Rightarrow> 'bm process \<Rightarrow> bool" for E where
  start: "process_reachable E process_init"
| step: "process_reachable E p \<Longrightarrow> process_step E p q \<Longrightarrow> process_reachable E q"

inductive_cases process_stepE: "process_step E p q"

lemma enter_simps [simp]:
  "statics (enter p w) = p_statics p" "hist (enter p w) = p_hist p" "self (enter p w) = self w"
  "storage (enter p w) = storage w"
  by (simp_all add: enter_def)

lemma leave_simps [simp]:
  "p_statics (leave p me w) = statics w" "p_hist (leave p me w) = hist w"
  "p_transports (leave p me w) = (p_transports p)(me \<mapsto> w)"
  by (simp_all add: leave_def)

subsection \<open>A transport touches its own entries only\<close>

lemma get_message_handler_others:
  assumes "get_message_handler B pick me c s = (x, g, m)" "other \<noteq> me"
  shows "message_handler_id_to_transport_storage g i = Some other \<longleftrightarrow>
    message_handler_id_to_transport_storage (fst s) i = Some other"
proof -
  obtain g0 m0 where s: "s = (g0, m0)" by (cases s)
  show ?thesis
    using assms unfolding s get_message_handler_unfold
    by (auto simp: Let_def run_rollback_def rollback_free_id_def rollback_remove_transport_def
        remove_message_handler_id_transport_def free_message_handler_id_def
        split: if_splits option.splits outcome.splits
          message_handler_id_and_listener_config_error.splits)
qed

definition entries_of :: "'bm world \<Rightarrow> storage_ref \<Rightarrow> nat set" where
  "entries_of w me = {i. message_handler_id_to_transport_storage (statics w) i = Some me}"

lemma get_handler_others:
  assumes "get_handler E c w = (r, v)" "me \<noteq> self w"
  shows "entries_of v me = entries_of w me"
proof -
  obtain x g m where g: "get_message_handler (e_bm E) (e_pick E) (self w) c
      (statics w, message_handler_registry (storage w)) = (x, g, m)" by (metis prod_cases3)
  with assms(1) have "statics v = g"
    by (auto simp: get_handler_def on_handlers_def storage_get_message_handler_def)
  with get_message_handler_others [OF g assms(2)] show ?thesis by (simp add: entries_of_def)
qed

lemma release_handler_others:
  assumes env: "env_ok E bm_ok" and ok: "transport_ok E bm_ok w"
    and release: "release_handler E c w = (r, v)" and me: "me \<noteq> self w"
  shows "entries_of v me = entries_of w me"
proof -
  have spec: "bimap_spec (e_bm E) bm_ok" and inv: "registry_inv (e_bm E) bm_ok (self w)
      (statics w, message_handler_registry (storage w))"
    using env ok by (simp_all add: env_ok_def transport_ok_def handlers_ok_def storage_inv_def)
  show ?thesis
  proof (cases "c \<in> ran (listeners E w)")
    case True
    then obtain i where i: "bm_get_by_left (e_bm E) (message_handler_registry (storage w)) i = Some c"
      by (auto simp: listeners_def storage_view_def ran_def)
    have "message_handler_id_to_transport_storage (statics w) i = Some (self w)"
      using bimap_spec.registry_inv_dom [OF spec inv, of i] i by simp
    moreover from bimap_spec.release_known [OF spec inv i] have
      "message_handler_id_to_transport_storage (statics v) =
        (message_handler_id_to_transport_storage (statics w))(i := None)"
      using release by (auto simp: release_handler_def on_handlers_def
          storage_release_message_handler_def)
    ultimately show ?thesis using me by (auto simp: entries_of_def)
  next
    case False
    have "handlers_ok E bm_ok w" using ok by (simp add: transport_ok_def)
    with spec have "v = w"
      by (cases rule: release_handler_cases [of E bm_ok w c]) (use False release in \<open>auto simp: ran_def\<close>)
    then show ?thesis by simp
  qed
qed

lemma entries_of_fields [simp]:
  "entries_of (w\<lparr>point_to_point_listener := x\<rparr>) me = entries_of w me"
  "entries_of (w\<lparr>runtime_running := b\<rparr>) me = entries_of w me"
  by (simp_all add: entries_of_def)

lemma moves_others:
  assumes "moves E w v" and env: "env_ok E bm_ok" and "transport_ok E bm_ok w"
  shows "self v = self w \<and> (\<forall>me. me \<noteq> self w \<longrightarrow> entries_of v me = entries_of w me)"
  using assms(1,3)
proof (induction rule: moves.induct)
  case (engine v u)
  then show ?case
    using caller_side_handlers(4,5) [OF engine.hyps(2)] by (simp add: entries_of_def)
next
  case (take_handler v c r u)
  have "self u = self v"
    using get_handler_engine_side [of E c v] take_handler.hyps engine_side_more(2) [of u v] by simp
  then show ?case
    using take_handler get_handler_others [OF take_handler.hyps(3)] by simp
next
  case (give_back v c r u)
  have "self u = self v"
    using release_handler_engine_side [of E c v] give_back.hyps engine_side_more(2) [of u v] by simp
  moreover have "transport_ok E bm_ok v"
    using moves_transport_ok [OF give_back.hyps(1) env] give_back.prems by blast
  ultimately show ?case
    using give_back release_handler_others [OF env _ give_back.hyps(2)] by simp
qed simp_all

subsection \<open>The invariant of the process\<close>

definition process_ok :: "('bm, 'v) env \<Rightarrow> ('bm \<Rightarrow> bool) \<Rightarrow> 'bm process \<Rightarrow> bool" where
  "process_ok E bm_ok p \<longleftrightarrow> statics_ok (p_statics p) \<and>
     (\<forall>me w. p_transports p me = Some w \<longrightarrow> self w = me \<and> transport_ok E bm_ok (enter p w))"

lemma transport_ok_statics_ok: "transport_ok E bm_ok w \<Longrightarrow> statics_ok (statics w)"
  by (simp add: transport_ok_def handlers_ok_def storage_inv_def registry_inv_def)

lemma transport_ok_enter:
  assumes ok: "transport_ok E bm_ok (enter p w)" and g: "statics_ok (p_statics q)"
    and same: "entries_of (enter q w) (self w) = entries_of (enter p w) (self w)"
  shows "transport_ok E bm_ok (enter q w)"
  using assms
  by (simp add: transport_ok_def handlers_ok_def storage_inv_def registry_inv_def listeners_def
      entries_of_def)

lemma process_ok_moves:
  assumes env: "env_ok E bm_ok" and p: "process_ok E bm_ok p"
    and w: "transport_ok E bm_ok w" "statics w = p_statics p" "self w = me"
    and moves: "moves E w v"
    and q: "p_statics q = statics v" "p_transports q = (p_transports p)(me := x)"
      "\<And>u. x = Some u \<Longrightarrow> u = v \<and> hist v = p_hist q"
  shows "process_ok E bm_ok q"
  unfolding process_ok_def
proof (intro conjI allI impI)
  have v: "transport_ok E bm_ok v" using moves_transport_ok [OF moves env w(1)] .
  show g: "statics_ok (p_statics q)" using transport_ok_statics_ok [OF v] q(1) by simp
  have others: "self v = me" "other \<noteq> me \<Longrightarrow> entries_of v other = entries_of w other" for other
    using moves_others [OF moves env w(1)] w(3) by auto
  fix other u assume u: "p_transports q other = Some u"
  have "self u = other \<and> transport_ok E bm_ok (enter q u)"
  proof (cases "other = me")
    case True
    with u q have uv: "u = v" "hist v = p_hist q" by simp_all
    then have "enter q u = v" using q(1) by (cases v) (simp add: enter_def)
    with True v others(1) uv show ?thesis by simp
  next
    case False
    with u q(2) have "p_transports p other = Some u" by simp
    then have u: "self u = other" "transport_ok E bm_ok (enter p u)"
      using p by (auto simp: process_ok_def)
    moreover have "entries_of (enter q u) other = entries_of (enter p u) other"
      using others(2) [OF False] q(1) w(2) by (simp add: entries_of_def)
    ultimately show ?thesis using transport_ok_enter [OF u(2) g] by simp
  qed
  then show "self u = other" "transport_ok E bm_ok (enter q u)" by simp_all
qed

lemma process_ok_leave:
  assumes "env_ok E bm_ok" "process_ok E bm_ok p" "p_transports p me = Some w"
    and "moves E (enter p w) v"
  shows "process_ok E bm_ok (leave p me v)"
proof (rule process_ok_moves [OF assms(1,2) _ _ _ assms(4)])
  show "transport_ok E bm_ok (enter p w)" "self (enter p w) = me"
    using assms(2,3) by (auto simp: process_ok_def)
qed auto

lemma call_engine_moves: "moves E w (snd (call_engine E cmd w))"
  by (metis moves_call_engine prod.collapse)

lemma new_internal_moves:
  assumes "new_internal E me c u remote path rc (g, h) = (r, g', h')"
  obtains "(g', h') = (g, h)" "\<nexists>v. r = Ok v"
  | v where "moves E (fresh_world E me c u remote path (g, h)) v" "g' = statics v" "h' = hist v"
      "\<And>x. r = Ok x \<Longrightarrow> x = v"
proof (cases "u8_try_from (ue_version_major u) = None \<or> \<not> u_verify_rpc_response (e_up E) u \<or>
    get_callback_runtime_handle E rc = Panic")
  case True
  with assms have "(g', h') = (g, h)" "\<nexists>v. r = Ok v"
    by (auto simp: new_internal_def split: if_splits)
  then show ?thesis using that(1) by simp
next
  case False
  let ?w = "fresh_world E me c u remote path (g, h)"
  obtain q v where init: "initialize_vsomeip_app E (app_name c) ?w = (q, v)" by fastforce
  then have v: "moves E ?w v"
    using call_engine_moves [of E ?w "StartVsomeipApp (app_id c) (app_name c)"]
    by (auto simp: initialize_vsomeip_app_def transport_storage_new_def
        split: prod.splits outcome.splits)
  obtain d x where drop: "drop_transport E v = (d, x)" by fastforce
  have x: "moves E ?w x"
    using moves_trans [OF v] drop_transport_moves [of E v] drop by simp
  show ?thesis
  proof (cases q)
    case (Err e)
    with assms False init drop have "r \<noteq> Ok y" "g' = statics x" "h' = hist x" for y
      by (cases d; auto simp: new_internal_def Let_def)+
    with x that(2) show ?thesis by blast
  next
    case (Ok y)
    with assms False init have "r = Ok v" "g' = statics v" "h' = hist v"
      by (auto simp: new_internal_def Let_def)
    with v that(2) show ?thesis by blast
  next
    case Panic
    with assms False init have "r = Panic" "g' = statics v" "h' = hist v"
      by (auto simp: new_internal_def Let_def)
    with v that(2) show ?thesis by blast
  qed
qed

lemma new_internal_process_ok:
  assumes env: "env_ok E bm_ok" and p: "process_ok E bm_ok p"
    and none: "p_transports p me = None"
      "me \<notin> ran (message_handler_id_to_transport_storage (p_statics p))"
    and new: "new_internal E me c u remote path rc (p_statics p, p_hist p) = (r, g, h)"
  shows "r = Ok v \<Longrightarrow> process_ok E bm_ok (leave p me v)"
    and "(\<nexists>v. r = Ok v) \<Longrightarrow> process_ok E bm_ok (p\<lparr>p_statics := g, p_hist := h\<rparr>)"
proof -
  have g: "statics_ok (p_statics p)" using p by (simp add: process_ok_def)
  let ?w = "fresh_world E me c u remote path (p_statics p, p_hist p)"
  note fresh = fresh_world_ok(1) [OF env g none(2), of c u remote path "p_hist p"]
  let ?p = "p\<lparr>p_statics := new_trait_obj (p_statics p)\<rparr>"
  have p': "process_ok E bm_ok ?p"
    unfolding process_ok_def
  proof (intro conjI allI impI)
    show g': "statics_ok (p_statics ?p)" using g by (simp add: statics_ok_def)
    fix other u assume "p_transports ?p other = Some u"
    then have u: "self u = other" "transport_ok E bm_ok (enter p u)"
      using p by (auto simp: process_ok_def)
    then show "self u = other" "transport_ok E bm_ok (enter ?p u)"
      using transport_ok_enter [OF u(2) g'] by (simp_all add: entries_of_def)
  qed
  from new have "(r = Ok v \<longrightarrow> process_ok E bm_ok (leave p me v)) \<and>
    ((\<nexists>v. r = Ok v) \<longrightarrow> process_ok E bm_ok (p\<lparr>p_statics := g, p_hist := h\<rparr>))"
  proof (cases rule: new_internal_moves)
    case 1
    with p show ?thesis by (cases p) auto
  next
    case (2 x)
    have "process_ok E bm_ok (leave p me x)"
      by (rule process_ok_moves [OF env p' fresh _ _ 2(1)]) auto
    moreover have "process_ok E bm_ok (p\<lparr>p_statics := g, p_hist := h\<rparr>)"
    proof (rule process_ok_moves [OF env p' fresh _ _ 2(1), where x = None])
      show "p_transports (p\<lparr>p_statics := g, p_hist := h\<rparr>) = (p_transports ?p)(me := None)"
        using none(1) by auto
    qed (use 2 in simp_all)
    ultimately show ?thesis using 2 by auto
  qed
  then show "r = Ok v \<Longrightarrow> process_ok E bm_ok (leave p me v)"
    "(\<nexists>v. r = Ok v) \<Longrightarrow> process_ok E bm_ok (p\<lparr>p_statics := g, p_hist := h\<rparr>)" by blast+
qed

lemma convert_caller_side:
  "caller_side (snd (convert_vsomeip_msg_to_umsg U V n auth me remote m w)) = caller_side w"
  by (rule untouched_caller_side [OF convert_untouched])

lemma convert_moves:
  "moves E w (snd (convert_vsomeip_msg_to_umsg (e_up E) V n auth me remote m w))"
  by (rule moves.engine [OF moves.stay convert_caller_side])
    (simp add: correlated_def convert_numbered)

lemma engine_run_moves: "moves E w (snd (engine_run E n w))"
  by (rule moves.engine [OF moves.stay engine_run_caller_side correlated_engine_run])

lemma call_shared_extern_fn_moves:
  assumes "call_shared_extern_fn E n i m p = (d, q)"
  obtains "q = p"
  | me w v where "p_transports p me = Some w" "moves E (enter p w) v" "q = leave p me v"
proof (cases "get_message_handler_id_transport i p")
  case None
  with assms that(1) show ?thesis by (simp add: call_shared_extern_fn_def)
next
  case (Some mw)
  obtain me w where mw: "mw = (me, w)" by (cases mw)
  with Some have w: "p_transports p me = Some w"
    by (auto simp: get_message_handler_id_transport_def split: option.splits)
  obtain r v where conv: "convert_vsomeip_msg_to_umsg (e_up E) (e_vs E) n
      (get_local_authority (storage w)) (storage_uri (storage w)) (remote_authority (storage w)) m
      (enter p w) = (r, v)" by fastforce
  then have "moves E (enter p w) v" using convert_moves by (metis snd_conv)
  moreover have "q = leave p me v"
    using assms Some mw conv
    by (cases r) (auto simp: call_shared_extern_fn_def split: option.splits)
  ultimately show ?thesis using that(2) w by blast
qed

lemma call_shared_extern_fn_ok:
  assumes env: "env_ok E bm_ok" and p: "process_ok E bm_ok p"
    and call: "call_shared_extern_fn E n i m p = (d, q)"
  shows "process_ok E bm_ok q"
  using call process_ok_leave [OF env p] p
  by (cases rule: call_shared_extern_fn_moves) simp_all

lemma process_step_ok:
  assumes "env_ok E bm_ok" "process_ok E bm_ok p" "process_step E p q"
  shows "process_ok E bm_ok q"
  using assms(3)
proof (cases rule: process_step.cases)
  case (registers me w src snk l r v)
  then show ?thesis
    using process_ok_leave [OF assms(1,2)] register_listener_moves [OF assms(1)] by (metis snd_conv)
next
  case (unregisters me w src snk l r v)
  then show ?thesis
    using process_ok_leave [OF assms(1,2)] unregister_listener_moves by (metis snd_conv)
next
  case (sends me w umsg r v)
  then show ?thesis using process_ok_leave [OF assms(1,2)] send_moves by (metis snd_conv)
next
  case (engine_works me w a v)
  then show ?thesis using process_ok_leave [OF assms(1,2)] engine_run_moves by (metis snd_conv)
next
  case (makes me c u remote path rc v g h)
  then show ?thesis using new_internal_process_ok(1) [OF assms(1,2)] by blast
next
  case (makes_none me c u remote path rc r g h)
  then show ?thesis using new_internal_process_ok(2) [OF assms(1,2)] by blast
next
  case (drops me w r v)
  have w: "transport_ok E bm_ok (enter p w)" "self (enter p w) = me"
    using assms(2) drops by (auto simp: process_ok_def)
  have "moves E (enter p w) v" using drop_transport_moves drops by (metis snd_conv)
  from process_ok_moves [OF assms(1,2) w(1) _ w(2) this, where x = None] drops show ?thesis
    by simp
next
  case (receives n i m d)
  then show ?thesis using call_shared_extern_fn_ok [OF assms(1,2)] by blast
qed

lemma process_init_ok: "process_ok E bm_ok process_init"
  by (simp add: process_ok_def process_init_def statics_ok_init)

lemma process_reachable_ok:
  assumes "process_reachable E p" "env_ok E bm_ok" shows "process_ok E bm_ok p"
  using assms by (induction rule: process_reachable.induct) (blast intro: process_init_ok process_step_ok)+


subsection \<open>Properties\<close>

lemma process_ok_entry:
  assumes p: "process_ok E bm_ok p" and env: "env_ok E bm_ok" and w: "p_transports p me = Some w"
  shows "transport_ok E bm_ok (enter p w)" "self w = me"
    "dom (listeners E w) = {i. message_handler_id_to_transport_storage (p_statics p) i = Some me}"
    "inj_on (listeners E w) (dom (listeners E w))" "statics_ok (p_statics p)"
proof -
  from p w show ok: "transport_ok E bm_ok (enter p w)"
    and me: "self w = me" and "statics_ok (p_statics p)" by (auto simp: process_ok_def)
  then show "dom (listeners E w) =
      {i. message_handler_id_to_transport_storage (p_statics p) i = Some me}"
    by (simp add: transport_ok_def handlers_ok_def storage_inv_def registry_inv_def listeners_def
        storage_view_def)
  have "bimap_spec (e_bm E) bm_ok" using env by (simp add: env_ok_def)
  from bimap_spec.storage_view_inj [OF this, of "self w" "(p_statics p, storage w)"] ok
  show "inj_on (listeners E w) (dom (listeners E w))"
    by (simp add: transport_ok_def handlers_ok_def listeners_def)
qed

lemma process_ok_exclusive:
  assumes p: "process_ok E bm_ok p" and env: "env_ok E bm_ok"
    and w: "p_transports p me = Some w" and i: "listeners E w i = Some c"
  shows "i < num_message_handlers \<and> i \<notin> free_message_handler_ids (p_statics p) \<and>
    get_message_handler_id_transport i p = Some (me, w) \<and>
    (\<nexists>me' w'. p_transports p me' = Some w' \<and> listeners E w' i \<noteq> None \<and> me' \<noteq> me) \<and>
    (\<nexists>j. listeners E w j = Some c \<and> j \<noteq> i)"
proof -
  note entry = process_ok_entry [OF p env]
  have entry_i: "message_handler_id_to_transport_storage (p_statics p) i = Some me"
    using entry(3) [OF w] i by auto
  moreover have "i < num_message_handlers \<and> i \<notin> free_message_handler_ids (p_statics p)"
    using entry(5) [OF w] entry_i by (auto simp: statics_ok_def)
  moreover have "me' = me" if "p_transports p me' = Some w'" "listeners E w' i \<noteq> None" for me' w'
  proof -
    have "i \<in> dom (listeners E w')" using that(2) by auto
    then show ?thesis using entry(3) [OF that(1)] entry_i by simp
  qed
  moreover have "j = i" if "listeners E w j = Some c" for j
    using inj_onD [OF entry(4) [OF w], of i j] that i by auto
  ultimately show ?thesis
    using w by (auto simp: get_message_handler_id_transport_def)
qed

lemma process_ok_dispatch:
  assumes p: "process_ok E bm_ok p" and env: "env_ok E bm_ok"
    and w: "p_transports p me = Some w" and i: "listeners E w i = Some (src, snk, l)"
    and conv: "convert_vsomeip_msg_to_umsg (e_up E) (e_vs E) n (get_local_authority (storage w))
      (storage_uri (storage w)) (remote_authority (storage w)) m (enter p w) = (r, v)"
  shows "call_shared_extern_fn E n i m p =
    ((case r of Ok umsg \<Rightarrow> Some (l, umsg) | _ \<Rightarrow> None), leave p me v)"
proof -
  have "message_handler_id_to_transport_storage (p_statics p) i = Some me"
    using process_ok_entry(3) [OF p env w] i by auto
  then have found: "get_message_handler_id_transport i p = Some (me, w)"
    using w by (simp add: get_message_handler_id_transport_def)
  have "caller_side v = caller_side (enter p w)"
    using convert_caller_side conv by (metis snd_conv)
  from caller_side_handlers(2) [OF this, of E] i have "listeners E v i = Some (src, snk, l)"
    by (simp add: listeners_def)
  then have "storage_get_listener_for_message_handler_id (e_bm E) (storage v) i = Some l"
    using bimap_spec.storage_listener_view [of "e_bm E" bm_ok "(statics v, storage v)" i] env
    by (simp add: env_ok_def listeners_def)
  with found conv show ?thesis
    by (cases r) (simp_all add: call_shared_extern_fn_def)
qed

text \<open>A process with one transport and one listener, for the witnesses.\<close>

lemma demo_transport:
  obtains w v i where "new_internal (demo_env (\<lambda>_. 1)) 0 \<lparr>app_name = ''new'', app_id = 1\<rparr>
      (demo_uri 0x10 0) ''r'' None None (statics_init, []) = (Ok w, statics w, hist w)" "queue w = []"
    "register_listener (demo_env (\<lambda>_. 1)) (demo_uri 1 0x8001) None (Listener 3) w = (Ok (), v)"
    "listeners (demo_env (\<lambda>_. 1)) v = [i \<mapsto> (demo_uri 1 0x8001, None, Listener 3)]"
proof -
  let ?E = "demo_env (\<lambda>_. 1)"
  let ?c = "\<lparr>app_name = ''new'', app_id = 1\<rparr>"
  have ids: "free_state_handler_ids statics_init = {..<num_state_handlers}"
    by (simp add: statics_init_def)
  have "0 \<notin> ran (message_handler_id_to_transport_storage statics_init)"
    by (simp add: statics_init_def)
  from new_internal_ready [OF demo_env_ok statics_ok_init states_ok_init this,
      of "demo_uri 0x10 0" "\<lambda>_. 1" None 0 "[]" ?c ST_REGISTERED "[]" "''r''" None]
  obtain w where w: "new_internal ?E 0 ?c (demo_uri 0x10 0) ''r'' None None (statics_init, []) =
      (Ok w, statics w, hist w)" "transport_ok ?E pairs_ok w" "listeners ?E w = Map.empty"
    "hist w = start_calls ref_vsomeip [] ''new'' None 0 @ [UnregisterStateHandler ''new'']"
    "free_handlers w = free_message_handler_ids statics_init" "queue w = []" "engine_alive w"
    "application_of w = ''new''"
    by (auto simp: ids Min_state_handlers ref_up_rust_def demo_uri_def state_channel_capacity_def
        runtime_threads_def DEFAULT_NUM_THREADS_def)
  have "list_ex (creates ''new'') (hist w)" using w(4) by (simp add: start_calls_def Let_def)
  then obtain i v where v: "register_listener ?E (demo_uri 1 0x8001) None (Listener 3) w = (Ok (), v)"
    "listeners ?E v = [i \<mapsto> (demo_uri 1 0x8001, None, Listener 3)]"
    using register_listener_runs [OF demo_env_ok w(2), of "demo_uri 1 0x8001" None Publish "Listener 3"]
      w by (auto simp: prompt_def free_handlers_def statics_init_def)
  from that [OF w(1,6) v] show ?thesis .
qed

lemma demo_process:
  obtains p w i where "process_reachable (demo_env (\<lambda>_. 1)) p" "p_transports p 0 = Some w"
    "listeners (demo_env (\<lambda>_. 1)) w i = Some (demo_uri 1 0x8001, None, Listener 3)"
proof -
  let ?E = "demo_env (\<lambda>_. 1)"
  let ?c = "\<lparr>app_name = ''new'', app_id = 1\<rparr>"
  obtain w v i where w: "new_internal ?E 0 ?c (demo_uri 0x10 0) ''r'' None None (statics_init, []) =
      (Ok w, statics w, hist w)"
    and v: "register_listener ?E (demo_uri 1 0x8001) None (Listener 3) w = (Ok (), v)"
      "listeners ?E v = [i \<mapsto> (demo_uri 1 0x8001, None, Listener 3)]"
    by (rule demo_transport)
  let ?p = "leave process_init 0 w"
  have "process_step ?E process_init ?p"
    by (rule process_step.makes [where me = 0 and c = ?c and u = "demo_uri 0x10 0"
          and remote = "''r''" and path = None and rc = None and g = "statics w" and h = "hist w"])
      (use w in \<open>simp_all add: process_init_def statics_init_def\<close>)
  then have p: "process_reachable ?E ?p"
    by (rule process_reachable.step [OF process_reachable.start])
  have enter: "enter ?p w = w" by (cases w) (simp add: enter_def)
  have "process_step ?E ?p (leave ?p 0 v)"
    by (rule process_step.registers [where w = w and src = "demo_uri 1 0x8001" and snk = None
          and l = "Listener 3" and r = "Ok ()"]) (use v(1) in \<open>simp_all add: enter\<close>)
  from process_reachable.step [OF p this] v(2) that [of "leave ?p 0 v" v i] show ?thesis by simp
qed

text \<open>In every state a process can reach, whatever its transports, their engines and vsomeip do,
  a handler function a listener is filed under is one of the generated ones, is not free, is
  found in the process-wide table for the transport that filed it, and is used for no other
  listener, in this transport or another.\<close>

theorem handler_functions_are_exclusive:
  assumes reach: "process_reachable E p" and env: "env_ok E bm_ok"
    and w: "p_transports p me = Some w" and i: "listeners E w i = Some c"
  shows "i < num_message_handlers \<and> i \<notin> free_message_handler_ids (p_statics p) \<and>
    get_message_handler_id_transport i p = Some (me, w) \<and>
    (\<nexists>me' w'. p_transports p me' = Some w' \<and> listeners E w' i \<noteq> None \<and> me' \<noteq> me) \<and>
    (\<nexists>j. listeners E w j = Some c \<and> j \<noteq> i)"
  by (rule process_ok_exclusive [OF process_reachable_ok [OF reach env] env w i])

theorem handler_functions_are_exclusive_witness:
  "\<exists>p w i. process_reachable (demo_env (\<lambda>_. 1)) p \<and> listeners (demo_env (\<lambda>_. 1)) w i \<noteq> None \<and>
    get_message_handler_id_transport i p = Some (0, w)"
proof -
  obtain p w i where p: "process_reachable (demo_env (\<lambda>_. 1)) p" "p_transports p 0 = Some w"
    "listeners (demo_env (\<lambda>_. 1)) w i = Some (demo_uri 1 0x8001, None, Listener 3)"
    by (rule demo_process)
  from handler_functions_are_exclusive [OF p(1) demo_env_ok p(2,3)] p show ?thesis by blast
qed

text \<open>A message that vsomeip hands to a handler function reaches the listener filed under that
  function, as the uProtocol message it is converted to, and no other listener; if it can not
  be converted, no listener is called.\<close>

theorem message_reaches_the_filed_listener:
  assumes reach: "process_reachable E p" and env: "env_ok E bm_ok"
    and w: "p_transports p me = Some w" and i: "listeners E w i = Some (src, snk, l)"
    and conv: "convert_vsomeip_msg_to_umsg (e_up E) (e_vs E) n (get_local_authority (storage w))
      (storage_uri (storage w)) (remote_authority (storage w)) m (enter p w) = (r, v)"
  shows "call_shared_extern_fn E n i m p =
    ((case r of Ok umsg \<Rightarrow> Some (l, umsg) | _ \<Rightarrow> None), leave p me v)"
  by (rule process_ok_dispatch [OF process_reachable_ok [OF reach env] env w i conv])

theorem message_reaches_the_filed_listener_witness:
  "\<exists>p i umsg q. process_reachable (demo_env (\<lambda>_. 1)) p \<and>
    call_shared_extern_fn (demo_env (\<lambda>_. 1)) 7 i (demo_incoming\<lparr>v_message_type := MT_NOTIFICATION\<rparr>) p =
      (Some (Listener 3, umsg), q)"
proof -
  obtain p w i where p: "process_reachable (demo_env (\<lambda>_. 1)) p" "p_transports p 0 = Some w"
    "listeners (demo_env (\<lambda>_. 1)) w i = Some (demo_uri 1 0x8001, None, Listener 3)"
    by (rule demo_process)
  obtain umsg where "convert_vsomeip_msg_to_umsg ref_up_rust ref_vsomeip 7
      (get_local_authority (storage w)) (storage_uri (storage w)) (remote_authority (storage w))
      (demo_incoming\<lparr>v_message_type := MT_NOTIFICATION\<rparr>) (enter p w) = (Ok umsg, enter p w)"
    by (simp add: convert_vsomeip_msg_to_umsg_def convert_vsomeip_mt_notification_to_umsg_def
        get_message_payload_def demo_incoming_def blank_message_def ref_up_rust_def Let_def)
  with message_reaches_the_filed_listener [OF p(1) demo_env_ok p(2,3), of 7] p(1)
  show ?thesis by fastforce
qed

text \<open>A message for a handler function that is free is dropped, and nothing changes: when a
  listener has been unregistered, or its transport dropped, it is not called any more, even if
  vsomeip still calls the function, as long as the function has not been taken again.\<close>

theorem message_for_a_free_function_is_dropped:
  assumes "process_reachable E p" "env_ok E bm_ok" "i \<in> free_message_handler_ids (p_statics p)"
  shows "call_shared_extern_fn E n i m p = (None, p)"
proof -
  have "statics_ok (p_statics p)"
    using process_reachable_ok [OF assms(1,2)] by (simp add: process_ok_def)
  then have "message_handler_id_to_transport_storage (p_statics p) i = None"
    using assms(3) by (auto simp: statics_ok_def)
  then show ?thesis
    by (simp add: call_shared_extern_fn_def get_message_handler_id_transport_def)
qed

theorem message_for_a_free_function_is_dropped_witness:
  "call_shared_extern_fn (demo_env (\<lambda>_. 1)) 0 3 demo_incoming process_init = (None, process_init)"
  by (rule message_for_a_free_function_is_dropped [OF process_reachable.start demo_env_ok])
    (simp add: process_init_def statics_init_def num_message_handlers_def)

end
