(* ===== verification/Process_Properties.thy ===== *)
theory Process_Properties
  imports Process
begin

text \<open>
  What holds of every transport in every state a process can reach, beyond the handlers: its
  address never changes and fits what the conversions need, so none of them panics, and its
  requests get identifiers that are not in use.  Then how often the methods of a transport
  wait for the engine.
\<close>

subsection \<open>The address\<close>

definition addressed :: "'bm world \<Rightarrow> uuri \<times> AuthorityName \<times> VsomeipApplicationConfig" where
  "addressed w =
     (storage_uri (storage w), remote_authority (storage w), vsomeip_application_config (storage w))"

lemma addressed_simps [simp]:
  "addressed (w\<lparr>point_to_point_listener := x\<rparr>) = addressed w"
  "addressed (w\<lparr>runtime_running := b\<rparr>) = addressed w"
  "addressed (enter p w) = addressed w"
  by (simp_all add: addressed_def)

lemma caller_side_addressed: "caller_side v = caller_side (w :: 'bm world) \<Longrightarrow> addressed v = addressed w"
  by (simp add: addressed_def caller_side_def untouched_def)

lemma engine_side_addressed:
  fixes v w :: "'bm world"
  assumes "engine_side v = engine_side w" shows "addressed v = addressed w"
  using assms by (simp add: addressed_def engine_side_def)

lemma moves_addressed: "moves E w v \<Longrightarrow> addressed v = addressed w"
proof (induction rule: moves.induct)
  case (engine v u)
  then show ?case using caller_side_addressed [of u v] by simp
next
  case (take_handler v c r u)
  then show ?case
    using engine_side_addressed [of u v] get_handler_engine_side [of E c v] by simp
next
  case (give_back v c r u)
  then show ?case
    using engine_side_addressed [of u v] release_handler_engine_side [of E c v] by simp
qed simp_all

definition address_ok :: "('bm, 'v) env \<Rightarrow> uuri \<Rightarrow> bool" where
  "address_ok E u \<longleftrightarrow> ue_version_major u < 256 \<and> u_verify_rpc_response (e_up E) u"

lemma new_internal_Ok:
  assumes "new_internal E me c u remote path rc (g, h) = (Ok v, g', h')"
  shows "address_ok E u" "addressed v = (u, remote, c)"
proof -
  from assms have "u8_try_from (ue_version_major u) \<noteq> None" "u_verify_rpc_response (e_up E) u"
    by (auto simp: new_internal_def split: if_splits)
  then show "address_ok E u" by (auto simp: address_ok_def u8_try_from_def split: if_splits)
  from assms have "moves E (fresh_world E me c u remote path (g, h)) v"
    by (cases rule: new_internal_moves) auto
  from moves_addressed [OF this] show "addressed v = (u, remote, c)"
    by (simp add: addressed_def fresh_world_def transport_storage_new_def)
qed

text \<open>What a step does to the transports.\<close>

lemma process_step_cases [consumes 2, case_names same moved made dropped]:
  assumes "env_ok E bm_ok" and "process_step E p q"
  obtains "p_transports q = p_transports p"
  | me w v where "p_transports p me = Some w" "moves E (enter p w) v" "q = leave p me v"
  | me c u remote path rc v g h where "p_transports p me = None" "q = leave p me v"
      "new_internal E me c u remote path rc (p_statics p, p_hist p) = (Ok v, g, h)"
  | me w where "p_transports p me = Some w" "p_transports q = (p_transports p)(me := None)"
  using assms(2)
proof (cases rule: process_step.cases)
  case (registers me w src snk l r v)
  then show ?thesis
    using that(2) [of me w v] register_listener_moves [OF assms(1), of "enter p w" src snk l] by simp
next
  case (unregisters me w src snk l r v)
  then show ?thesis
    using that(2) [of me w v] unregister_listener_moves [of E "enter p w" src snk l] by simp
next
  case (sends me w umsg r v)
  then show ?thesis using that(2) [of me w v] send_moves [of E "enter p w" umsg] by simp
next
  case (engine_works me w a v)
  then show ?thesis using that(2) [of me w v] engine_run_moves [of E "enter p w" 1] by simp
next
  case (makes me c u remote path rc v g h)
  then show ?thesis using that(3) by blast
next
  case (makes_none me c u remote path rc r g h)
  then show ?thesis using that(1) by simp
next
  case (drops me w r v)
  then show ?thesis using that(4) [of me w] by simp
next
  case (receives n i m d)
  from receives show ?thesis
  proof (cases rule: call_shared_extern_fn_moves)
    case 1 then show ?thesis using that(1) by simp
  next
    case (2 me w v) then show ?thesis using that(2) by simp
  qed
qed

lemma process_step_address:
  assumes "env_ok E bm_ok" "process_step E p q" "p_transports q me = Some v"
  shows "case p_transports p me of
      Some w \<Rightarrow> addressed v = addressed w
    | None \<Rightarrow> address_ok E (fst (addressed v))"
  using assms(1,2)
proof (cases rule: process_step_cases)
  case same
  then show ?thesis using assms(3) by simp
next
  case (moved other w u)
  then show ?thesis
    using assms(3) moves_addressed [OF moved(2)] by (cases "me = other") (simp_all split: option.split)
next
  case (made other c u remote path rc x g h)
  then show ?thesis
    using assms(3) new_internal_Ok [OF made(3)]
    by (cases "me = other") (simp_all split: option.split)
next
  case (dropped other w)
  then show ?thesis using assms(3) by (cases "me = other") simp_all
qed

lemma process_reachable_address:
  assumes "process_reachable E p" "env_ok E bm_ok" "p_transports p me = Some w"
  shows "address_ok E (fst (addressed w))"
  using assms
proof (induction arbitrary: w rule: process_reachable.induct)
  case start
  then show ?case by (simp add: process_init_def)
next
  case (step p q)
  then show ?case
    using process_step_address [of E bm_ok p q me w] by (cases "p_transports p me") auto
qed

text \<open>A transport keeps the address it was made with, in every step of every process: its major
  version fits 8 bits, it is the address of an RPC response, and its authority, its resource
  addresses and the application it talks through never change while it lives.\<close>

theorem transports_keep_their_address:
  assumes reach: "process_reachable E p" and env: "env_ok E bm_ok"
    and step: "process_step E p q" and v: "p_transports q me = Some v"
  shows "ue_version_major (get_source_uri v) < 256 \<and>
    u_verify_rpc_response (e_up E) (get_source_uri v) \<and>
    (\<forall>w. p_transports p me = Some w \<longrightarrow> get_source_uri v = get_source_uri w \<and>
       get_authority v = get_authority w \<and> get_resource_uri v i = get_resource_uri w i \<and>
       application_of v = application_of w)"
proof -
  have "address_ok E (fst (addressed v))"
    using process_reachable_address [OF process_reachable.step [OF reach step] env v] .
  moreover have "addressed v = addressed w" if "p_transports p me = Some w" for w
    using process_step_address [OF env step v] that by simp
  ultimately show ?thesis
    by (auto simp: address_ok_def addressed_def get_source_uri_def get_authority_def
        get_resource_uri_def application_of_def)
qed

theorem transports_keep_their_address_witness:
  "\<exists>p q w v. process_reachable (demo_env (\<lambda>_. 1)) p \<and> process_step (demo_env (\<lambda>_. 1)) p q \<and>
    p_transports p 0 = Some w \<and> p_transports q 0 = Some v \<and> get_source_uri v = get_source_uri w"
proof -
  obtain p w i where p: "process_reachable (demo_env (\<lambda>_. 1)) p" "p_transports p 0 = Some w"
    "listeners (demo_env (\<lambda>_. 1)) w i = Some (demo_uri 1 0x8001, None, Listener 3)"
    by (rule demo_process)
  obtain r v where "engine_run (demo_env (\<lambda>_. 1)) 1 (enter p w) = (r, v)" by fastforce
  from process_step.engine_works [OF p(2) this]
  have step: "process_step (demo_env (\<lambda>_. 1)) p (leave p 0 v)" .
  have v: "p_transports (leave p 0 v) 0 = Some v" by simp
  from transports_keep_their_address [OF p(1) demo_env_ok step v] p(2)
  have "get_source_uri v = get_source_uri w" by blast
  with p(1,2) step v show ?thesis by blast
qed

lemma address_ok_never_panics:
  assumes "address_ok E (fst (addressed w))"
  shows "fst (convert_vsomeip_msg_to_umsg U V n authority (get_source_uri w) remote m v) \<noteq> Panic"
  using assms
  by (auto simp: incoming_message_panics_iff address_ok_def addressed_def get_source_uri_def)

text \<open>No message from SOME/IP makes a conversion panic: in every reachable process, for every
  transport and every message, converting it gives a message or an error.\<close>

theorem incoming_messages_never_panic:
  assumes reach: "process_reachable E p" and env: "env_ok E bm_ok"
    and w: "p_transports p me = Some w"
  shows "fst (convert_vsomeip_msg_to_umsg (e_up E) (e_vs E) n (get_local_authority (storage w))
      (get_source_uri w) (remote_authority (storage w)) m (enter p w)) \<noteq> Panic"
  by (rule address_ok_never_panics [OF process_reachable_address [OF reach env w]])

theorem incoming_messages_never_panic_witness:
  "\<exists>p w. process_reachable (demo_env (\<lambda>_. 1)) p \<and> p_transports p 0 = Some w \<and>
    fst (convert_vsomeip_msg_to_umsg ref_up_rust ref_vsomeip 7 (get_local_authority (storage w))
      (get_source_uri w) (remote_authority (storage w)) demo_incoming (enter p w)) \<noteq> Panic"
proof -
  obtain p w i where p: "process_reachable (demo_env (\<lambda>_. 1)) p" "p_transports p 0 = Some w"
    "listeners (demo_env (\<lambda>_. 1)) w i = Some (demo_uri 1 0x8001, None, Listener 3)"
    by (rule demo_process)
  from incoming_messages_never_panic [OF p(1) demo_env_ok p(2), of 7 demo_incoming] p
  show ?thesis by auto
qed

subsection \<open>Requests\<close>

lemma moves_correlated: "moves E w v \<Longrightarrow> correlated E w \<Longrightarrow> correlated E v"
proof (induction rule: moves.induct)
  case (take_handler v c r u)
  have "engine_side u = engine_side v"
    using take_handler get_handler_engine_side [of E c v] by simp
  then have "rpc_registry (storage u) = rpc_registry (storage v)" by (simp add: engine_side_def)
  with take_handler show ?case using correlated_same by blast
next
  case (give_back v c r u)
  have "engine_side u = engine_side v"
    using give_back release_handler_engine_side [of E c v] by simp
  then have "rpc_registry (storage u) = rpc_registry (storage v)" by (simp add: engine_side_def)
  with give_back show ?case using correlated_same by blast
qed simp_all

lemma correlated_enter [simp]: "correlated E (enter p w) = correlated E w"
  by (rule correlated_same) simp

lemma new_internal_correlated:
  assumes "new_internal E me c u remote path rc (g, h) = (Ok v, g', h')"
  shows "correlated E v"
proof -
  from assms have "moves E (fresh_world E me c u remote path (g, h)) v"
    by (cases rule: new_internal_moves) auto
  then show ?thesis
    by (rule moves_correlated)
      (simp add: correlated_def requests_numbered_def table_defs fresh_world_def
        transport_storage_new_def rpc_correlation_new_def)
qed

lemma process_reachable_correlated:
  assumes "process_reachable E p" "env_ok E bm_ok" "p_transports p me = Some w"
  shows "correlated E w"
  using assms
proof (induction arbitrary: me w rule: process_reachable.induct)
  case start
  then show ?case by (simp add: process_init_def)
next
  case (step p q)
  from step.prems(1) step.hyps(2) show ?case
  proof (cases rule: process_step_cases)
    case same
    with step show ?thesis by simp
  next
    case (moved other x v)
    then have "correlated E v"
      using moves_correlated [OF moved(2)] step.IH [OF step.prems(1) moved(1)] by simp
    with moved step show ?thesis by (cases "me = other") simp_all
  next
    case (made other c u remote path rc v g h)
    with new_internal_correlated [OF made(3)] step show ?thesis by (cases "me = other") simp_all
  next
    case (dropped other x)
    with step show ?thesis by (cases "me = other") simp_all
  qed
qed

lemma correlated_request_sent:
  assumes ok: "correlated E w" and oc: "e_overflow_checks E"
    and t: "msg_type (attributes_of U umsg) = Some UMESSAGE_TYPE_REQUEST"
    and attrs: "msg_source (attributes_of U umsg) = Some src"
      "msg_sink (attributes_of U umsg) = Some snk" "msg_id (attributes_of U umsg) = Some i"
  shows "ue_table w (next_request_id V app w) = None \<and>
    fst (send_internal U V (e_overflow_checks E) umsg app w) =
      (if session_table w (vs_get_client V (hist w) app) = Some 0xFFFF then Panic else Ok ())"
proof -
  let ?c = "vs_get_client V (hist w) app"
  have num: "requests_numbered w" using ok oc by (simp add: correlated_def)
  have "next_request_id V app w = create_request_id ?c (current_session ?c w)"
    by (simp add: next_request_id_def Let_def)
  then have free: "ue_table w (next_request_id V app w) = None"
    using requests_numberedD [OF num, of ?c "current_session ?c w"] by (metis order_less_irrefl)
  have "fst (send_internal U V True umsg app w) = Ok ()" if "session_table w ?c \<noteq> Some 0xFFFF"
    using request_accepted [OF attrs refl _ free, of True] that t
    by (auto simp: send_internal_def Let_def)
  moreover have "fst (send_internal U V True umsg app w) = Panic"
    if "session_table w ?c = Some 0xFFFF"
    using that t attrs by (simp add: send_panic_iff)
  ultimately show ?thesis using free oc by simp
qed

lemma tables_enter [simp]:
  "ue_table (enter p w) = ue_table w" "session_table (enter p w) = session_table w"
  by (simp_all add: table_defs)

text \<open>In a build with overflow checks the identifier a request is filed under is never in use, in
  any reachable process: a complete request is sent, unless its client's session counter
  stands at its largest value, and is never refused because of another one, however many
  requests are waiting for their answers.\<close>

theorem requests_get_fresh_identifiers:
  assumes reach: "process_reachable E p" and env: "env_ok E bm_ok" and oc: "e_overflow_checks E"
    and w: "p_transports p me = Some w"
    and t: "msg_type (attributes_of U umsg) = Some UMESSAGE_TYPE_REQUEST"
    and attrs: "msg_source (attributes_of U umsg) = Some src"
      "msg_sink (attributes_of U umsg) = Some snk" "msg_id (attributes_of U umsg) = Some i"
  shows "ue_table w (next_request_id V app (enter p w)) = None \<and>
    fst (send_internal U V (e_overflow_checks E) umsg app (enter p w)) =
      (if session_table w (vs_get_client V (p_hist p) app) = Some 0xFFFF then Panic else Ok ())"
proof -
  have "correlated E (enter p w)" using process_reachable_correlated [OF reach env w] by simp
  from correlated_request_sent [OF this oc t attrs, of V app] show ?thesis by simp
qed

theorem requests_get_fresh_identifiers_witness:
  "\<exists>p w. process_reachable (demo_env (\<lambda>_. 1)) p \<and> p_transports p 0 = Some w \<and>
    ue_table w (next_request_id ref_vsomeip ''new'' (enter p w)) = None"
proof -
  let ?m = "demo_message UMESSAGE_TYPE_REQUEST (demo_uri 0x11 0) (Some (demo_uri 0x22 0x33)) None"
  obtain p w i where p: "process_reachable (demo_env (\<lambda>_. 1)) p" "p_transports p 0 = Some w"
    "listeners (demo_env (\<lambda>_. 1)) w i = Some (demo_uri 1 0x8001, None, Listener 3)"
    by (rule demo_process)
  from requests_get_fresh_identifiers [OF p(1) demo_env_ok _ p(2), of ref_up_rust ?m
      "demo_uri 0x11 0" "demo_uri 0x22 0x33" "UUID 7" ref_vsomeip "''new''"] p
  show ?thesis by auto
qed

subsection \<open>Waiting\<close>

text \<open>\<open>awaits\<close> counts the waits for an answer of the engine, of at most three seconds each.\<close>

lemma engine_run_awaits [simp]: "awaits (snd (engine_run E n w)) = awaits w"
proof (induction n arbitrary: w)
  case (Suc n)
  show ?case
  proof (cases "queue w")
    case (Cons cmd cmds)
    obtain r v where exec: "engine_execute E cmd (w\<lparr>queue := cmds\<rparr>) = (r, v)" by fastforce
    then have "awaits v = awaits w" using engine_execute_fields(3) [of E cmd "w\<lparr>queue := cmds\<rparr>"] by simp
    with Cons exec Suc [of v] show ?thesis by (cases r) simp_all
  qed simp
qed simp

lemma call_engine_awaits: "awaits (snd (call_engine E cmd w)) \<le> Suc (awaits w)"
proof -
  obtain r v where send: "send_to_engine_with_status E cmd w = (r, v)" by fastforce
  have v: "awaits v = awaits w"
    using send engine_run_awaits [of E 1 w]
    by (auto simp: send_to_engine_with_status_def Let_def split: if_splits)
  obtain a u where run: "engine_run E (e_slots E (awaits v)) (v\<lparr>awaits := Suc (awaits v)\<rparr>) = (a, u)"
    by fastforce
  then have "awaits u = awaits (v\<lparr>awaits := Suc (awaits v)\<rparr>)" by (metis engine_run_awaits snd_conv)
  with run have "awaits (snd (await_engine E v)) = Suc (awaits v)"
    by (cases a) (simp_all add: await_engine_def)
  with v send show ?thesis by (cases r) (simp_all add: call_engine_def)
qed

lemma handlers_awaits [simp]:
  "awaits (snd (get_handler E c w)) = awaits w" "awaits (snd (release_handler E c w)) = awaits w"
  by (simp_all add: get_handler_def release_handler_def on_handlers_def case_prod_unfold Let_def)

lemma on_handlers_constant [simp]:
  "point_to_point_listener (snd (on_handlers f w)) = point_to_point_listener w"
  "config_path (snd (on_handlers f w)) = config_path (w :: 'bm world)"
  by (simp_all add: on_handlers_def case_prod_unfold Let_def)

lemma register_services_awaits:
  "awaits (snd (register_services E l ss w)) \<le> awaits w + length ss"
proof (induction ss arbitrary: w)
  case (Cons s ss)
  let ?snk = "any_uuri_fixed_authority_id (get_local_authority (storage w)) (service_ue_id s)"
  obtain r u where g: "get_handler E (u_any (e_up E), Some ?snk, l) w = (r, u)" by fastforce
  then have u: "awaits u = awaits w" using handlers_awaits(1) by (metis snd_conv)
  show ?case
  proof (cases r)
    case (Ok h)
    obtain q v where c: "call_engine E (RegisterListener (u_any (e_up E)) (Some ?snk) Request h
        (application_of u)) u = (q, v)" by fastforce
    then have "awaits v \<le> Suc (awaits u)" using call_engine_awaits by (metis snd_conv)
    with Cons [of v] g Ok c u show ?thesis by (cases q) (simp_all add: Let_def)
  qed (use g u in \<open>simp_all add: Let_def\<close>)
qed simp

lemma unregister_services_awaits:
  "awaits (snd (unregister_services E l ss w)) \<le> awaits w + length ss"
proof (induction ss arbitrary: w)
  case (Cons s ss)
  let ?snk = "any_uuri_fixed_authority_id (get_local_authority (storage w)) (service_ue_id s)"
  obtain t where t: "determine_type (e_up E) (u_any (e_up E)) (Some ?snk) = Ok t"
    using determine_type_total by blast
  obtain q v where c: "call_engine E (UnregisterListener (u_any (e_up E)) (Some ?snk) t
      (application_of w)) w = (q, v)" by fastforce
  then have "awaits v \<le> Suc (awaits w)" using call_engine_awaits by (metis snd_conv)
  moreover obtain r u where "release_handler E (u_any (e_up E), Some ?snk, l) v = (r, u)" by fastforce
  moreover from this have "awaits u = awaits v" using handlers_awaits(2) by (metis snd_conv)
  ultimately show ?case using Cons [of v] Cons [of u] t c by (cases q) (simp_all add: Let_def)
qed simp

definition configured_services :: "('bm, 'v) env \<Rightarrow> 'bm world \<Rightarrow> ServiceConfig list" where
  "configured_services E w =
     (case config_path w of
        None \<Rightarrow> []
      | Some path \<Rightarrow> (case extract_services (e_json E) path of Ok ss \<Rightarrow> ss | _ \<Rightarrow> []))"

lemma point_to_point_awaits:
  "awaits (snd (register_point_to_point_listener E l w)) \<le>
     awaits w + length (configured_services E w)"
  "awaits (snd (unregister_point_to_point_listener E w)) \<le>
     awaits w + length (configured_services E w)"
  using register_services_awaits [of E l _ "w\<lparr>point_to_point_listener := Some l\<rparr>"]
    unregister_services_awaits [of E _ _ w]
  by (auto simp: register_point_to_point_listener_def unregister_point_to_point_listener_def
      configured_services_def split: option.split outcome.split)

lemma unregister_listener_awaits:
  assumes "determine_type (e_up E) src snk = Ok t"
  shows "awaits (snd (unregister_listener E src snk l w)) \<le>
    awaits w + (if t = AllPointToPoint then length (configured_services E w) else 1)"
proof -
  obtain r v where c: "call_engine E (UnregisterListener src snk t (application_of w)) w = (r, v)"
    by fastforce
  then have "awaits v \<le> Suc (awaits w)" using call_engine_awaits by (metis snd_conv)
  moreover obtain q u where "release_handler E (src, snk, l) v = (q, u)" by fastforce
  moreover from this have "awaits u = awaits v" using handlers_awaits(2) by (metis snd_conv)
  ultimately show ?thesis
    using assms c point_to_point_awaits(2) [of E w]
    by (cases r; cases q) (simp_all add: unregister_listener_def)
qed

lemma register_listener_awaits:
  assumes "determine_type (e_up E) src snk = Ok t"
  shows "awaits (snd (register_listener E src snk l w)) \<le>
    awaits w + (if t = AllPointToPoint then length (configured_services E w) else 1)"
proof -
  obtain r u where g: "get_handler E (src, snk, l) w = (r, u)" by fastforce
  then have "awaits u = awaits w" using handlers_awaits(1) by (metis snd_conv)
  then show ?thesis
    using assms g point_to_point_awaits(1) [of E l w]
      call_engine_awaits [of E _ u]
    by (cases r) (simp_all add: register_listener_def)
qed

lemma returning_response_awaits:
  "awaits (snd (register_for_returning_response E src snk t w)) \<le> Suc (awaits w)"
proof -
  have "awaits (snd (register_for_returning_response E src snk t w)) \<le> Suc (awaits w)"
    if l: "point_to_point_listener w = Some l" and s: "snk = Some d" and t: "t = Request" for l d
  proof -
    obtain r u where g: "get_handler E (d, Some src, l) w = (r, u)" by fastforce
    then have u: "awaits u = awaits w" using handlers_awaits(1) by (metis snd_conv)
    show ?thesis
    proof (cases r)
      case (Ok h)
      obtain q v where "call_engine E (RegisterListener d (Some src) Response h (application_of u)) u =
        (q, v)" by fastforce
      moreover from this have "awaits v \<le> Suc (awaits u)" using call_engine_awaits by (metis snd_conv)
      ultimately show ?thesis using l s t g u Ok
        by (cases q) (simp_all add: register_for_returning_response_def Let_def)
    next
      case (Err e)
      then show ?thesis using l s t g u
        by (cases e) (simp_all add: register_for_returning_response_def Let_def)
    qed (use l s t g u in \<open>simp add: register_for_returning_response_def Let_def\<close>)
  qed
  then show ?thesis
    by (cases "point_to_point_listener w"; cases snk; cases "t = Request")
      (simp_all add: register_for_returning_response_def)
qed

lemma send_awaits: "awaits (snd (send E umsg w)) \<le> awaits w + 2"
proof (cases "\<exists>a src. attributes umsg = Some a \<and> u_validate_attributes (e_up E) a \<and>
    msg_source a = Some src")
  case True
  then obtain a src where a: "attributes umsg = Some a" "u_validate_attributes (e_up E) a"
    "msg_source a = Some src" by blast
  obtain t where t: "determine_type (e_up E) src (msg_sink a) = Ok t"
    using determine_type_total by blast
  obtain r v where r: "register_for_returning_response E src (msg_sink a) t w = (r, v)" by fastforce
  then have "awaits v \<le> Suc (awaits w)" using returning_response_awaits by (metis snd_conv)
  then show ?thesis
    using a t r call_engine_awaits [of E "Send umsg t (application_of w)" v]
    by (cases r) (simp_all add: send_def Let_def)
next
  case False
  then have "send E umsg w = (Err INVALID_ARGUMENT, w)"
    by (auto simp: send_def split: option.split)
  then show ?thesis by simp
qed

lemma unregister_all_awaits:
  assumes "\<forall>c \<in> set cs. not_point_to_point E c"
  shows "awaits (snd (unregister_all E cs w)) \<le> awaits w + length cs"
  using assms
proof (induction cs arbitrary: w)
  case (Cons c cs)
  obtain src snk l where c: "c = (src, snk, l)" by (cases c)
  obtain t where t: "determine_type (e_up E) src snk = Ok t" using determine_type_total by blast
  with Cons.prems c have "t \<noteq> AllPointToPoint" by (auto simp: not_point_to_point_def)
  obtain r v where u: "unregister_listener E src snk l w = (r, v)" by fastforce
  with unregister_listener_awaits [OF t, of l w] \<open>t \<noteq> AllPointToPoint\<close>
  have "awaits v \<le> Suc (awaits w)" by simp
  with u c Cons.IH [of v] Cons.prems show ?case by (cases r) simp_all
qed simp

text \<open>C17. Every method waits for an answer of the engine a bounded number of times, however slow the engine is:
  registering and unregistering once, or once for each configured service when the filters are
  the point-to-point ones, sending at most twice, and dropping a transport once for each of its
  listeners and once more.  Counted are the waits for an answer, each of which has a time limit;
  the wait for room in a full channel, which has none, is not among them.\<close>

theorem methods_wait_boundedly:
  assumes env: "env_ok E bm_ok" and ok: "transport_ok E bm_ok w"
  shows "awaits (snd (register_listener E src snk l w)) \<le>
      awaits w + max 1 (length (configured_services E w)) \<and>
    awaits (snd (unregister_listener E src snk l w)) \<le>
      awaits w + max 1 (length (configured_services E w)) \<and>
    awaits (snd (send E umsg w)) \<le> awaits w + 2 \<and>
    awaits (snd (drop_transport E w)) \<le> awaits w + card (ran (listeners E w)) + 1"
proof -
  obtain t where t: "determine_type (e_up E) src snk = Ok t" using determine_type_total by blast
  have spec: "bimap_spec (e_bm E) bm_ok" using env by (simp add: env_ok_def)
  let ?cs = "storage_get_all_listener_configs (e_bm E) (storage w)"
  have "bm_ok (message_handler_registry (storage w))"
    using ok by (simp add: transport_ok_def handlers_ok_def storage_inv_def registry_inv_def)
  from bimap_spec.get_all_listener_configs_set [OF spec this]
  have cs: "set ?cs = ran (listeners E w)" "distinct ?cs"
    by (simp_all add: storage_get_all_listener_configs_def listeners_def storage_view_def)
  then have len: "length ?cs = card (ran (listeners E w))" by (metis distinct_card)
  obtain r v where all: "unregister_all E ?cs w = (r, v)" by fastforce
  have "\<forall>c \<in> set ?cs. not_point_to_point E c" using ok cs by (auto simp: transport_ok_def)
  then have v: "awaits v \<le> awaits w + length ?cs" using unregister_all_awaits all by (metis snd_conv)
  obtain q u where call: "call_engine E (StopVsomeipApp (application_of v)) v = (q, u)" by fastforce
  then have u: "awaits u \<le> Suc (awaits v)" using call_engine_awaits by (metis snd_conv)
  have drop: "awaits (snd (drop_transport E w)) \<le> awaits w + length ?cs + 1"
    using all call u v by (cases r; cases q) (auto simp: drop_transport_def shutdown_vsomeip_app_def)
  with register_listener_awaits [OF t, of l w] unregister_listener_awaits [OF t, of l w] send_awaits
  show ?thesis unfolding len by (auto split: if_splits)
qed

theorem methods_wait_boundedly_witness:
  "awaits (snd (drop_transport (demo_env (\<lambda>_. 0)) (demo_world []))) \<le> 1"
  using methods_wait_boundedly [OF demo_env_ok demo_world_ok(1), of "\<lambda>_. 0"
      "demo_uri 1 0x8001" None "Listener 3" "[]"]
  by (simp add: demo_world_ok(2))

end
