(* ===== verification/Method_Programs.thy ===== *)
theory Method_Programs
  imports Process_Properties
begin

text \<open>
  The methods of the transport once more, as programs: what a method does between two points
  where other threads can come in is one action, and what it does next depends on the action's
  result.  Dropping a transport is not among them: it takes the transport exclusively.
\<close>

subsection \<open>Programs\<close>

text \<open>
  \<open>Get\<close>, \<open>Give_Back\<close>: one call of the message handler registry, which holds its locks.  \<open>Call\<close>: send a
  command and wait for its answer.  \<open>Peek\<close>, \<open>Claim\<close>: read the point-to-point listener, or set it
  under the write lock unless it is set.  \<open>Done\<close>: return, or panic.
\<close>

datatype prog =
    Done "unit result"
  | Get listener_config "(get_message_handler_error, message_handler_fn_ptr) outcome \<Rightarrow> prog"
  | Give_Back listener_config "unit result \<Rightarrow> prog"
  | Call command "unit result \<Rightarrow> prog"
  | Peek "listener option \<Rightarrow> prog"
  | Claim listener "bool \<Rightarrow> prog"

definition claim :: "listener \<Rightarrow> 'bm world \<Rightarrow> bool \<times> 'bm world" where
  "claim l w = (if point_to_point_listener w \<noteq> None then (False, w)
     else (True, w\<lparr>point_to_point_listener := Some l\<rparr>))"

text \<open>Running a program alone, in the sequential model.\<close>

primrec run :: "('bm, 'v) env \<Rightarrow> prog \<Rightarrow> 'bm world \<Rightarrow> unit result \<times> 'bm world" where
  "run E (Done r) = Pair r"
| "run E (Get c f) = (\<lambda>w. case get_handler E c w of (r, w) \<Rightarrow> run E (f r) w)"
| "run E (Give_Back c f) = (\<lambda>w. case release_handler E c w of (r, w) \<Rightarrow> run E (f r) w)"
| "run E (Call cmd f) = (\<lambda>w. case call_engine E cmd w of (r, w) \<Rightarrow> run E (f r) w)"
| "run E (Peek f) = (\<lambda>w. run E (f (point_to_point_listener w)) w)"
| "run E (Claim l f) = (\<lambda>w. case claim l w of (b, w) \<Rightarrow> run E (f b) w)"

text \<open>What a method reads of the transport that never changes (\<open>transports_keep_their_address\<close>).\<close>

record fixed =
  f_app :: ApplicationName
  f_authority :: AuthorityName
  f_path :: "string option"

definition fixed_of :: "'bm world \<Rightarrow> fixed" where
  "fixed_of w = \<lparr>f_app = application_of w, f_authority = get_local_authority (storage w),
     f_path = config_path w\<rparr>"

subsection \<open>The methods\<close>

fun register_services_prog :: "('bm, 'v) env \<Rightarrow> fixed \<Rightarrow> listener \<Rightarrow> ServiceConfig list \<Rightarrow> prog" where
  "register_services_prog E me listener [] = Done (Ok ())"
| "register_services_prog E me listener (service_config # service_configs) =
     (let source_filter = u_any (e_up E);
          sink_filter = any_uuri_fixed_authority_id (f_authority me) (service_ue_id service_config)
      in Get (source_filter, Some sink_filter, listener) (\<lambda>r. case r of
           Ok msg_handler \<Rightarrow>
             Call (RegisterListener source_filter (Some sink_filter) Request msg_handler (f_app me))
               (\<lambda>r. case r of
                  Ok _ \<Rightarrow> register_services_prog E me listener service_configs
                | Err _ \<Rightarrow> Done (Err INTERNAL)
                | Panic \<Rightarrow> Done Panic)
         | Err _ \<Rightarrow> Done (Err INTERNAL)
         | Panic \<Rightarrow> Done Panic))"

definition register_point_to_point_prog :: "('bm, 'v) env \<Rightarrow> fixed \<Rightarrow> listener \<Rightarrow> prog" where
  "register_point_to_point_prog E me listener =
     (case f_path me of
        None \<Rightarrow> Done (Err NOT_FOUND)
      | Some path \<Rightarrow>
          (case extract_services (e_json E) path of
             Ok service_configs \<Rightarrow>
               Claim listener (\<lambda>claimed.
                 if \<not> claimed then Done (Err ALREADY_EXISTS)
                 else register_services_prog E me listener service_configs)
           | Err e \<Rightarrow> Done (Err e)
           | Panic \<Rightarrow> Done Panic))"

fun unregister_services_prog :: "('bm, 'v) env \<Rightarrow> fixed \<Rightarrow> listener \<Rightarrow> ServiceConfig list \<Rightarrow> prog" where
  "unregister_services_prog E me listener [] = Done (Ok ())"
| "unregister_services_prog E me listener (service_config # service_configs) =
     (let source_filter = u_any (e_up E);
          sink_filter = any_uuri_fixed_authority_id (f_authority me) (service_ue_id service_config)
      in case determine_type (e_up E) source_filter (Some sink_filter) of
           Ok registration_type \<Rightarrow>
             Call (UnregisterListener source_filter (Some sink_filter) registration_type (f_app me))
               (\<lambda>r. case r of
                  Ok _ \<Rightarrow> Give_Back (source_filter, Some sink_filter, listener)
                            (\<lambda>_. unregister_services_prog E me listener service_configs)
                | Err _ \<Rightarrow> unregister_services_prog E me listener service_configs
                | Panic \<Rightarrow> Done Panic)
         | _ \<Rightarrow> unregister_services_prog E me listener service_configs)"

definition unregister_point_to_point_prog :: "('bm, 'v) env \<Rightarrow> fixed \<Rightarrow> prog" where
  "unregister_point_to_point_prog E me =
     Peek (\<lambda>point_to_point_listener. case point_to_point_listener of
       None \<Rightarrow> Done (Err ALREADY_EXISTS)
     | Some ptp_comp_listener \<Rightarrow>
         (case f_path me of
            None \<Rightarrow> Done (Err NOT_FOUND)
          | Some path \<Rightarrow>
              (case extract_services (e_json E) path of
                 Ok service_configs \<Rightarrow>
                   unregister_services_prog E me ptp_comp_listener service_configs
               | Err e \<Rightarrow> Done (Err e)
               | Panic \<Rightarrow> Done Panic)))"

definition register_prog ::
  "('bm, 'v) env \<Rightarrow> fixed \<Rightarrow> uuri \<Rightarrow> uuri option \<Rightarrow> listener \<Rightarrow> prog" where
  "register_prog E me source_filter sink_filter listener =
     (case determine_type (e_up E) source_filter sink_filter of
        Ok registration_type \<Rightarrow>
          if registration_type = AllPointToPoint then register_point_to_point_prog E me listener
          else
            Get (source_filter, sink_filter, listener) (\<lambda>r. case r of
              Ok msg_handler \<Rightarrow>
                Call (RegisterListener source_filter sink_filter registration_type msg_handler
                  (f_app me)) Done
            | Err _ \<Rightarrow> Done (Err INTERNAL)
            | Panic \<Rightarrow> Done Panic)
      | Err e \<Rightarrow> Done (Err e)
      | Panic \<Rightarrow> Done Panic)"

definition unregister_prog ::
  "('bm, 'v) env \<Rightarrow> fixed \<Rightarrow> uuri \<Rightarrow> uuri option \<Rightarrow> listener \<Rightarrow> prog" where
  "unregister_prog E me source_filter sink_filter listener =
     (case determine_type (e_up E) source_filter sink_filter of
        Ok registration_type \<Rightarrow>
          if registration_type = AllPointToPoint then unregister_point_to_point_prog E me
          else
            Call (UnregisterListener source_filter sink_filter registration_type (f_app me))
              (\<lambda>r. case r of
                 Panic \<Rightarrow> Done Panic
               | _ \<Rightarrow> Give_Back (source_filter, sink_filter, listener) (\<lambda>_. Done (Ok ())))
      | _ \<Rightarrow> Done (Err INVALID_ARGUMENT))"

definition returning_response_prog ::
  "fixed \<Rightarrow> uuri \<Rightarrow> uuri option \<Rightarrow> registration_type \<Rightarrow> prog \<Rightarrow> prog" where
  "returning_response_prog me message_src message_sink message_type continue =
     Peek (\<lambda>point_to_point_listener. case point_to_point_listener of
       None \<Rightarrow> continue
     | Some listener \<Rightarrow>
         if message_type \<noteq> Request then continue
         else
           (case message_sink of
              None \<Rightarrow> Done (Err INVALID_ARGUMENT)
            | Some message_sink \<Rightarrow>
                Get (message_sink, Some message_src, listener) (\<lambda>r. case r of
                  Ok msg_handler \<Rightarrow>
                    Call (RegisterListener message_sink (Some message_src) Response msg_handler
                      (f_app me))
                      (\<lambda>r. case r of Ok _ \<Rightarrow> continue | _ \<Rightarrow> Done Panic)
                | Err (ListenerConfigAlreadyExists _) \<Rightarrow> continue
                | Err (ListenerIdAlreadyExists _) \<Rightarrow> Done (Err INTERNAL)
                | Err (OtherError _) \<Rightarrow> Done (Err INTERNAL)
                | Panic \<Rightarrow> Done Panic)))"

definition send_prog :: "('bm, 'v) env \<Rightarrow> fixed \<Rightarrow> umessage \<Rightarrow> prog" where
  "send_prog E me message =
     (case attributes message of
        None \<Rightarrow> Done (Err INVALID_ARGUMENT)
      | Some attrs \<Rightarrow>
          if \<not> u_validate_attributes (e_up E) attrs then Done (Err INVALID_ARGUMENT)
          else
            (case msg_source attrs of
               None \<Rightarrow> Done (Err INVALID_ARGUMENT)
             | Some source_filter \<Rightarrow>
                 (case determine_type (e_up E) source_filter (msg_sink attrs) of
                    Ok message_type \<Rightarrow>
                      returning_response_prog me source_filter (msg_sink attrs) message_type
                        (Call (Send message message_type (f_app me)) Done)
                  | Err e \<Rightarrow> Done (Err e)
                  | Panic \<Rightarrow> Done Panic)))"

subsection \<open>The programs are the methods\<close>

lemma caller_side_fixed:
  fixes v w :: "'bm world"
  shows "caller_side v = caller_side w \<Longrightarrow> fixed_of v = fixed_of w"
  by (simp add: caller_side_def untouched_def fixed_of_def application_of_def get_local_authority_def)

lemma fixed_of_steps:
  "call_engine E cmd w = (r, v) \<Longrightarrow> fixed_of v = fixed_of w"
  "get_handler E c w = (q, v) \<Longrightarrow> fixed_of v = fixed_of w"
  "release_handler E c w = (x, v) \<Longrightarrow> fixed_of v = fixed_of w"
proof -
  have engine: "engine_side v = engine_side w \<Longrightarrow> fixed_of v = fixed_of w" for v w :: "'a world"
    by (simp add: engine_side_def fixed_of_def application_of_def get_local_authority_def)
  show "call_engine E cmd w = (r, v) \<Longrightarrow> fixed_of v = fixed_of w"
    using caller_side_fixed call_engine_caller_side by (metis snd_conv)
  show "get_handler E c w = (q, v) \<Longrightarrow> fixed_of v = fixed_of w"
    using engine get_handler_engine_side by (metis snd_conv)
  show "release_handler E c w = (x, v) \<Longrightarrow> fixed_of v = fixed_of w"
    using engine release_handler_engine_side by (metis snd_conv)
qed

lemma fixed_of_fields:
  "application_of w = f_app (fixed_of w)" "get_local_authority (storage w) = f_authority (fixed_of w)"
  "config_path w = f_path (fixed_of w)"
  by (simp_all add: fixed_of_def)

lemma run_register_services:
  "fixed_of w = me \<Longrightarrow> run E (register_services_prog E me l ss) w = register_services E l ss w"
proof (induction ss arbitrary: w)
  case (Cons s ss)
  let ?src = "u_any (e_up E)"
    and ?snk = "any_uuri_fixed_authority_id (f_authority me) (service_ue_id s)"
  obtain r u where get: "get_handler E (?src, Some ?snk, l) w = (r, u)" by fastforce
  note u = fixed_of_steps(2) [OF get, unfolded Cons.prems]
  show ?case
  proof (cases r)
    case (Ok h)
    obtain q v where call: "call_engine E (RegisterListener ?src (Some ?snk) Request h (f_app me)) u =
      (q, v)" by fastforce
    from Cons.IH [OF fixed_of_steps(1) [OF call, unfolded u]] call get Ok Cons.prems u
    show ?thesis by (cases q) (simp_all add: Let_def fixed_of_fields)
  qed (use get Cons.prems in \<open>simp_all add: Let_def fixed_of_fields\<close>)
qed simp

lemma run_unregister_services:
  "fixed_of w = me \<Longrightarrow> run E (unregister_services_prog E me l ss) w = unregister_services E l ss w"
proof (induction ss arbitrary: w)
  case (Cons s ss)
  let ?src = "u_any (e_up E)"
    and ?snk = "any_uuri_fixed_authority_id (f_authority me) (service_ue_id s)"
  obtain t where t: "determine_type (e_up E) ?src (Some ?snk) = Ok t"
    using determine_type_total by blast
  obtain q v where call: "call_engine E (UnregisterListener ?src (Some ?snk) t (f_app me)) w = (q, v)"
    by fastforce
  note v = fixed_of_steps(1) [OF call, unfolded Cons.prems]
  obtain r u where release: "release_handler E (?src, Some ?snk, l) v = (r, u)" by fastforce
  from Cons.IH [OF v] Cons.IH [OF fixed_of_steps(3) [OF release, unfolded v]] call release t Cons.prems
  show ?case by (cases q) (simp_all add: Let_def fixed_of_fields)
qed simp

lemma run_register_point_to_point:
  assumes "fixed_of w = me"
  shows "run E (register_point_to_point_prog E me l) w = register_point_to_point_listener E l w"
proof -
  have "fixed_of (w\<lparr>point_to_point_listener := Some l\<rparr>) = me"
    using assms by (simp add: fixed_of_def application_of_def)
  from run_register_services [OF this, of E] assms [symmetric] show ?thesis
    by (simp add: register_point_to_point_prog_def register_point_to_point_listener_def
        claim_def fixed_of_fields split: option.split outcome.split)
qed

lemma run_unregister_point_to_point:
  assumes "fixed_of w = me"
  shows "run E (unregister_point_to_point_prog E me) w = unregister_point_to_point_listener E w"
  using run_unregister_services [OF assms, of E] assms [symmetric]
  by (simp add: unregister_point_to_point_prog_def unregister_point_to_point_listener_def
      fixed_of_fields split: option.split outcome.split)

lemma run_returning_response:
  assumes me: "fixed_of w = me"
  shows "run E (returning_response_prog me src snk t k) w =
    and_then (register_for_returning_response E src snk t w) (\<lambda>_. run E k)"
proof -
  consider l d where "point_to_point_listener w = Some l" "t = Request" "snk = Some d"
    | "point_to_point_listener w = None \<or> t \<noteq> Request \<or> snk = None" by fastforce
  then show ?thesis
  proof cases
    case 1
    obtain r u where get: "get_handler E (d, Some src, l) w = (r, u)" by fastforce
    note u = fixed_of_steps(2) [OF get, unfolded me]
    show ?thesis
    proof (cases r)
      case (Ok h)
      obtain q v where "call_engine E (RegisterListener d (Some src) Response h (f_app me)) u = (q, v)"
        by fastforce
      with 1 get Ok u show ?thesis
        by (cases q) (simp_all add: returning_response_prog_def register_for_returning_response_def
            Let_def fixed_of_fields)
    next
      case (Err e)
      with 1 get show ?thesis
        by (cases e) (simp_all add: returning_response_prog_def register_for_returning_response_def
            Let_def)
    qed (use 1 get in \<open>simp add: returning_response_prog_def register_for_returning_response_def Let_def\<close>)
  next
    case 2
    then show ?thesis
      by (auto simp: returning_response_prog_def register_for_returning_response_def
          split: option.split)
  qed
qed

text \<open>Run alone, each program is the method of the sequential model.\<close>

lemma programs_are_the_methods:
  "run E (register_prog E (fixed_of w) src snk l) w = register_listener E src snk l w \<and>
   run E (unregister_prog E (fixed_of w) src snk l) w = unregister_listener E src snk l w \<and>
   run E (send_prog E (fixed_of w) umsg) w = send E umsg w"
proof -
  let ?me = "fixed_of w"
  obtain t where t: "determine_type (e_up E) src snk = Ok t" using determine_type_total by blast
  have "run E (register_prog E ?me src snk l) w = register_listener E src snk l w"
  proof (cases "t = AllPointToPoint")
    case False
    obtain r u where get: "get_handler E (src, snk, l) w = (r, u)" by fastforce
    from fixed_of_steps(2) [OF get] have "application_of u = f_app ?me" by (simp add: fixed_of_fields)
    with t False get show ?thesis
      by (cases r) (simp_all add: register_prog_def register_listener_def case_prod_unfold)
  qed (use t run_register_point_to_point [OF refl] in
        \<open>simp add: register_prog_def register_listener_def\<close>)
  moreover have "run E (unregister_prog E ?me src snk l) w = unregister_listener E src snk l w"
  proof (cases "t = AllPointToPoint")
    case False
    obtain r u where call: "call_engine E (UnregisterListener src snk t (f_app ?me)) w = (r, u)"
      by fastforce
    obtain q v where "release_handler E (src, snk, l) u = (q, v)" by fastforce
    with call t False show ?thesis
      by (cases r; cases q) (simp_all add: unregister_prog_def unregister_listener_def fixed_of_fields)
  qed (use t run_unregister_point_to_point [OF refl] in
        \<open>simp add: unregister_prog_def unregister_listener_def\<close>)
  moreover have "run E (send_prog E ?me umsg) w = send E umsg w"
    by (auto simp: send_prog_def send_def run_returning_response [OF refl] fixed_of_fields Let_def
        case_prod_unfold split: option.split outcome.split)
  ultimately show ?thesis by blast
qed

end
