(* ===== verification/Interleaving.thy ===== *)
theory Interleaving
  imports Method_Programs
begin

text \<open>
  Any number of method calls on one transport at the same time, each a task that runs its
  program: the tasks' actions, the engine's commands and incoming messages interleave in any
  order.  Every command carries the tag of the oneshot channel its answer is sent through; a
  task that has waited too long drops its end of the channel, and the answer is never read.
\<close>

subsection \<open>Programs take handlers for ordinary filters only\<close>

primrec prog_ok :: "('bm, 'v) env \<Rightarrow> prog \<Rightarrow> bool" where
  "prog_ok E (Done r) = True"
| "prog_ok E (Get c f) = (not_point_to_point E c \<and> (\<forall>r. prog_ok E (f r)))"
| "prog_ok E (Give_Back c f) = (\<forall>r. prog_ok E (f r))"
| "prog_ok E (Call cmd f) = (\<forall>r. prog_ok E (f r))"
| "prog_ok E (Peek f) = (\<forall>l. prog_ok E (f l))"
| "prog_ok E (Claim l f) = (\<forall>b. prog_ok E (f b))"

lemma register_services_prog_ok:
  "env_ok E bm_ok \<Longrightarrow> prog_ok E (register_services_prog E me l ss)"
  by (induction ss)
    (simp_all add: Let_def service_filter_not_point_to_point split: outcome.split)

lemma unregister_services_prog_ok: "prog_ok E (unregister_services_prog E me l ss)"
  by (induction ss) (simp_all add: Let_def split: outcome.split)

text \<open>The programs a task can start with.\<close>

inductive method_prog :: "('bm, 'v) env \<Rightarrow> fixed \<Rightarrow> prog \<Rightarrow> bool" for E me where
  "method_prog E me (register_prog E me src snk l)"
| "method_prog E me (unregister_prog E me src snk l)"
| "method_prog E me (send_prog E me umsg)"

lemma method_prog_ok:
  assumes env: "env_ok E bm_ok" and p: "method_prog E me p" shows "prog_ok E p"
  using p
proof cases
  case (1 src snk l)
  then show ?thesis
    by (auto simp: register_prog_def register_point_to_point_prog_def not_point_to_point_def
        register_services_prog_ok [OF env] split: outcome.split option.split)
next
  case (2 src snk l)
  then show ?thesis
    by (auto simp: unregister_prog_def unregister_point_to_point_prog_def
        unregister_services_prog_ok split: outcome.split option.split)
next
  case (3 umsg)
  have "not_point_to_point E (d, Some src, l)" if "determine_type (e_up E) src (Some d) = Ok Request" for src d l
    using determine_type_not_point_to_point_swap [of "e_up E" src d] that
    by (simp add: not_point_to_point_def)
  with 3 show ?thesis
    by (auto simp: send_prog_def returning_response_prog_def split: outcome.split option.split
        get_message_handler_error.split)
qed

subsection \<open>Tasks\<close>

text \<open>
  A task runs its program or waits for the answer to the command with its tag.  \<open>tags\<close> are
  those of the commands in the channel, \<open>answers\<close> the answers sent and not yet read.
\<close>

datatype task = Running prog | Waiting nat command "unit result \<Rightarrow> prog"

record 'bm tasks_state =
  shared :: "'bm world"
  tags :: "nat list"
  next_tag :: nat
  answers :: "nat \<rightharpoonup> unit result"
  tasks :: "nat \<rightharpoonup> task"

definition becomes ::
  "'bm tasks_state \<Rightarrow> nat \<Rightarrow> prog \<Rightarrow> 'bm world \<Rightarrow> 'bm tasks_state" where
  "becomes s k p w = s\<lparr>shared := w, tasks := (tasks s)(k \<mapsto> Running p)\<rparr>"

inductive task_step :: "('bm, 'v) env \<Rightarrow> 'bm tasks_state \<Rightarrow> 'bm tasks_state \<Rightarrow> bool" for E s where
  starts: "tasks s k = None \<Longrightarrow> method_prog E (fixed_of (shared s)) p \<Longrightarrow>
    task_step E s (becomes s k p (shared s))"
| gets: "tasks s k = Some (Running (Get c f)) \<Longrightarrow> get_handler E c (shared s) = (r, v) \<Longrightarrow>
    task_step E s (becomes s k (f r) v)"
| releases: "tasks s k = Some (Running (Give_Back c f)) \<Longrightarrow> release_handler E c (shared s) = (r, v) \<Longrightarrow>
    task_step E s (becomes s k (f r) v)"
| peeks: "tasks s k = Some (Running (Peek f)) \<Longrightarrow>
    task_step E s (becomes s k (f (point_to_point_listener (shared s))) (shared s))"
| claims: "tasks s k = Some (Running (Claim l f)) \<Longrightarrow> claim l (shared s) = (b, v) \<Longrightarrow>
    task_step E s (becomes s k (f b) v)"
| sends: "tasks s k = Some (Running (Call cmd f)) \<Longrightarrow> engine_alive (shared s) \<Longrightarrow>
    length (queue (shared s)) < channel_capacity \<Longrightarrow>
    task_step E s (s\<lparr>shared := (shared s)\<lparr>queue := queue (shared s) @ [cmd],
                                       awaits := Suc (awaits (shared s))\<rparr>,
      tags := tags s @ [next_tag s], next_tag := Suc (next_tag s),
      tasks := (tasks s)(k \<mapsto> Waiting (next_tag s) cmd f)\<rparr>)"
| send_fails: "tasks s k = Some (Running (Call cmd f)) \<Longrightarrow> \<not> engine_alive (shared s) \<Longrightarrow>
    task_step E s (becomes s k (f Panic) (shared s))"
| executes: "queue (shared s) = cmd # cmds \<Longrightarrow> tags s = i # is \<Longrightarrow>
    engine_execute E cmd ((shared s)\<lparr>queue := cmds\<rparr>) = (r, v) \<Longrightarrow> r \<noteq> Panic \<Longrightarrow>
    task_step E s (s\<lparr>shared := v, tags := is, answers := (answers s)(i \<mapsto> r)\<rparr>)"
| dies: "queue (shared s) = cmd # cmds \<Longrightarrow>
    engine_execute E cmd ((shared s)\<lparr>queue := cmds\<rparr>) = (Panic, v) \<Longrightarrow>
    task_step E s (s\<lparr>shared := v\<lparr>queue := [], engine_alive := False\<rparr>, tags := []\<rparr>)"
| answered: "tasks s k = Some (Waiting i cmd f) \<Longrightarrow> answers s i = Some r \<Longrightarrow>
    task_step E s (becomes (s\<lparr>answers := (answers s)(i := None)\<rparr>) k (f r) (shared s))"
| gives_up: "tasks s k = Some (Waiting i cmd f) \<Longrightarrow> answers s i = None \<Longrightarrow>
    task_step E s (becomes s k
      (f (Err (if engine_alive (shared s) then DEADLINE_EXCEEDED else INTERNAL))) (shared s))"
| arrives: "convert_vsomeip_msg_to_umsg (e_up E) (e_vs E) n auth me remote m (shared s) = (r, v) \<Longrightarrow>
    task_step E s (s\<lparr>shared := v\<rparr>)"

abbreviation task_steps :: "('bm, 'v) env \<Rightarrow> 'bm tasks_state \<Rightarrow> 'bm tasks_state \<Rightarrow> bool" where
  "task_steps E \<equiv> (task_step E)\<^sup>*\<^sup>*"

lemma becomes_simps [simp]:
  "shared (becomes s k p w) = w" "tags (becomes s k p w) = tags s"
  "next_tag (becomes s k p w) = next_tag s" "answers (becomes s k p w) = answers s"
  "tasks (becomes s k p w) = (tasks s)(k \<mapsto> Running p)"
  by (simp_all add: becomes_def)

subsection \<open>The invariant under every interleaving\<close>

primrec task_ok :: "('bm, 'v) env \<Rightarrow> task \<Rightarrow> bool" where
  "task_ok E (Running p) = prog_ok E p"
| "task_ok E (Waiting i cmd f) = (\<forall>r. prog_ok E (f r))"

definition tasks_ok :: "('bm, 'v) env \<Rightarrow> 'bm tasks_state \<Rightarrow> bool" where
  "tasks_ok E s \<longleftrightarrow> (\<forall>k t. tasks s k = Some t \<longrightarrow> task_ok E t)"

lemma tasks_okD: "tasks_ok E s \<Longrightarrow> tasks s k = Some t \<Longrightarrow> task_ok E t"
  by (simp add: tasks_ok_def)

lemma tasks_ok_becomes: "tasks_ok E s \<Longrightarrow> prog_ok E p \<Longrightarrow> tasks_ok E (becomes s k p w)"
  by (simp add: tasks_ok_def)

lemma tasks_ok_same: "tasks_ok E s \<Longrightarrow> tasks t = tasks s \<Longrightarrow> tasks_ok E t"
  by (simp add: tasks_ok_def)

lemma claim_moves: "claim l w = (b, v) \<Longrightarrow> moves E w v"
  by (auto simp: claim_def intro: moves.intros split: if_splits)

lemma moves_channel:
  "moves E w (w\<lparr>queue := q\<rparr>)" "moves E w (w\<lparr>engine_alive := b\<rparr>)" "moves E w (w\<lparr>awaits := n\<rparr>)"
  by (rule moves.engine [OF moves.stay]; simp)+

lemma engine_execute_moves: "engine_execute E cmd w = (r, v) \<Longrightarrow> moves E w v"
  using engine_execute_fields(4) [of E cmd w] correlated_engine_execute [of E w cmd]
  by (intro moves.engine [OF moves.stay]) simp_all

lemma task_step_moves: "env_ok E bm_ok \<Longrightarrow> task_step E s t \<Longrightarrow> tasks_ok E s \<Longrightarrow> moves E (shared s) (shared t)"
proof (erule task_step.cases, goal_cases)
  case (2 k c f r v)
  then show ?case using tasks_okD [of E s k] by (auto intro: moves_get)
next
  case (3 k c f r v)
  then show ?case by (auto intro: moves_release)
next
  case (5 k l f b v)
  then show ?case by (auto intro: claim_moves)
next
  case (6 k cmd f)
  then show ?case using moves_trans [OF moves_channel(1) moves_channel(3)] by simp
next
  case (8 cmd cmds i "is" r v)
  then show ?case using moves_trans [OF moves_channel(1) engine_execute_moves] by simp
next
  case (9 cmd cmds v)
  have "moves E (shared s) v" by (rule moves_trans [OF moves_channel(1) engine_execute_moves [OF 9(5)]])
  from moves_trans [OF this moves_trans [OF moves_channel(1) moves_channel(2)]] 9 show ?case by simp
next
  case (12 n auth me remote m r v)
  then show ?case using convert_moves [of E "shared s" "e_vs E" n auth me remote m] by simp
qed simp_all

lemma task_step_tasks_ok: "env_ok E bm_ok \<Longrightarrow> task_step E s t \<Longrightarrow> tasks_ok E s \<Longrightarrow> tasks_ok E t"
proof (erule task_step.cases, goal_cases)
  case (1 k p)
  with method_prog_ok [OF 1(1,5)] show ?case by (auto intro: tasks_ok_becomes)
next
  case (6 k cmd f)
  then show ?case using tasks_okD [of E s k] by (auto simp: tasks_ok_def)
next
  case (10 k i cmd f r)
  then have "tasks_ok E (s\<lparr>answers := (answers s)(i := None)\<rparr>)" by (auto intro: tasks_ok_same)
  with 10 tasks_okD [of E s k] show ?case by (auto intro: tasks_ok_becomes)
qed (use tasks_okD [of E s] in \<open>force intro: tasks_ok_becomes tasks_ok_same\<close>)+


text \<open>C5. Whatever method calls run at the same time on a transport, in whatever order their actions,
  the engine's commands and incoming messages interleave, and whichever calls time out: the
  transport's invariant is kept (every filter is filed at most once, the two-way map and the
  process-wide table agree, a function is free exactly if nothing is filed under it), its
  address and application stay the same, and the numbering of its requests stays sound.\<close>

theorem every_interleaving_keeps_invariant:
  assumes steps: "task_steps E s t" and env: "env_ok E bm_ok"
    and start: "tasks s = Map.empty" "transport_ok E bm_ok (shared s)"
  shows "transport_ok E bm_ok (shared t) \<and> addressed (shared t) = addressed (shared s) \<and>
    (correlated E (shared s) \<longrightarrow> correlated E (shared t))"
proof -
  have "moves E (shared s) (shared t) \<and> tasks_ok E t"
    using steps
  proof (induction rule: rtranclp_induct)
    case base
    show ?case using start by (simp add: tasks_ok_def)
  next
    case (step t u)
    then show ?case
      using task_step_moves [OF env step(2)] task_step_tasks_ok [OF env step(2)] moves_trans by blast
  qed
  then show ?thesis
    using moves_transport_ok [OF _ env start(2)] moves_addressed moves_correlated by blast
qed

definition demo_tasks :: "((nat \<times> listener_config) list) tasks_state" where
  "demo_tasks = \<lparr>shared = demo_world demo_app, tags = [], next_tag = 0, answers = Map.empty,
     tasks = Map.empty\<rparr>"

lemma demo_tasks_fields [simp]:
  "shared demo_tasks = demo_world demo_app" "tags demo_tasks = []" "next_tag demo_tasks = 0"
  "answers demo_tasks = Map.empty" "tasks demo_tasks = Map.empty"
  by (simp_all add: demo_tasks_def)

text \<open>A task that unregisters a listener, just started.\<close>

lemma demo_starts:
  obtains f where "task_step (demo_env (\<lambda>_. 1)) demo_tasks (becomes demo_tasks 0
    (Call (UnregisterListener (demo_uri 1 0x8001) None Publish ''app'') f) (demo_world demo_app))"
proof -
  let ?me = "fixed_of (demo_world demo_app)"
  have "unregister_prog (demo_env (\<lambda>_. 1)) ?me (demo_uri 1 0x8001) None (Listener 3) =
      Call (UnregisterListener (demo_uri 1 0x8001) None Publish ''app'') (\<lambda>r. case r of
        Panic \<Rightarrow> Done Panic
      | _ \<Rightarrow> Give_Back (demo_uri 1 0x8001, None, Listener 3) (\<lambda>_. Done (Ok ())))"
    by (simp add: unregister_prog_def fixed_of_def)
  from method_prog.intros(2) [of "demo_env (\<lambda>_. 1)" ?me "demo_uri 1 0x8001" None "Listener 3",
      unfolded this]
  show ?thesis using that task_step.starts [of demo_tasks 0 "demo_env (\<lambda>_. 1)"]
    unfolding demo_tasks_fields by blast
qed

theorem every_interleaving_keeps_invariant_witness:
  "\<exists>t p. task_steps (demo_env (\<lambda>_. 1)) demo_tasks t \<and> tasks t = [0 \<mapsto> Running p] \<and>
    transport_ok (demo_env (\<lambda>_. 1)) pairs_ok (shared t)"
proof -
  obtain f where "task_step (demo_env (\<lambda>_. 1)) demo_tasks (becomes demo_tasks 0
    (Call (UnregisterListener (demo_uri 1 0x8001) None Publish ''app'') f) (demo_world demo_app))"
    by (rule demo_starts)
  then have steps: "task_steps (demo_env (\<lambda>_. 1)) demo_tasks (becomes demo_tasks 0
    (Call (UnregisterListener (demo_uri 1 0x8001) None Publish ''app'') f) (demo_world demo_app))" ..
  from every_interleaving_keeps_invariant [OF steps demo_env_ok] steps show ?thesis
    by (intro exI conjI) (assumption, auto simp: demo_world_ok)
qed

subsection \<open>Answers\<close>

definition waits_for :: "'bm tasks_state \<Rightarrow> nat \<Rightarrow> nat \<Rightarrow> command \<Rightarrow> bool" where
  "waits_for s k i cmd \<longleftrightarrow> (\<exists>f. tasks s k = Some (Waiting i cmd f))"

definition channel_ok :: "'bm tasks_state \<Rightarrow> bool" where
  "channel_ok s \<longleftrightarrow> length (tags s) = length (queue (shared s)) \<and>
     length (queue (shared s)) \<le> channel_capacity \<and> distinct (tags s) \<and>
     (\<forall>i \<in> set (tags s). i < next_tag s \<and> answers s i = None) \<and>
     (\<forall>i. answers s i \<noteq> None \<longrightarrow> i < next_tag s)"

definition waits_ok :: "'bm tasks_state \<Rightarrow> bool" where
  "waits_ok s \<longleftrightarrow>
     (\<forall>k i cmd. waits_for s k i cmd \<longrightarrow> i < next_tag s) \<and>
     (\<forall>k k' i cmd cmd'. waits_for s k i cmd \<longrightarrow> waits_for s k' i cmd' \<longrightarrow> k' = k) \<and>
     (\<forall>k i cmd cmd'. waits_for s k i cmd \<longrightarrow>
        (i, cmd') \<in> set (zip (tags s) (queue (shared s))) \<longrightarrow> cmd' = cmd) \<and>
     (\<forall>k i cmd. waits_for s k i cmd \<longrightarrow> engine_alive (shared s) \<longrightarrow>
        answers s i \<noteq> None \<or> i \<in> set (tags s))"

definition routed :: "'bm tasks_state \<Rightarrow> bool" where
  "routed s \<longleftrightarrow> channel_ok s \<and> waits_ok s"

lemma waits_for_becomes [simp]:
  "waits_for (becomes s k p w) k' i cmd \<longleftrightarrow> k' \<noteq> k \<and> waits_for s k' i cmd"
  by (auto simp: waits_for_def)

lemma waits_for_fields [simp]:
  "waits_for (s\<lparr>shared := v, tags := is, answers := a\<rparr>) k i cmd = waits_for s k i cmd"
  "waits_for (s\<lparr>shared := v, tags := is\<rparr>) k i cmd = waits_for s k i cmd"
  "waits_for (s\<lparr>shared := v\<rparr>) k i cmd = waits_for s k i cmd"
  "waits_for (s\<lparr>answers := a\<rparr>) k i cmd = waits_for s k i cmd"
  by (simp_all add: waits_for_def)

lemma routed_becomes:
  assumes "routed s" "queue w = queue (shared s)" "engine_alive w = engine_alive (shared s)"
  shows "routed (becomes s k p w)"
  using assms unfolding routed_def channel_ok_def waits_ok_def by (simp del: not_None_eq) blast

lemma routed_shared:
  assumes "routed s" "queue v = queue (shared s)" "engine_alive v = engine_alive (shared s)"
  shows "routed (s\<lparr>shared := v\<rparr>)"
  using assms unfolding routed_def channel_ok_def waits_ok_def by simp

lemma routed_answered:
  assumes "routed s" "waits_for s k i cmd"
  shows "routed (becomes (s\<lparr>answers := (answers s)(i := None)\<rparr>) k p (shared s))"
  using assms unfolding routed_def channel_ok_def waits_ok_def by (simp del: not_None_eq) blast

lemma routed_sends:
  assumes r: "routed s" and room: "length (queue (shared s)) < channel_capacity"
  shows "routed (s\<lparr>shared := (shared s)\<lparr>queue := queue (shared s) @ [cmd],
                                       awaits := Suc (awaits (shared s))\<rparr>,
      tags := tags s @ [next_tag s], next_tag := Suc (next_tag s),
      tasks := (tasks s)(k \<mapsto> Waiting (next_tag s) cmd f)\<rparr>)" (is "routed ?t")
proof -
  have waits: "waits_for ?t k' i cmd' \<longleftrightarrow>
      (if k' = k then i = next_tag s \<and> cmd' = cmd else waits_for s k' i cmd')" for k' i cmd'
    by (auto simp: waits_for_def)
  have old: "waits_for s k' i cmd' \<Longrightarrow> i \<noteq> next_tag s \<and> i < Suc (next_tag s)" for k' i cmd'
    using r by (fastforce simp: routed_def waits_ok_def)
  have fresh: "next_tag s \<notin> set (tags s)" "answers s (next_tag s) = None"
    using r by (auto simp: routed_def channel_ok_def)
  then have zip: "(next_tag s, cmd') \<notin> set (zip (tags s) qs)" for cmd' qs
    by (auto dest: set_zip_leftD)
  have len: "length (tags s) = length (queue (shared s))"
    using r by (simp add: routed_def channel_ok_def)
  have "channel_ok ?t"
    using r fresh room unfolding routed_def channel_ok_def by (auto simp: less_Suc_eq)
  moreover have "waits_ok ?t"
    unfolding waits_ok_def waits
  proof (intro conjI allI impI, goal_cases)
    case (1 k' i cmd') then show ?case using old by (auto split: if_splits)
  next
    case (2 k1 k2 i c1 c2)
    then show ?case using old r unfolding routed_def waits_ok_def by (auto split: if_splits) metis
  next
    case (3 k' i c1 c2)
    show ?case
    proof (cases "k' = k")
      case True
      with 3 len show ?thesis by (simp add: zip)
    next
      case False
      with 3 have "waits_for s k' i c1" by simp
      moreover from this have "(i, c2) \<in> set (zip (tags s) (queue (shared s)))"
        using 3 len old by auto
      ultimately show ?thesis using r unfolding routed_def waits_ok_def by blast
    qed
  next
    case (4 k' i cmd')
    show ?case
    proof (cases "k' = k")
      case False
      with 4 have "waits_for s k' i cmd'" "engine_alive (shared s)" by simp_all
      then have "answers s i \<noteq> None \<or> i \<in> set (tags s)"
        using r unfolding routed_def waits_ok_def by blast
      then show ?thesis by auto
    qed (use 4 in simp)
  qed
  ultimately show ?thesis by (simp add: routed_def)
qed

lemma routed_executes:
  assumes r: "routed s" and q: "queue (shared s) = cmd # cmds" "tags s = i # is"
    and v: "queue v = cmds" "engine_alive v = engine_alive (shared s)"
  shows "routed (s\<lparr>shared := v, tags := is, answers := (answers s)(i \<mapsto> x)\<rparr>)"
  using assms unfolding routed_def channel_ok_def waits_ok_def
  by (simp del: not_None_eq) blast

lemma routed_dies:
  assumes r: "routed s" and v: "queue v = []" "\<not> engine_alive v"
  shows "routed (s\<lparr>shared := v, tags := []\<rparr>)"
  using assms unfolding routed_def channel_ok_def waits_ok_def by simp

lemma task_step_routed: "task_step E s t \<Longrightarrow> routed s \<Longrightarrow> routed t"
proof (erule task_step.cases, goal_cases)
  case (2 k c f r v)
  have "queue v = queue (shared s)" "engine_alive v = engine_alive (shared s)"
    using get_handler_engine_side [of E c "shared s"] 2 by (simp_all add: engine_side_def)
  with 2 show ?case by (simp add: routed_becomes)
next
  case (3 k c f r v)
  have "queue v = queue (shared s)" "engine_alive v = engine_alive (shared s)"
    using release_handler_engine_side [of E c "shared s"] 3 by (simp_all add: engine_side_def)
  with 3 show ?case by (simp add: routed_becomes)
next
  case (5 k l f b v)
  then show ?case by (auto simp: claim_def routed_becomes split: if_splits)
next
  case (6 k cmd f)
  then show ?case by (simp add: routed_sends)
next
  case (8 cmd cmds i "is" r v)
  have "queue v = cmds" "engine_alive v = engine_alive (shared s)"
    using engine_execute_fields(1,2) [of E cmd "(shared s)\<lparr>queue := cmds\<rparr>"] 8 by simp_all
  with 8 show ?case by (simp add: routed_executes)
next
  case (9 cmd cmds v)
  then show ?case by (simp add: routed_dies)
next
  case (10 k i cmd f r)
  then show ?case using routed_answered [of s k i cmd] by (auto simp: waits_for_def)
next
  case (12 n auth me remote m r v)
  have "untouched v = untouched (shared s)"
    using convert_untouched [of "e_up E" "e_vs E" n auth me remote m "shared s"] 12 by simp
  then have "core.more v = core.more (shared s)" by (simp add: untouched_def)
  from world_more_eqD [OF this] 12 show ?case by (simp add: routed_shared)
qed (auto simp: routed_becomes)

definition idle :: "'bm tasks_state \<Rightarrow> bool" where
  "idle s \<longleftrightarrow> tasks s = Map.empty \<and> tags s = [] \<and> queue (shared s) = [] \<and> answers s = Map.empty"

lemma idle_routed: "idle s \<Longrightarrow> routed s"
  by (simp add: idle_def routed_def channel_ok_def waits_ok_def waits_for_def)

lemma task_steps_routed: "task_steps E s t \<Longrightarrow> routed s \<Longrightarrow> routed t"
  by (induction rule: rtranclp_induct) (auto intro: task_step_routed)

text \<open>C19. Answers reach the calls they belong to.  While a task waits, its command is in the channel
  under its tag, or its answer is ready, or the engine has died; no other task waits for the
  same answer; and an answer that appears for it is what the engine returned for just its
  command.  So no answer is lost or mixed up, however many calls are under way and however
  many have given up.\<close>

theorem answers_reach_their_callers:
  assumes steps: "task_steps E s0 s" and idle: "idle s0" and waits: "waits_for s k i cmd"
  shows "(engine_alive (shared s) \<longrightarrow> answers s i \<noteq> None \<or>
      (\<exists>n < length (tags s). tags s ! n = i \<and> queue (shared s) ! n = cmd)) \<and>
    (\<forall>k' cmd'. waits_for s k' i cmd' \<longrightarrow> k' = k) \<and>
    (\<forall>t r. task_step E s t \<longrightarrow> answers s i = None \<longrightarrow> answers t i = Some r \<longrightarrow>
       (\<exists>cmds v. queue (shared s) = cmd # cmds \<and>
          engine_execute E cmd ((shared s)\<lparr>queue := cmds\<rparr>) = (r, v)))"
proof (intro conjI allI impI)
  have r: "routed s" using task_steps_routed [OF steps idle_routed [OF idle]] .
  then have len: "length (tags s) = length (queue (shared s))"
    by (simp add: routed_def channel_ok_def)
  have own: "cmd' = cmd" if "(i, cmd') \<in> set (zip (tags s) (queue (shared s)))" for cmd'
    using r waits that unfolding routed_def waits_ok_def by blast
  show "answers s i \<noteq> None \<or> (\<exists>n < length (tags s). tags s ! n = i \<and> queue (shared s) ! n = cmd)"
    if alive: "engine_alive (shared s)"
  proof (cases "answers s i = None")
    case True
    then have "i \<in> set (tags s)" using r waits alive unfolding routed_def waits_ok_def by blast
    then obtain n where n: "n < length (tags s)" "tags s ! n = i" by (auto simp: in_set_conv_nth)
    then have "(i, queue (shared s) ! n) \<in> set (zip (tags s) (queue (shared s)))"
      using len by (auto simp: in_set_zip)
    from own [OF this] n show ?thesis by blast
  qed simp
  show "k' = k" if "waits_for s k' i cmd'" for k' cmd'
    using r waits that unfolding routed_def waits_ok_def by blast
  fix t x assume step: "task_step E s t" and before: "answers s i = None" and "answers t i = Some x"
  from this show "\<exists>cmds v. queue (shared s) = cmd # cmds \<and>
      engine_execute E cmd ((shared s)\<lparr>queue := cmds\<rparr>) = (x, v)"
  proof (cases rule: task_step.cases)
    case (executes cmd' cmds j "is" r v)
    with \<open>answers t i = Some x\<close> before have "j = i" "r = x" by (auto split: if_splits)
    with own [of cmd'] executes show ?thesis by auto
  qed (auto split: if_splits)
qed

theorem answers_reach_their_callers_witness:
  "\<exists>t. task_steps (demo_env (\<lambda>_. 1)) demo_tasks t \<and>
    waits_for t 0 0 (UnregisterListener (demo_uri 1 0x8001) None Publish ''app'') \<and>
    queue (shared t) ! 0 = UnregisterListener (demo_uri 1 0x8001) None Publish ''app'' \<and>
    (\<nexists>k cmd. waits_for t k 0 cmd \<and> k \<noteq> 0)"
proof -
  let ?cmd = "UnregisterListener (demo_uri 1 0x8001) None Publish ''app''"
  obtain f where step1: "task_step (demo_env (\<lambda>_. 1)) demo_tasks
      (becomes demo_tasks 0 (Call ?cmd f) (demo_world demo_app))" (is "task_step _ _ ?s")
    by (rule demo_starts)
  have "\<exists>t. task_step (demo_env (\<lambda>_. 1)) ?s t \<and> waits_for t 0 0 ?cmd \<and>
      engine_alive (shared t) \<and> answers t 0 = None \<and> tags t = [0]"
    by (rule exI, rule conjI, rule task_step.sends [where k = 0 and cmd = ?cmd and f = f])
      (simp_all add: waits_for_def channel_capacity_def)
  then obtain t where t: "task_step (demo_env (\<lambda>_. 1)) ?s t" "waits_for t 0 0 ?cmd"
    "engine_alive (shared t)" "answers t 0 = None" "tags t = [0]" by blast
  have steps: "task_steps (demo_env (\<lambda>_. 1)) demo_tasks t" using step1 t(1) by simp
  have "idle demo_tasks" by (simp add: idle_def)
  from answers_reach_their_callers [OF steps this t(2)] t(3,4)
  obtain n where "n < length (tags t)" "tags t ! n = 0" "queue (shared t) ! n = ?cmd"
    "\<forall>k cmd. waits_for t k 0 cmd \<longrightarrow> k = 0" by blast
  with steps t show ?thesis by auto
qed

subsection \<open>Running alone\<close>

lemma engine_run_steps:
  assumes "routed s" "engine_run E n (shared s) = (a, v)"
  shows "\<exists>t. task_steps E s t \<and> shared t = v \<and> tasks t = tasks s \<and> next_tag t = next_tag s \<and>
    (tags s \<noteq> [] \<longrightarrow> answers t (last (tags s)) =
       (case a of Some r \<Rightarrow> Some r | None \<Rightarrow> answers s (last (tags s))))"
  using assms
proof (induction n arbitrary: s)
  case 0
  then show ?case by (intro exI [of _ s]) auto
next
  case (Suc n)
  have ch: "length (tags s) = length (queue (shared s))" "distinct (tags s)"
    using Suc.prems(1) by (simp_all add: routed_def channel_ok_def)
  show ?case
  proof (cases "queue (shared s)")
    case Nil
    with Suc.prems(2) show ?thesis by (intro exI [of _ s]) auto
  next
    case (Cons cmd cmds)
    with ch obtain i "is" where tags: "tags s = i # is" "i \<notin> set is" "length is = length cmds"
      by (cases "tags s") auto
    obtain r u where exec: "engine_execute E cmd ((shared s)\<lparr>queue := cmds\<rparr>) = (r, u)" by fastforce
    then have u: "queue u = cmds"
      using engine_execute_fields(1) [of E cmd "(shared s)\<lparr>queue := cmds\<rparr>"] by simp
    show ?thesis
    proof (cases "r = Panic")
      case True
      with task_step.dies [OF Cons, of E u] exec Cons Suc.prems(2) tags show ?thesis
        by (intro exI [of _ "s\<lparr>shared := u\<lparr>queue := [], engine_alive := False\<rparr>, tags := []\<rparr>"]) auto
    next
      case False
      let ?s = "s\<lparr>shared := u, tags := is, answers := (answers s)(i \<mapsto> r)\<rparr>"
      have step: "task_step E s ?s" using task_step.executes [OF Cons tags(1) exec False] .
      show ?thesis
      proof (cases "cmds = []")
        case True
        then have "a = Some r" "v = u" using False Suc.prems(2) Cons exec by (cases r; simp)+
        with step True tags show ?thesis by (intro exI [of _ ?s]) auto
      next
        case more: False
        have run: "engine_run E n (shared ?s) = (a, v)"
          using False Suc.prems(2) Cons exec more by (cases r) simp_all
        from Suc.IH [OF task_step_routed [OF step Suc.prems(1)] run] obtain t where
          t: "task_steps E ?s t" "shared t = v" "tasks t = tasks s" "next_tag t = next_tag s"
            "is \<noteq> [] \<longrightarrow> answers t (last is) =
              (case a of Some r \<Rightarrow> Some r | None \<Rightarrow> ((answers s)(i \<mapsto> r)) (last is))"
          by (auto cong: option.case_cong)
        have "is \<noteq> []" using more tags by auto
        then have "last is \<noteq> i" "last (tags s) = last is" using tags by auto
        with t \<open>is \<noteq> []\<close> converse_rtranclp_into_rtranclp [of "task_step E", OF step t(1)]
        show ?thesis by (intro exI [of _ t]) (simp split: option.split)
      qed
    qed
  qed
qed

text \<open>A sender that finds the channel full waits until the engine has taken a command out of it.\<close>

lemma room_for_command:
  assumes r: "routed s"
  shows "\<exists>s1. task_steps E s s1 \<and> tasks s1 = tasks s \<and>
    (engine_alive (shared s1) \<longrightarrow> length (queue (shared s1)) < channel_capacity) \<and>
    send_to_engine_with_status E cmd (shared s) =
      (if engine_alive (shared s1) then (Ok (), (shared s1)\<lparr>queue := queue (shared s1) @ [cmd]\<rparr>)
       else (Err INTERNAL, shared s1))"
proof (cases "length (queue (shared s)) < channel_capacity")
  case True
  then show ?thesis by (intro exI [of _ s]) (simp add: send_to_engine_with_status_def Let_def)
next
  case False
  then have full: "length (queue (shared s)) = channel_capacity"
    using r by (simp add: routed_def channel_ok_def)
  obtain a u where run: "engine_run E 1 (shared s) = (a, u)" by fastforce
  from engine_run_steps [OF r run] obtain t where
    t: "task_steps E s t" "shared t = u" "tasks t = tasks s" by blast
  obtain c cs where q: "queue (shared s) = c # cs"
    using full by (cases "queue (shared s)") (auto simp: channel_capacity_def)
  obtain y z where exec: "engine_execute E c ((shared s)\<lparr>queue := cs\<rparr>) = (y, z)" by fastforce
  then have "queue z = cs" using engine_execute_fields(1) [of E c "(shared s)\<lparr>queue := cs\<rparr>"] by simp
  with run q exec full have "engine_alive u \<Longrightarrow> length (queue u) < channel_capacity"
    by (cases y) (auto split: if_splits)
  with False run t show ?thesis
    by (intro exI [of _ t]) (simp add: send_to_engine_with_status_def Let_def del: engine_run.simps)
qed

lemma call_steps:
  assumes r: "routed s" and k: "tasks s k = Some (Running (Call cmd f))"
    and call: "call_engine E cmd (shared s) = (x, v)"
  shows "\<exists>t. task_steps E s t \<and> shared t = v \<and> tasks t = (tasks s)(k \<mapsto> Running (f x))"
proof -
  obtain s1 where s1: "task_steps E s s1" "tasks s1 = tasks s" "engine_alive (shared s1) \<Longrightarrow>
      length (queue (shared s1)) < channel_capacity"
    "send_to_engine_with_status E cmd (shared s) =
      (if engine_alive (shared s1) then (Ok (), (shared s1)\<lparr>queue := queue (shared s1) @ [cmd]\<rparr>)
       else (Err INTERNAL, shared s1))"
    using room_for_command [OF r] by blast
  show ?thesis
  proof (cases "engine_alive (shared s1)")
    case False
    have "task_step E s1 (becomes s1 k (f Panic) (shared s1))"
      using k s1(2) False by (intro task_step.send_fails) simp_all
    with s1 False call show ?thesis
      by (intro exI [of _ "becomes s1 k (f Panic) (shared s1)"])
        (auto simp: call_engine_def intro: rtranclp.rtrancl_into_rtrancl)
  next
    case True
    let ?w = "(shared s1)\<lparr>queue := queue (shared s1) @ [cmd], awaits := Suc (awaits (shared s1))\<rparr>"
    let ?s = "s1\<lparr>shared := ?w, tags := tags s1 @ [next_tag s1], next_tag := Suc (next_tag s1),
      tasks := (tasks s1)(k \<mapsto> Waiting (next_tag s1) cmd f)\<rparr>"
    have step: "task_step E s1 ?s"
      using k s1(2,3) True by (intro task_step.sends) simp_all
    have r1: "routed s1" using task_steps_routed [OF s1(1) r] .
    then have fresh: "answers s1 (next_tag s1) = None"
      by (auto simp: routed_def channel_ok_def)
    obtain a u where run: "engine_run E (e_slots E (awaits (shared s1))) ?w = (a, u)" by fastforce
    then have "engine_run E (e_slots E (awaits (shared s1))) (shared ?s) = (a, u)" by simp
    from engine_run_steps [OF task_step_routed [OF step r1] this] fresh obtain t where
      t: "task_steps E ?s t" "shared t = u"
        "tasks t = (tasks s1)(k \<mapsto> Waiting (next_tag s1) cmd f)" "answers t (next_tag s1) = a"
      by (auto split: option.splits)
    have waits: "tasks t k = Some (Waiting (next_tag s1) cmd f)" using t(3) by simp
    have steps: "task_steps E s t"
      using s1(1) step t(1) by (meson converse_rtranclp_into_rtranclp rtranclp_trans)
    have await: "call_engine E cmd (shared s) =
        (case a of Some y \<Rightarrow> (y, u)
         | None \<Rightarrow> (Err (if engine_alive u then DEADLINE_EXCEEDED else INTERNAL), u))"
      using s1(4) True run by (simp add: call_engine_def await_engine_def split: option.split)
    show ?thesis
    proof (cases a)
      case None
      have "task_step E t (becomes t k
          (f (Err (if engine_alive (shared t) then DEADLINE_EXCEEDED else INTERNAL))) (shared t))"
        using t(4) None by (intro task_step.gives_up [OF waits]) simp
      with steps await None call t(2,3) s1(2) show ?thesis
        by (intro exI conjI) (rule rtranclp.rtrancl_into_rtrancl, assumption+, auto)
    next
      case (Some y)
      have "task_step E t (becomes (t\<lparr>answers := (answers t)(next_tag s1 := None)\<rparr>) k (f y) (shared t))"
        using t(4) Some by (intro task_step.answered [OF waits]) simp
      with steps await Some call t(2,3) s1(2) show ?thesis
        by (intro exI conjI) (rule rtranclp.rtrancl_into_rtrancl, assumption+, auto)
    qed
  qed
qed

lemma run_steps:
  assumes "routed s" "tasks s k = Some (Running p)" "run E p (shared s) = (r, v)"
  shows "\<exists>t. task_steps E s t \<and> shared t = v \<and> tasks t = (tasks s)(k \<mapsto> Running (Done r))"
  using assms
proof (induction p arbitrary: s)
  have go: "\<exists>t. task_steps E s t \<and> shared t = v \<and> tasks t = (tasks s)(k \<mapsto> Running (Done r))"
    if "task_steps E s u" "tasks u = (tasks s)(k \<mapsto> Running p)"
      "\<exists>t. task_steps E u t \<and> shared t = v \<and> tasks t = (tasks u)(k \<mapsto> Running (Done r))" for s u p
    using that by (auto intro: rtranclp_trans)
  {
    case (Done x)
    then show ?case by (intro exI [of _ s]) (auto simp: fun_upd_idem)
  next
    case (Get c f)
    obtain x u where get: "get_handler E c (shared s) = (x, u)" by fastforce
    note step = task_step.gets [OF Get.prems(2) get]
    show ?case
      by (rule go [of s "becomes s k (f x) u"], use step in blast, simp, rule Get.IH)
        (use task_step_routed [OF step Get.prems(1)] Get.prems get in auto)
  next
    case (Give_Back c f)
    obtain x u where get: "release_handler E c (shared s) = (x, u)" by fastforce
    note step = task_step.releases [OF Give_Back.prems(2) get]
    show ?case
      by (rule go [of s "becomes s k (f x) u"], use step in blast, simp, rule Give_Back.IH)
        (use task_step_routed [OF step Give_Back.prems(1)] Give_Back.prems get in auto)
  next
    case (Call cmd f)
    obtain x u where call: "call_engine E cmd (shared s) = (x, u)" by fastforce
    from call_steps [OF Call.prems(1,2) call] obtain t where
      t: "task_steps E s t" "shared t = u" "tasks t = (tasks s)(k \<mapsto> Running (f x))" by blast
    show ?case
      by (rule go [OF t(1,3)], rule Call.IH)
        (use task_steps_routed [OF t(1) Call.prems(1)] Call.prems call t in auto)
  next
    case (Peek f)
    note step = task_step.peeks [OF Peek.prems(2)]
    show ?case
      by (rule go [OF r_into_rtranclp [of "task_step E", OF step]], simp, rule Peek.IH)
        (use task_step_routed [OF step Peek.prems(1)] Peek.prems in auto)
  next
    case (Claim l f)
    obtain x u where claim: "claim l (shared s) = (x, u)" by fastforce
    note step = task_step.claims [OF Claim.prems(2) claim]
    show ?case
      by (rule go [of s "becomes s k (f x) u"], use step in blast, simp, rule Claim.IH)
        (use task_step_routed [OF step Claim.prems(1)] Claim.prems claim in auto)
  }
qed


lemma program_steps:
  assumes idle: "idle s" and p: "method_prog E (fixed_of (shared s)) p" "run E p (shared s) = (r, v)"
  shows "\<exists>t. task_steps E s t \<and> shared t = v \<and> tasks t = [k \<mapsto> Running (Done r)]"
proof -
  let ?s = "becomes s k p (shared s)"
  have none: "tasks s = Map.empty" using idle by (simp add: idle_def)
  then have step: "task_step E s ?s" using p(1) by (intro task_step.starts) simp_all
  have "routed ?s" using idle_routed [OF idle] by (intro task_step_routed [OF step])
  from run_steps [OF this, of k p E r v] p(2) none obtain t where
    t: "task_steps E ?s t" "shared t = v" "tasks t = [k \<mapsto> Running (Done r)]" by auto
  have "task_steps E s t" using step t(1) by (rule converse_rtranclp_into_rtranclp)
  with t(2,3) show ?thesis by blast
qed

text \<open>The sequential model of the methods is one of the interleavings: what a method returns and
  the state it leaves there, for any speed of the engine, is what a single task that starts on
  an idle transport can return and leave.\<close>

lemma methods_run_as_interleavings:
  assumes idle: "idle s"
    and returns: "register_listener E src snk l (shared s) = (r, v) \<or>
      unregister_listener E src snk l (shared s) = (r, v) \<or> send E umsg (shared s) = (r, v)"
  shows "\<exists>t. task_steps E s t \<and> shared t = v \<and> tasks t = [k \<mapsto> Running (Done r)]"
proof -
  obtain p where "method_prog E (fixed_of (shared s)) p" "run E p (shared s) = (r, v)"
    using returns programs_are_the_methods [of E "shared s"] by (metis method_prog.intros)
  from program_steps [OF idle this] show ?thesis .
qed

subsection \<open>A race\<close>

text \<open>A registration overtaken by an unregistration, after it has taken its function.\<close>

lemma registration_overtaken:
  assumes env: "env_ok E bm_ok" and ok: "transport_ok E bm_ok w" and prompt_w: "prompt E w"
    and fast: "\<forall>k. 0 < e_slots E k"
    and app: "\<forall>calls. vs_application_exists (e_vs E) (hist w @ calls) (application_of w)"
    and t: "determine_type (e_up E) src snk = Ok t" "t \<noteq> AllPointToPoint"
    and new: "(src, snk, l) \<notin> ran (listeners E w)" and room: "free_handlers w \<noteq> {}"
  obtains i v q u x y sv j m calls where
    "get_handler E (src, snk, l) w = (Ok (Extern_fn_message_handler i), v)"
    "call_engine E (UnregisterListener src snk t (application_of w)) v = (q, u)" "q \<noteq> Panic"
    "release_handler E (src, snk, l) u = (Ok (), x)"
    "call_engine E (RegisterListener src snk t (Extern_fn_message_handler i) (application_of w)) x =
      (Ok (), y)"
    "listeners E y = listeners E w" "free_handlers y = free_handlers w" "i \<in> free_handlers w"
    "hist y = hist w @ calls @
      [RegisterMessageHandler (application_of w) sv j m (Extern_fn_message_handler i)]"
proof -
  let ?c = "(src, snk, l)" and ?app = "application_of w"
  let ?unreg = "UnregisterListener src snk t ?app"
  have spec: "bimap_spec (e_bm E) bm_ok" and pick: "iterates_members (e_pick E)"
    and inv: "handlers_ok E bm_ok w"
    using env ok by (simp_all add: env_ok_def transport_ok_def)
  obtain i v where v: "i \<in> free_handlers w" "get_handler E ?c w = (Ok (Extern_fn_message_handler i), v)"
    "handlers_ok E bm_ok v" "listeners E v = (listeners E w)(i \<mapsto> ?c)"
    "free_handlers v = free_handlers w - {i}" "engine_side v = engine_side w"
    using spec inv pick by (cases rule: get_handler_cases [of E bm_ok w ?c]) (use new room in auto)
  let ?reg = "RegisterListener src snk t (Extern_fn_message_handler i) ?app"
  have prompt: "prompt E v" using engine_side_prompt [OF v(6), of E] prompt_w by simp
  obtain q u where u: "engine_execute E ?unreg (v\<lparr>awaits := Suc (awaits v)\<rparr>) = (q, u)" by fastforce
  have q: "q \<noteq> Panic"
    using u execute_listener_no_panic [of ?unreg "e_up E" "e_vs E" "e_pick E" "e_overflow_checks E"
        "engine_config_path (v\<lparr>awaits := Suc (awaits v)\<rparr>)" "v\<lparr>awaits := Suc (awaits v)\<rparr>"]
    by (auto simp: engine_execute_def)
  have call1: "call_engine E ?unreg v = (q, u)" using call_engine_prompt [OF prompt u q] .
  obtain cs where cs: "hist u = hist w @ cs"
    using adds_execute [of ?unreg "v\<lparr>awaits := Suc (awaits v)\<rparr>" "e_up E" "e_vs E" "e_pick E"
        "e_overflow_checks E" "engine_config_path (v\<lparr>awaits := Suc (awaits v)\<rparr>)"] u
      engine_side_more(1) [OF v(6)] by (auto simp: adds_def engine_execute_def)
  have "caller_side u = caller_side v" using call_engine_caller_side call1 by (metis snd_conv)
  note eq = caller_side_handlers(2) [OF this, of E] caller_side_handlers(3) [OF this]
  have "transport_ok E bm_ok v"
    using transport_ok_get_handler(1) [OF env ok _ v(2)] t by (simp add: not_point_to_point_def)
  from transport_ok_call_engineD [OF call1 this] have inv_u: "handlers_ok E bm_ok u"
    by (simp add: transport_ok_def)
  have vacant: "listeners E w i = None"
    using bimap_spec.storage_free_unused [OF spec, of "self w" "(statics w, storage w)" i] inv v(1)
    by (simp add: handlers_ok_def free_handlers_def listeners_def)
  have "?c \<in> ran (listeners E u)"
    using eq(1) v(4) ranI [of "listeners E u" i ?c] by simp
  with spec inv_u obtain j x where x: "listeners E u j = Some ?c" "release_handler E ?c u = (Ok (), x)"
    "listeners E x = (listeners E u)(j := None)" "free_handlers x = insert j (free_handlers u)"
    "engine_side x = engine_side u"
    by (cases rule: release_handler_cases [of E bm_ok u ?c]) simp_all
  have "j = i" using x(1) eq(1) v(4) new by (auto simp: ran_def split: if_splits)
  with x eq v vacant have restored: "listeners E x = listeners E w" "free_handlers x = free_handlers w"
    by (auto simp: fun_eq_iff)
  have "queue u = []" "engine_alive u"
    using engine_execute_fields(1,2) [of E ?unreg "v\<lparr>awaits := Suc (awaits v)\<rparr>"] u prompt
    by (simp_all add: prompt_def)
  then have prompt_x: "prompt E x"
    using engine_side_prompt [OF x(5), of E] fast by (simp add: prompt_def)
  obtain sv n m where key: "registered_key (e_vs E) src snk t = Some (sv, n, m)"
    using registered_key_exists [OF t] by blast
  have hist_x: "hist x = hist w @ cs" using engine_side_more(1) [OF x(5)] cs by simp
  then have "vs_application_exists (e_vs E) (hist (x\<lparr>awaits := Suc (awaits x)\<rparr>)) ?app" using app by simp
  from engine_execute_register [OF this key, of "Extern_fn_message_handler i"] obtain calls y where
    y: "engine_execute E ?reg (x\<lparr>awaits := Suc (awaits x)\<rparr>) = (Ok (), y)"
      "hist y = hist w @ (cs @ calls) @ [RegisterMessageHandler ?app sv n m (Extern_fn_message_handler i)]"
    using hist_x by auto
  have call2: "call_engine E ?reg x = (Ok (), y)" using call_engine_prompt [OF prompt_x y(1)] by simp
  have "caller_side y = caller_side x" using call_engine_caller_side call2 by (metis snd_conv)
  note final = caller_side_handlers(2) [OF this, of E] caller_side_handlers(3) [OF this]
  show ?thesis
    by (rule that [OF v(2) call1 q x(2) call2 _ _ v(1) y(2)]) (use final restored in simp_all)
qed

lemma two_tasks_race:
  assumes s: "idle s" and t: "determine_type (e_up E) src snk = Ok t" "t \<noteq> AllPointToPoint"
    and v: "get_handler E (src, snk, l) (shared s) = (Ok h, v)"
    and call1: "call_engine E (UnregisterListener src snk t (application_of (shared s))) v = (q, u)"
      "q \<noteq> Panic"
    and x: "release_handler E (src, snk, l) u = (Ok (), x)"
    and call2: "call_engine E (RegisterListener src snk t h (application_of (shared s))) x = (Ok (), y)"
  shows "\<exists>z. task_steps E s z \<and> shared z = y \<and>
    tasks z = [0 \<mapsto> Running (Done (Ok ())), 1 \<mapsto> Running (Done (Ok ()))]"
proof -
  let ?w = "shared s" and ?c = "(src, snk, l)"
  let ?app = "application_of ?w" and ?me = "fixed_of ?w"
  let ?unreg = "UnregisterListener src snk t ?app" and ?reg = "RegisterListener src snk t h ?app"
  have me: "f_app ?me = ?app" by (simp add: fixed_of_def)
  let ?unreg_prog = "Call ?unreg (\<lambda>r. case r of Panic \<Rightarrow> Done Panic | _ \<Rightarrow> Give_Back ?c (\<lambda>_. Done (Ok ())))"
  have unreg: "unregister_prog E ?me src snk l = ?unreg_prog"
    using t by (simp add: unregister_prog_def me)
  let ?k = "\<lambda>r. case r of
      Ok h \<Rightarrow> Call (RegisterListener src snk t h ?app) Done
    | Err _ \<Rightarrow> Done (Err INTERNAL) | Panic \<Rightarrow> Done Panic"
  have reg: "register_prog E ?me src snk l = Get ?c ?k"
    using t by (simp add: register_prog_def me)
  have none: "tasks s = Map.empty" using s by (simp add: idle_def)
  let ?s1 = "becomes s 0 (Get ?c ?k) ?w"
  let ?s2 = "becomes ?s1 1 ?unreg_prog ?w"
  let ?s3 = "becomes ?s2 0 (Call ?reg Done) v"
  have "task_step E s ?s1"
    using none method_prog.intros(1) [of E ?me src snk l] reg by (intro task_step.starts) simp_all
  moreover have "task_step E ?s1 ?s2"
    using task_step.starts [of ?s1 1 E ?unreg_prog] none method_prog.intros(2) [of E ?me src snk l] unreg
    by simp
  moreover have "task_step E ?s2 ?s3"
    using task_step.gets [of ?s2 0 ?c ?k E] v by simp
  ultimately have steps3: "task_steps E s ?s3"
    by (rule rtranclp.rtrancl_into_rtrancl [OF rtranclp.rtrancl_into_rtrancl
          [OF rtranclp.rtrancl_into_rtrancl [OF rtranclp.rtrancl_refl]]])
  have "routed ?s3" using task_steps_routed [OF steps3 idle_routed [OF s]] .
  then have "\<exists>s4. task_steps E ?s3 s4 \<and> shared s4 = u \<and>
      tasks s4 = (tasks ?s3)(1 \<mapsto> Running (Give_Back ?c (\<lambda>_. Done (Ok ()))))"
    using call_steps [of ?s3 1 ?unreg _ E q u] call1 by (cases q) auto
  then obtain s4 where s4: "task_steps E ?s3 s4" "shared s4 = u"
    "tasks s4 = [0 \<mapsto> Running (Call ?reg Done), 1 \<mapsto> Running (Give_Back ?c (\<lambda>_. Done (Ok ())))]"
    using none by (auto simp: fun_upd_twist)
  let ?s5 = "becomes s4 1 (Done (Ok ())) x"
  have step5: "task_step E s4 ?s5"
    using task_step.releases [of s4 1 ?c "\<lambda>_. Done (Ok ())" E] s4 x by simp
  have steps5: "task_steps E s ?s5"
    by (rule rtranclp.rtrancl_into_rtrancl [OF rtranclp_trans [OF steps3 s4(1)] step5])
  have "routed ?s5" using task_steps_routed [OF steps5 idle_routed [OF s]] .
  from call_steps [OF this, of 0 ?reg Done E "Ok ()" y] call2 s4(3) obtain z where
    z: "task_steps E ?s5 z" "shared z = y"
      "tasks z = [0 \<mapsto> Running (Done (Ok ())), 1 \<mapsto> Running (Done (Ok ()))]"
    by (auto simp: fun_upd_twist)
  have "task_steps E s z" using steps5 z(1) by (rule rtranclp_trans)
  with z(2,3) show ?thesis by blast
qed

text \<open>C20. Two calls on one transport at the same time can leave vsomeip with a function that belongs
  to nobody.  One registers a listener and has taken a handler function; before its command
  is sent, another unregisters the same listener: the engine unregisters, the function is given
  back, and only then the first call's command registers it.  Both calls return Ok, nothing is
  filed and the function is free, to be handed out to another listener, but vsomeip will call
  it for the filters of the first one.\<close>

theorem racing_unregister_leaves_function:
  assumes env: "env_ok E bm_ok" and ok: "transport_ok E bm_ok (shared s)" and s: "idle s"
    and alive: "engine_alive (shared s)" "\<forall>k. 0 < e_slots E k"
    and app: "\<forall>calls. vs_application_exists (e_vs E) (hist (shared s) @ calls)
      (application_of (shared s))"
    and t: "determine_type (e_up E) src snk = Ok t" "t \<noteq> AllPointToPoint"
    and new: "(src, snk, l) \<notin> ran (listeners E (shared s))"
    and room: "free_handlers (shared s) \<noteq> {}"
  shows "\<exists>u i sv j m calls. task_steps E s u \<and>
    tasks u = [0 \<mapsto> Running (Done (Ok ())), 1 \<mapsto> Running (Done (Ok ()))] \<and>
    listeners E (shared u) = listeners E (shared s) \<and>
    free_handlers (shared u) = free_handlers (shared s) \<and> i \<in> free_handlers (shared u) \<and>
    hist (shared u) = hist (shared s) @ calls @
      [RegisterMessageHandler (application_of (shared s)) sv j m (Extern_fn_message_handler i)]"
proof -
  have prompt: "prompt E (shared s)" using alive s by (simp add: prompt_def idle_def)
  obtain i v q u x y sv j m calls where
    y: "get_handler E (src, snk, l) (shared s) = (Ok (Extern_fn_message_handler i), v)"
      "call_engine E (UnregisterListener src snk t (application_of (shared s))) v = (q, u)" "q \<noteq> Panic"
      "release_handler E (src, snk, l) u = (Ok (), x)"
      "call_engine E (RegisterListener src snk t (Extern_fn_message_handler i)
         (application_of (shared s))) x = (Ok (), y)"
      "listeners E y = listeners E (shared s)" "free_handlers y = free_handlers (shared s)"
      "i \<in> free_handlers (shared s)"
      "hist y = hist (shared s) @ calls @
        [RegisterMessageHandler (application_of (shared s)) sv j m (Extern_fn_message_handler i)]"
    using registration_overtaken [OF env ok prompt alive(2) app t new room] by metis
  with two_tasks_race [OF s t y(1-5)] show ?thesis by metis
qed

theorem racing_unregister_leaves_function_witness:
  "\<exists>u i. task_steps (demo_env (\<lambda>_. 1)) demo_tasks u \<and> listeners (demo_env (\<lambda>_. 1)) (shared u) = Map.empty \<and>
    i \<in> free_handlers (shared u) \<and> (\<exists>sv j m. last (hist (shared u)) =
      RegisterMessageHandler ''app'' sv j m (Extern_fn_message_handler i))"
proof -
  have "idle demo_tasks" by (simp add: idle_def)
  from racing_unregister_leaves_function [OF demo_env_ok _ this, of "\<lambda>_. 1" "demo_uri 1 0x8001"
      None Publish "Listener 3"]
  show ?thesis by (auto simp: demo_world_ok demo_simps)
qed

end
