(* ===== verification/Concurrent_Process.thy ===== *)
theory Concurrent_Process
  imports Interleaving
begin

text \<open>
  A process with any number of transports, each with any number of calls at the same time.  A
  step is one action of one transport: a task's action, a command its engine executes or a
  message that arrives (\<open>task_step\<close>), or a transport is made or dropped.  The statics and the
  history of vsomeip calls are the process's, so actions of different transports interleave on
  them.  A transport is dropped when no call on it is running: every method borrows it.
\<close>

record 'bm system =
  s_statics :: statics
  s_hist :: "vs_call list"
  s_transports :: "storage_ref \<rightharpoonup> 'bm tasks_state"

definition process_of :: "'bm system \<Rightarrow> 'bm process" where
  "process_of S = \<lparr>p_statics = s_statics S, p_hist = s_hist S,
     p_transports = (\<lambda>me. map_option shared (s_transports S me))\<rparr>"

definition entered :: "'bm system \<Rightarrow> 'bm tasks_state \<Rightarrow> 'bm tasks_state" where
  "entered S s = s\<lparr>shared := enter (process_of S) (shared s)\<rparr>"

definition left :: "'bm system \<Rightarrow> storage_ref \<Rightarrow> 'bm tasks_state \<Rightarrow> 'bm system" where
  "left S me s = \<lparr>s_statics = statics (shared s), s_hist = hist (shared s),
     s_transports = (s_transports S)(me \<mapsto> s)\<rparr>"

definition no_tasks :: "'bm world \<Rightarrow> 'bm tasks_state" where
  "no_tasks w = \<lparr>shared = w, tags = [0..<length (queue w)], next_tag = length (queue w),
     answers = Map.empty, tasks = Map.empty\<rparr>"

definition system_init :: "'bm system" where
  "system_init = \<lparr>s_statics = statics_init, s_hist = [], s_transports = Map.empty\<rparr>"

inductive system_step :: "('bm, 'v) env \<Rightarrow> 'bm system \<Rightarrow> 'bm system \<Rightarrow> bool" for E S where
  acts: "s_transports S me = Some s \<Longrightarrow> task_step E (entered S s) t \<Longrightarrow>
    system_step E S (left S me t)"
| makes: "s_transports S me = None \<Longrightarrow>
    me \<notin> ran (message_handler_id_to_transport_storage (s_statics S)) \<Longrightarrow>
    new_internal E me c u remote path rc (s_statics S, s_hist S) = (Ok v, g, h) \<Longrightarrow>
    system_step E S (left S me (no_tasks v))"
| makes_none: "s_transports S me = None \<Longrightarrow>
    me \<notin> ran (message_handler_id_to_transport_storage (s_statics S)) \<Longrightarrow>
    new_internal E me c u remote path rc (s_statics S, s_hist S) = (r, g, h) \<Longrightarrow>
    (\<nexists>v. r = Ok v) \<Longrightarrow> system_step E S (S\<lparr>s_statics := g, s_hist := h\<rparr>)"
| drops: "s_transports S me = Some s \<Longrightarrow> \<forall>k t. tasks s k = Some t \<longrightarrow> (\<exists>r. t = Running (Done r)) \<Longrightarrow>
    drop_transport E (shared (entered S s)) = (r, v) \<Longrightarrow>
    system_step E S \<lparr>s_statics = statics v, s_hist = hist v,
      s_transports = (s_transports S)(me := None)\<rparr>"

abbreviation system_reachable :: "('bm, 'v) env \<Rightarrow> 'bm system \<Rightarrow> bool" where
  "system_reachable E S \<equiv> (system_step E)\<^sup>*\<^sup>* system_init S"

lemma process_of_simps [simp]:
  "p_statics (process_of S) = s_statics S" "p_hist (process_of S) = s_hist S"
  "p_transports (process_of S) me = map_option shared (s_transports S me)"
  by (simp_all add: process_of_def)

lemma entered_simps [simp]:
  "shared (entered S s) = enter (process_of S) (shared s)" "tags (entered S s) = tags s"
  "next_tag (entered S s) = next_tag s" "answers (entered S s) = answers s"
  "tasks (entered S s) = tasks s"
  by (simp_all add: entered_def)

lemma process_of_left: "process_of (left S me s) = leave (process_of S) me (shared s)"
  by (simp add: process_of_def left_def leave_def fun_eq_iff)

lemma no_tasks_shared [simp]: "shared (no_tasks w) = w"
  by (simp add: no_tasks_def)

lemma left_simps [simp]: "s_transports (left S me s) = (s_transports S)(me \<mapsto> s)"
  by (simp add: left_def)

definition system_ok :: "('bm, 'v) env \<Rightarrow> ('bm \<Rightarrow> bool) \<Rightarrow> 'bm system \<Rightarrow> bool" where
  "system_ok E bm_ok S \<longleftrightarrow> process_ok E bm_ok (process_of S) \<and>
     (\<forall>me s. s_transports S me = Some s \<longrightarrow> tasks_ok E s \<and> correlated E (shared s) \<and>
        address_ok E (fst (addressed (shared s))))"

lemma system_okD:
  assumes "system_ok E bm_ok S" "s_transports S me = Some s"
  shows "tasks_ok E s" "correlated E (shared s)" "address_ok E (fst (addressed (shared s)))"
  using assms by (auto simp: system_ok_def)

lemma system_ok_left:
  assumes "system_ok E bm_ok S" "process_ok E bm_ok (leave (process_of S) me (shared s))"
    and "tasks_ok E s" "correlated E (shared s)" "address_ok E (fst (addressed (shared s)))"
  shows "system_ok E bm_ok (left S me s)"
  using assms by (simp add: system_ok_def process_of_left)

lemma system_step_ok:
  assumes env: "env_ok E bm_ok" and ok: "system_ok E bm_ok S" and step: "system_step E S S'"
  shows "system_ok E bm_ok S'"
proof -
  have p: "process_ok E bm_ok (process_of S)" using ok by (simp add: system_ok_def)
  from step show ?thesis
  proof cases
    case (acts me s t)
    note s = system_okD [OF ok acts(2)]
    have tasks: "tasks_ok E (entered S s)" using tasks_ok_same [OF s(1)] by simp
    have moves: "moves E (enter (process_of S) (shared s)) (shared t)"
      using task_step_moves [OF env acts(3) tasks] by simp
    have "process_ok E bm_ok (leave (process_of S) me (shared t))"
      using process_ok_leave [OF env p _ moves, of me] acts(2) by simp
    moreover have "correlated E (shared t)" "addressed (shared t) = addressed (shared s)"
      using moves_correlated [OF moves] moves_addressed [OF moves] s(2) by simp_all
    ultimately show ?thesis
      using system_ok_left [OF ok] task_step_tasks_ok [OF env acts(3) tasks] s(3) acts(1) by simp
  next
    case (makes me c u remote path rc v g h)
    have new: "new_internal E me c u remote path rc (p_statics (process_of S), p_hist (process_of S)) =
        (Ok v, g, h)" using makes(4) by simp
    have "process_ok E bm_ok (leave (process_of S) me v)"
      using new_internal_process_ok(1) [OF env p _ _ new refl] makes(2,3) by simp
    moreover have "tasks_ok E (no_tasks v)" by (simp add: tasks_ok_def no_tasks_def)
    ultimately show ?thesis
      using system_ok_left [OF ok, of me "no_tasks v"] new_internal_Ok [OF new]
        new_internal_correlated [OF new] makes(1) by (simp add: no_tasks_def)
  next
    case (makes_none me c u remote path rc r g h)
    have "process_of S' = (process_of S)\<lparr>p_statics := g, p_hist := h\<rparr>"
      by (simp add: makes_none(1) process_of_def)
    with new_internal_process_ok(2) [OF env p, of me c u remote path rc r g h] makes_none ok
    show ?thesis by (simp add: system_ok_def)
  next
    case (drops me s r v)
    let ?w = "enter (process_of S) (shared s)"
    have w: "transport_ok E bm_ok ?w" "self ?w = me"
      using p drops(2) by (auto simp: process_ok_def)
    have "moves E ?w v" using drop_transport_moves [of E ?w] drops(4) by simp
    moreover have "p_transports (process_of S') = (p_transports (process_of S))(me := None)"
      by (simp add: drops(1) process_of_def fun_eq_iff)
    ultimately have "process_ok E bm_ok (process_of S')"
      using process_ok_moves [OF env p w(1) _ w(2), of v "process_of S'" None] drops(1) by simp
    with ok drops(1) show ?thesis by (simp add: system_ok_def)
  qed
qed

lemma system_reachable_ok:
  fixes E :: "('bm, 'v) env"
  assumes reach: "system_reachable E S" and env: "env_ok E bm_ok" shows "system_ok E bm_ok S"
  using reach
proof (induction rule: rtranclp_induct)
  case base
  have "process_of system_init = (process_init :: 'bm process)"
    by (simp add: process_of_def system_init_def process_init_def fun_eq_iff)
  then have "process_ok E bm_ok (process_of system_init)" by (simp only: process_init_ok)
  then show ?case by (simp add: system_ok_def system_init_def)
next
  case (step S S')
  from system_step_ok [OF env step.IH step.hyps(2)] show ?case .
qed

text \<open>The steps of the tasks of one transport are steps of the system.\<close>

lemma task_steps_system_steps:
  assumes "task_steps E (entered S s) t" and s: "s_transports S me = Some s"
  shows "t = entered S s \<or> (system_step E)\<^sup>*\<^sup>* S (left S me t)"
  using assms(1)
proof (induction rule: rtranclp_induct)
  case (step t u)
  show ?case
  proof (cases "t = entered S s")
    case True
    with step.hyps(2) have "system_step E S (left S me u)"
      by (intro system_step.acts [OF s]) simp
    then show ?thesis by blast
  next
    case False
    have "enter (process_of (left S me t)) (shared t) = shared t"
      by (cases "shared t") (simp add: enter_def left_def process_of_def)
    then have "entered (left S me t) t = t" by (simp add: entered_def)
    with step.hyps(2) have "system_step E (left S me t) (left (left S me t) me u)"
      by (intro system_step.acts [where s = t]) (simp_all add: left_def)
    moreover have "left (left S me t) me u = left S me u" by (simp add: left_def)
    ultimately show ?thesis
      using step.IH False by (metis rtranclp.rtrancl_into_rtrancl)
  qed
qed simp

text \<open>A method called on a transport without tasks, one action after the other.\<close>

lemma call_system_steps:
  assumes "s_transports S me = Some s" "idle s"
    and p: "method_prog E (fixed_of (shared s)) p" "run E p (shared (entered S s)) = (r, v)"
  shows "\<exists>t. (system_step E)\<^sup>*\<^sup>* S (left S me t) \<and> shared t = v"
proof -
  have idle: "idle (entered S s)" using assms(2) by (simp add: idle_def enter_def)
  have same: "fixed_of (enter (process_of S) (shared s)) = fixed_of (shared s)"
    by (simp add: fixed_of_def enter_def application_of_def)
  from program_steps [OF idle _ p(2), of 0] p(1) obtain t where
    t: "task_steps E (entered S s) t" "shared t = v" "tasks t = [0 \<mapsto> Running (Done r)]"
    by (auto simp: same)
  have "tasks t 0 \<noteq> tasks (entered S s) 0" using t(3) idle by (simp add: idle_def)
  then have "t \<noteq> entered S s" by blast
  with task_steps_system_steps [OF t(1) assms(1)] t(2) show ?thesis by blast
qed

text \<open>A system with one transport, whose registration of a listener has run as a task.\<close>

lemma demo_system:
  obtains S s i where "system_reachable (demo_env (\<lambda>_. 1)) S" "s_transports S 0 = Some s"
    "listeners (demo_env (\<lambda>_. 1)) (shared s) i = Some (demo_uri 1 0x8001, None, Listener 3)"
proof -
  let ?E = "demo_env (\<lambda>_. 1)"
  let ?c = "\<lparr>app_name = ''new'', app_id = 1\<rparr>"
  obtain w v i where w: "new_internal ?E 0 ?c (demo_uri 0x10 0) ''r'' None None (statics_init, []) =
      (Ok w, statics w, hist w)" "queue w = []"
    and v: "register_listener ?E (demo_uri 1 0x8001) None (Listener 3) w = (Ok (), v)"
      "listeners ?E v = [i \<mapsto> (demo_uri 1 0x8001, None, Listener 3)]"
    by (rule demo_transport)
  let ?S = "left system_init 0 (no_tasks w)"
  have "system_step ?E system_init ?S"
    by (rule system_step.makes [where me = 0 and c = ?c and u = "demo_uri 0x10 0"
          and remote = "''r''" and path = None and rc = None and g = "statics w" and h = "hist w"])
      (use w in \<open>simp_all add: system_init_def statics_init_def\<close>)
  then have S: "system_reachable ?E ?S" by (rule r_into_rtranclp)
  have "idle (no_tasks w)" using w(2) by (simp add: idle_def no_tasks_def)
  moreover have same: "entered ?S (no_tasks w) = no_tasks w"
    by (cases w) (simp add: entered_def enter_def process_of_def left_def no_tasks_def)
  moreover have "run ?E (register_prog ?E (fixed_of w) (demo_uri 1 0x8001) None (Listener 3)) w = (Ok (), v)"
    using v(1) programs_are_the_methods [of ?E w] by simp
  ultimately obtain t where t: "(system_step ?E)\<^sup>*\<^sup>* ?S (left ?S 0 t)" "shared t = v"
    using call_system_steps [of ?S 0 "no_tasks w" ?E, OF _ _ method_prog.intros(1)] by fastforce
  with S have "system_reachable ?E (left ?S 0 t)" by (meson rtranclp_trans)
  with v(2) t(2) that [of "left ?S 0 t" t i] show ?thesis by simp
qed

subsection \<open>Handler functions\<close>

text \<open>C2. In every state a process can reach, however the calls on any number of transports, their
  engines, incoming messages and the making and dropping of transports interleave, a handler
  function a listener is filed under is one of the generated ones, is not free, is found in the
  process-wide table for the transport that filed it, and is used for no other listener, in this
  transport or another.\<close>

theorem handlers_exclusive_under_concurrency:
  assumes reach: "system_reachable E S" and env: "env_ok E bm_ok"
    and s: "s_transports S me = Some s" and i: "listeners E (shared s) i = Some c"
  shows "i < num_message_handlers \<and> i \<notin> free_message_handler_ids (s_statics S) \<and>
    get_message_handler_id_transport i (process_of S) = Some (me, shared s) \<and>
    (\<nexists>me' s'. s_transports S me' = Some s' \<and> listeners E (shared s') i \<noteq> None \<and> me' \<noteq> me) \<and>
    (\<nexists>j. listeners E (shared s) j = Some c \<and> j \<noteq> i)"
proof -
  have "process_ok E bm_ok (process_of S)"
    using system_reachable_ok [OF reach env] by (simp add: system_ok_def)
  from process_ok_exclusive [OF this env _ i, of me] s show ?thesis
    by simp (metis option.distinct(1))
qed

theorem handlers_exclusive_under_concurrency_witness:
  "\<exists>S s i. system_reachable (demo_env (\<lambda>_. 1)) S \<and> s_transports S 0 = Some s \<and>
    listeners (demo_env (\<lambda>_. 1)) (shared s) i \<noteq> None \<and>
    get_message_handler_id_transport i (process_of S) = Some (0, shared s)"
proof -
  obtain S s i where S: "system_reachable (demo_env (\<lambda>_. 1)) S" "s_transports S 0 = Some s"
    "listeners (demo_env (\<lambda>_. 1)) (shared s) i = Some (demo_uri 1 0x8001, None, Listener 3)"
    by (rule demo_system)
  from handlers_exclusive_under_concurrency [OF S(1) demo_env_ok S(2,3)] S show ?thesis by blast
qed

subsection \<open>Identifiers of requests\<close>

text \<open>C16. In such a state of a build with overflow checks, the identifier under which the next
  request of any application is filed is not in use: a complete request an engine then sends is
  sent, unless its client's session counter stands at its largest value, and is never refused
  because of another one, however many requests of however many callers wait for their answers.\<close>

theorem concurrent_requests_get_fresh_identifiers:
  assumes reach: "system_reachable E S" and env: "env_ok E bm_ok" and oc: "e_overflow_checks E"
    and s: "s_transports S me = Some s"
    and t: "msg_type (attributes_of U umsg) = Some UMESSAGE_TYPE_REQUEST"
    and attrs: "msg_source (attributes_of U umsg) = Some src"
      "msg_sink (attributes_of U umsg) = Some snk" "msg_id (attributes_of U umsg) = Some i"
  shows "ue_table (shared s) (next_request_id V app (shared (entered S s))) = None \<and>
    fst (send_internal U V (e_overflow_checks E) umsg app (shared (entered S s))) =
      (if session_table (shared s) (vs_get_client V (s_hist S) app) = Some 0xFFFF then Panic
       else Ok ())"
proof -
  have "correlated E (shared (entered S s))"
    using system_okD(2) [OF system_reachable_ok [OF reach env] s] by simp
  from correlated_request_sent [OF this oc t attrs, of V app] show ?thesis by simp
qed

theorem concurrent_requests_get_fresh_identifiers_witness:
  "\<exists>S s. system_reachable (demo_env (\<lambda>_. 1)) S \<and> s_transports S 0 = Some s \<and>
    ue_table (shared s) (next_request_id ref_vsomeip ''new'' (shared (entered S s))) = None"
proof -
  let ?m = "demo_message UMESSAGE_TYPE_REQUEST (demo_uri 0x11 0) (Some (demo_uri 0x22 0x33)) None"
  obtain S s i where S: "system_reachable (demo_env (\<lambda>_. 1)) S" "s_transports S 0 = Some s"
    "listeners (demo_env (\<lambda>_. 1)) (shared s) i = Some (demo_uri 1 0x8001, None, Listener 3)"
    by (rule demo_system)
  from concurrent_requests_get_fresh_identifiers [OF S(1) demo_env_ok _ S(2), of ref_up_rust ?m
      "demo_uri 0x11 0" "demo_uri 0x22 0x33" "UUID 7" ref_vsomeip "''new''"] S
  show ?thesis by auto
qed

end
