(* ===== verification/Remote_Calls.thy ===== *)
theory Remote_Calls
  imports Concurrent_Process
begin

text \<open>
  Messages between two transports of one process: what the engine of one hands to vsomeip,
  vsomeip hands to a handler function of the other.  vsomeip itself is outside the repository;
  that it delivers a request to the function registered for its service and method, under the
  sender's client identifier and session, and a response back to the client, is documented, and
  is what the choice of the functions \<open>i\<close> and \<open>j\<close> and of the identifiers below stands for.
\<close>

lemma engine_sends_OkD:
  assumes "engine_execute E (Send umsg t app) w = (Ok (), v)"
  shows "vs_application_exists (e_vs E) (hist w) app"
    "send_internal (e_up E) (e_vs E) (e_overflow_checks E) umsg app w = (Ok (), v)"
  using assms by (auto simp: engine_execute_def execute_def get_application_def split: if_splits)

text \<open>The engine sends a request.\<close>

lemma request_sent_OkE:
  assumes "send_internal U V oc umsg app w = (Ok (), v)"
    and "msg_type (attributes_of U umsg) = Some UMESSAGE_TYPE_REQUEST"
  obtains src snk i where "msg_source (attributes_of U umsg) = Some src"
    "msg_sink (attributes_of U umsg) = Some snk" "msg_id (attributes_of U umsg) = Some i"
    "hist v = hist w @ [SendMessage app
       (set_message_payload (set_data_safe (case payload umsg of Some b \<Rightarrow> b | None \<Rightarrow> [])) (request_message V snk))]"
    "ue_table v = (ue_table w)(next_request_id V app w \<mapsto> (i, src))" "me_table v = me_table w"
    "ue_table w (next_request_id V app w) = None"
proof -
  obtain m u where conv: "umsg_request_to_vsomeip_message U V oc umsg app w = (Ok m, u)"
    and v: "v = call_vs (SendMessage app (set_message_payload
       (set_data_safe (case payload umsg of Some b \<Rightarrow> b | None \<Rightarrow> [])) m)) u"
    using assms by (auto simp: send_internal_def Let_def and_then_Ok_iff)
  from request_OkE [OF conv] obtain src snk i where umsg: "msg_source (attributes_of U umsg) = Some src"
    "msg_sink (attributes_of U umsg) = Some snk" "msg_id (attributes_of U umsg) = Some i"
    "m = request_message V snk" and free: "ue_table w (next_request_id V app w) = None"
    and u: "ue_table u = (ue_table w)(next_request_id V app w \<mapsto> (i, src))"
    "me_table u = me_table w" "u = w\<lparr>storage := storage u\<rparr>" .
  have "hist u = hist w" using arg_cong [OF u(3), of hist] by simp
  with that [OF umsg(1-3) _ _ _ free] v umsg(4) u show ?thesis by (simp add: table_defs)
qed

text \<open>The engine sends the response to a request that is filed.\<close>

lemma response_sent:
  assumes "msg_type (attributes_of U umsg) = Some UMESSAGE_TYPE_RESPONSE"
    and "umsg_response_to_vsomeip_message U V umsg w = (Ok m, u)" "hist u = hist w"
  shows "send_internal U V oc umsg app w = (Ok (), call_vs (SendMessage app (set_message_payload
     (set_data_safe (case payload umsg of Some b \<Rightarrow> b | None \<Rightarrow> [])) m)) u)"
  using assms by (simp add: send_internal_def Let_def)


lemma on_storage_hist: "on_storage f w = (r, s) \<Longrightarrow> hist s = hist w"
  by (metis on_storage_simps(4) snd_conv)

lemma leave_leave [simp]: "leave (leave p me v) me w = leave p me w"
  by (simp add: leave_def)

lemma response_hist: "hist (snd (umsg_response_to_vsomeip_message U V umsg w)) = hist w"
  by (auto simp: umsg_response_to_vsomeip_message_def Let_def case_prod_unfold split: option.split
      intro!: and_then_snd_invariant [where P = "\<lambda>v. hist v = hist w"] dest: on_storage_hist)

lemma convert_hist: "hist (snd (convert_vsomeip_msg_to_umsg U V n auth me remote m w)) = hist w"
proof (cases "get_message_payload m")
  case (Some x)
  note inv = and_then_snd_invariant [where P = "\<lambda>v. hist v = hist w"]
  show ?thesis
  proof (cases "v_message_type m")
    case MT_REQUEST
    with Some show ?thesis
      by (auto simp: convert_vsomeip_msg_to_umsg_def convert_vsomeip_mt_request_to_umsg_def Let_def
          split: option.split intro!: inv dest: on_storage_hist)
  qed (use Some in \<open>auto simp: convert_vsomeip_msg_to_umsg_def convert_vsomeip_mt_response_to_umsg_def
      convert_vsomeip_mt_error_to_umsg_def convert_vsomeip_mt_notification_to_umsg_def Let_def
      split: option.split intro!: inv dest: on_storage_hist\<close>)
qed (simp add: convert_vsomeip_msg_to_umsg_def)

lemma enter_leave_same [simp]: "enter (leave p me w) w = w"
  by (cases w) (simp add: enter_def leave_def)

text \<open>A request that arrives is given to the listener, and its reply is sent.\<close>

lemma request_served:
  fixes E :: "('bm, 'v) env"
  defines "U \<equiv> e_up E" and "V \<equiv> e_vs E"
  assumes p: "process_ok E bm_ok p" and env: "env_ok E bm_ok" and up: "up_rust_spec U"
    and m: "v_message_type m = MT_REQUEST" "get_message_payload m = Some d" "vs_get_request V m = k"
    and B: "p_transports p b = Some B" "listeners E B j = Some (src, snk, lb)"
      "ue_version_major (storage_uri (storage B)) < 256"
    and req: "u_try_from_parts U (get_local_authority (storage B)) (ucast (v_service m))
        (v_interface_version m) (v_method m) = Some called"
      "u_try_from_parts U (remote_authority (storage B)) (ue_id (storage_uri (storage B)))
        (ucast (ue_version_major (storage_uri (storage B)))) 0 = Some caller"
      "u_build_request U n called caller 1000 (get_data_safe d) = Some req"
      "msg_id (attributes_of U req) = Some x" "me_table B x = None"
    and alive: "vs_application_exists V (p_hist p) (application_of B)"
    and reply: "msg_type (attributes_of U reply) = Some UMESSAGE_TYPE_RESPONSE"
      "msg_reqid (attributes_of U reply) = msg_id (attributes_of U req)"
      "msg_source (attributes_of U reply) = msg_sink (attributes_of U req)"
      "msg_commstatus (attributes_of U reply) = status"
      "payload reply = Some result"
  obtains B1 B2 where
    "call_shared_extern_fn E n j m p = (Some (lb, req), leave p b B1)" "payload req = Some (get_data_safe d)"
    "engine_execute E (Send reply t (application_of B)) B1 = (Ok (), B2)"
    "hist B2 = hist B1 @ [SendMessage (application_of B)
       (set_message_payload (set_data_safe result) (response_message V called k status))]"
    "me_table B2 = me_table B" "process_ok E bm_ok (leave p b B2)"
proof -
  have new: "me_table (enter p B) x = None" using req(5) by (simp add: table_defs)
  from server_answers [OF up m(1,2) B(3) req(1-4) new reply(2-4), where V = V, unfolded m(3)]
  obtain B1 v2 where served:
    "convert_vsomeip_msg_to_umsg U V n (get_local_authority (storage B)) (storage_uri (storage B))
       (remote_authority (storage B)) m (enter p B) = (Ok req, B1)"
    "payload req = Some (get_data_safe d)"
    "umsg_response_to_vsomeip_message U V reply B1 = (Ok (response_message V called k status), v2)"
    "me_table v2 = me_table (enter p B)" .
  have call: "call_shared_extern_fn E n j m p = (Some (lb, req), leave p b B1)"
    using process_ok_dispatch [OF p env B(1,2)] served(1) by (simp add: U_def V_def)
  have "moves E (enter p B) B1"
    using convert_moves [of E "enter p B" V n] served(1) by (metis U_def snd_conv)
  then have p1: "process_ok E bm_ok (leave p b B1)" by (rule process_ok_leave [OF env p B(1)])
  have B1: "untouched B1 = untouched (enter p B)" using convert_untouched served(1) by (metis snd_conv)
  have same: "application_of B1 = application_of B" "hist B1 = p_hist p"
    using B1 convert_hist [of U V n "get_local_authority (storage B)" "storage_uri (storage B)"
        "remote_authority (storage B)" m "enter p B"] served(1)
    by (simp_all add: application_of_def untouched_def)
  let ?r = "set_message_payload (set_data_safe result) (response_message V called k status)"
  let ?B2 = "call_vs (SendMessage (application_of B) ?r) v2"
  have hist: "hist v2 = hist B1" using response_hist [of U V reply B1] served(3) by simp
  have sent: "engine_execute E (Send reply t (application_of B)) B1 = (Ok (), ?B2)"
    using response_sent [OF reply(1) served(3) hist, of "e_overflow_checks E" "application_of B"] alive same
    by (simp add: engine_execute_def execute_def get_application_def U_def V_def reply(5))
  have "process_ok E bm_ok (leave p b ?B2)"
    using process_ok_leave [OF env p1, of b B1 ?B2] engine_execute_moves [OF sent] by simp
  with that call served(2,4) sent hist show thesis by (simp add: table_defs)
qed

lemma remote_call_lemma:
  fixes E :: "('bm, 'v) env"
  defines "U \<equiv> e_up E" and "V \<equiv> e_vs E"
  assumes p: "process_ok E bm_ok p" and env: "env_ok E bm_ok"
    and up: "up_rust_spec U" and ids: "vsomeip_request_ids V"
    and request_type: "v_message_type (vs_create_request V) = MT_REQUEST"
    and client: "p_transports p a = Some A" "listeners E A i = Some (src1, snk1, la)"
    and server: "p_transports p b = Some B" "listeners E B j = Some (src2, snk2, lb)" "a \<noteq> b"
      "ue_version_major (storage_uri (storage B)) < 256"
    and request: "msg_type (attributes_of U umsg) = Some UMESSAGE_TYPE_REQUEST"
      "msg_source (attributes_of U umsg) = Some src" "msg_id (attributes_of U umsg) = Some k"
      "payload umsg = Some body" "length body < 2 ^ 32"
    and sent: "engine_execute E (Send umsg t (application_of A)) (enter p A) = (Ok (), A1)"
    and wire: "last (hist A1) = SendMessage (application_of A) m"
      "create_request_id c z = next_request_id V (application_of A) (enter p A)"
    and alive: "vs_application_exists V (hist A1) (application_of B)"
    and req: "u_try_from_parts U (get_local_authority (storage B)) (ucast (v_service m))
        (v_interface_version m) (v_method m) = Some called"
      "u_try_from_parts U (remote_authority (storage B)) (ue_id (storage_uri (storage B)))
        (ucast (ue_version_major (storage_uri (storage B)))) 0 = Some caller"
      "u_build_request U n called caller 1000 body = Some req"
      "msg_id (attributes_of U req) = Some x" "me_table B x = None"
    and reply: "msg_type (attributes_of U reply) = Some UMESSAGE_TYPE_RESPONSE"
      "msg_reqid (attributes_of U reply) = msg_id (attributes_of U req)"
      "msg_source (attributes_of U reply) = msg_sink (attributes_of U req)"
      "msg_commstatus (attributes_of U reply) = status"
      "payload reply = Some result" "length result < 2 ^ 32"
    and answer: "u_try_from_parts U (remote_authority (storage A)) (ucast (v_service m))
        (v_interface_version m) (v_method m) = Some answering"
      "u_build_response U n' src k answering (arriving_status status) result = Some answer"
  shows "\<exists>B1 r B2 A2.
    hist A1 = p_hist p @ [SendMessage (application_of A) m] \<and>
    call_shared_extern_fn E n j (m\<lparr>v_client := c, v_session := z\<rparr>) (leave p a A1) =
      (Some (lb, req), leave (leave p a A1) b B1) \<and>
    payload req = Some body \<and>
    engine_execute E (Send reply t' (application_of B)) B1 = (Ok (), B2) \<and>
    hist B2 = hist B1 @ [SendMessage (application_of B) r] \<and>
    call_shared_extern_fn E n' i r (leave (leave p a A1) b B2) =
      (Some (la, answer), leave (leave (leave p a A1) b B2) a A2) \<and>
    msg_reqid (attributes_of U answer) = msg_id (attributes_of U umsg) \<and>
    msg_sink (attributes_of U answer) = msg_source (attributes_of U umsg) \<and>
    payload answer = Some result \<and>
    msg_commstatus (attributes_of U answer) = Some (Some (arriving_status status)) \<and>
    ue_table A2 = ue_table A \<and> me_table B2 = me_table B"
proof -
  let ?k = "next_request_id V (application_of A) (enter p A)" and ?app = "application_of A"
  note dispatch = process_ok_dispatch [of E, folded U_def V_def]
  have uri: "up_rust_uri U" and builder: "up_rust_builder U" using up by (simp_all add: up_rust_spec_def)
  have sent': "send_internal U V (e_overflow_checks E) umsg ?app (enter p A) = (Ok (), A1)"
    using engine_sends_OkD(2) [OF sent] by (simp add: U_def V_def)
  obtain snk where
    x: "hist A1 = hist (enter p A) @ [SendMessage ?app
       (set_message_payload (set_data_safe (case payload umsg of Some b \<Rightarrow> b | None \<Rightarrow> []))
         (request_message V snk))]"
      "ue_table A1 = (ue_table (enter p A))(?k \<mapsto> (k, src))" "me_table A1 = me_table (enter p A)"
      "ue_table (enter p A) ?k = None"
    by (rule request_sent_OkE [OF sent' request(1)]) (use request(2,3) in auto)
  have m: "m = set_message_payload (set_data_safe body) (request_message V snk)"
    using x(1) wire(1) request(4) by simp
  let ?m' = "m\<lparr>v_client := c, v_session := z\<rparr>"
  let ?p1 = "leave p a A1"
  have p1: "process_ok E bm_ok ?p1"
    by (rule process_ok_leave [OF env p client(1) engine_execute_moves [OF sent]])
  have same: "caller_side A1 = caller_side (enter p A)"
    using engine_execute_fields(4) [of E "Send umsg t ?app" "enter p A"] sent by simp
  have m': "v_message_type ?m' = MT_REQUEST" "get_message_payload ?m' = Some (set_data_safe body)"
    "vs_get_request V ?m' = ?k"
    using wire request_type vsomeip_request_ids.get_request_parts [OF ids, of ?m']
    by (simp_all add: m get_message_payload_def set_message_payload_def request_message_def)
  have bytes: "get_data_safe (set_data_safe body) = body" "get_data_safe (set_data_safe result) = result"
    using request(5) reply(6) by (simp_all add: get_data_set_data)
  have B: "p_transports ?p1 b = Some B" using server(1,3) by simp
  have alive1: "vs_application_exists V (p_hist ?p1) (application_of B)" using alive by (simp add: V_def)
  have called: "u_try_from_parts U (get_local_authority (storage B)) (ucast (v_service ?m'))
        (v_interface_version ?m') (v_method ?m') = Some called"
      "u_build_request U n called caller 1000 (get_data_safe (set_data_safe body)) = Some req"
    using req(1,3) bytes by simp_all
  obtain B1 B2 where served:
    "call_shared_extern_fn E n j ?m' ?p1 = (Some (lb, req), leave ?p1 b B1)"
    "payload req = Some (get_data_safe (set_data_safe body))"
    "engine_execute E (Send reply t' (application_of B)) B1 = (Ok (), B2)"
    "hist B2 = hist B1 @ [SendMessage (application_of B)
       (set_message_payload (set_data_safe result) (response_message V called ?k status))]"
    "me_table B2 = me_table B" and p3: "process_ok E bm_ok (leave ?p1 b B2)"
    unfolding V_def
    by (rule request_served [OF p1 env up [unfolded U_def] m' [unfolded U_def V_def] B server(2,4)
          called(1) [unfolded U_def] req(2) [unfolded U_def] called(2) [unfolded U_def]
          req(4,5) [unfolded U_def] alive1 [unfolded V_def] reply(1-5) [unfolded U_def], of t'])
  let ?a = "set_data_safe result" and ?r = "response_message V called ?k status"
  let ?p3 = "leave ?p1 b B2"
  have A: "p_transports ?p3 a = Some A1" using server(3) by simp
  have lA: "listeners E A1 i = Some (src1, snk1, la)"
    using caller_side_handlers(2) [OF same, of E] client(2) by (simp add: listeners_def)
  have rA: "remote_authority (storage A1) = remote_authority (storage A)"
    using caller_side_addressed [OF same] by (simp add: addressed_def)
  have entry: "ue_table (enter ?p3 A1) ?k = Some (k, src)" using x(2) by simp
  have "ucast (ucast (ue_id called) :: u16) = (ucast (v_service m) :: u32)"
    "ucast (ue_version_major called) = v_interface_version m" "ucast (resource_id called) = v_method m"
    using up_rust_uri.try_from_parts_fields [OF uri req(1)] by simp_all
  then have src': "u_try_from_parts U (remote_authority (storage A1)) (ucast (ucast (ue_id called) :: u16))
      (ucast (ue_version_major called)) (ucast (resource_id called)) = Some answering"
    using answer(1) rA by simp
  have ans: "u_build_response U n' src k answering (arriving_status status) (get_data_safe ?a) = Some answer"
    using answer(2) bytes by simp
  obtain A2 where answered:
    "convert_vsomeip_msg_to_umsg U V n' (get_local_authority (storage A1)) (storage_uri (storage A1))
       (remote_authority (storage A1)) (?r\<lparr>v_payload := Some ?a\<rparr>) (enter ?p3 A1) = (Ok answer, A2)"
    "msg_reqid (attributes_of U answer) = Some k" "msg_sink (attributes_of U answer) = Some src"
    "payload answer = Some (get_data_safe ?a)"
    "msg_commstatus (attributes_of U answer) = Some (Some (arriving_status status))"
    "ue_table A2 = (ue_table (enter ?p3 A1))(?k := None)"
    by (rule client_gets_answer [OF builder ids src' ans entry])
  have call2: "call_shared_extern_fn E n' i (set_message_payload ?a ?r) ?p3 =
      (Some (la, answer), leave ?p3 a A2)"
    using dispatch [OF p3 env A lA answered(1)] by (simp add: set_message_payload_def)
  have "ue_table A2 = ue_table A" using answered(6) x(2,4) by (simp add: fun_upd_idem)
  moreover have "hist A1 = p_hist p @ [SendMessage ?app m]" using x(1) request(4) m by simp
  ultimately show ?thesis
    using call2 served answered(2-5) request(2,3) bytes
    by (intro exI [of _ B1] exI [of _ "set_message_payload ?a ?r"]
        exI [of _ B2] exI [of _ A2]) simp
qed

subsection \<open>A process with two transports\<close>

lemma demo_two_made:
  obtains w v where
    "new_internal (demo_env (\<lambda>_. 1)) 0 \<lparr>app_name = ''one'', app_id = 1\<rparr> (demo_uri 0x11 0) ''two'' None None
       (statics_init, []) = (Ok w, statics w, hist w)"
    "new_internal (demo_env (\<lambda>_. 1)) 1 \<lparr>app_name = ''two'', app_id = 2\<rparr> (demo_uri 0x22 0) ''one'' None None
       (statics w, hist w) = (Ok v, statics v, hist v)"
    "message_handler_id_to_transport_storage (statics w) = Map.empty"
    "queue w = []" "queue v = []" "engine_alive w" "engine_alive v"
    "application_of w = ''one''" "application_of v = ''two''"
    "rpc_registry (storage w) = rpc_correlation_new" "rpc_registry (storage v) = rpc_correlation_new"
    "listeners (demo_env (\<lambda>_. 1)) w = Map.empty" "listeners (demo_env (\<lambda>_. 1)) v = Map.empty"
    "transport_ok (demo_env (\<lambda>_. 1)) pairs_ok v" "free_handlers v = {..<num_message_handlers}"
    "list_ex (creates ''one'') (hist v)" "list_ex (creates ''two'') (hist v)"
proof -
  let ?E = "demo_env (\<lambda>_. 1)"
  let ?c = "\<lparr>app_name = ''one'', app_id = 1\<rparr>" and ?d = "\<lparr>app_name = ''two'', app_id = 2\<rparr>"
  have ids: "free_state_handler_ids statics_init = {..<num_state_handlers}"
    by (simp add: statics_init_def)
  have none: "0 \<notin> ran (message_handler_id_to_transport_storage statics_init)"
    by (simp add: statics_init_def)
  from new_internal_ready [OF demo_env_ok statics_ok_init states_ok_init none,
      of "demo_uri 0x11 0" "\<lambda>_. 1" None 0 "[]" ?c ST_REGISTERED "[]" "''two''" None]
  obtain w where w: "new_internal ?E 0 ?c (demo_uri 0x11 0) ''two'' None None (statics_init, []) =
      (Ok w, statics w, hist w)" "transport_ok ?E pairs_ok w" "listeners ?E w = Map.empty"
    "hist w = start_calls ref_vsomeip [] ''one'' None 0 @ [UnregisterStateHandler ''one'']"
    "free_handlers w = free_message_handler_ids statics_init" "queue w = []" "engine_alive w"
    "application_of w = ''one''" "rpc_registry (storage w) = rpc_correlation_new" "init_done (statics w)"
    "free_state_handler_ids (statics w) = {..<num_state_handlers}"
    "available_state_channels (statics w) =
       (available_state_channels (new_trait_obj statics_init))(0 \<mapsto> [])"
    by (auto simp: ids Min_state_handlers ref_up_rust_def demo_uri_def state_channel_capacity_def
        runtime_threads_def DEFAULT_NUM_THREADS_def)
  have g: "statics_ok (statics w)" using w(2) by (rule transport_ok_statics_ok)
  have "free_message_handler_ids (statics w) = {..<num_message_handlers}"
    using w(5) by (simp add: free_handlers_def statics_init_def)
  with g have table: "message_handler_id_to_transport_storage (statics w) = Map.empty"
    unfolding statics_ok_def by (metis Diff_disjoint Int_absorb1 dom_eq_empty_conv inf.commute inf.absorb_iff1)
  have obj: "new_trait_obj (statics w) = statics w" using w(10) by (simp add: new_trait_obj_def)
  have states: "states_ok (new_trait_obj (statics w))"
    using states_ok_init w(11,12) unfolding obj by (auto simp: states_ok_def)
  have calls: "\<not> list_ex (creates ''two'') (hist w)" "list_ex (creates ''one'') (hist w)"
    using w(4) by (simp_all add: start_calls_def Let_def)
  have none': "1 \<notin> ran (message_handler_id_to_transport_storage (statics w))" using table by simp
  from new_internal_ready [OF demo_env_ok g states none',
      of "demo_uri 0x22 0" "\<lambda>_. 1" None 0 "hist w" ?d ST_REGISTERED "[]" "''one''" None] calls(1)
  obtain v where v: "new_internal ?E 1 ?d (demo_uri 0x22 0) ''one'' None None (statics w, hist w) =
      (Ok v, statics v, hist v)" "transport_ok ?E pairs_ok v" "listeners ?E v = Map.empty"
    "hist v = hist w @ start_calls ref_vsomeip (hist w) ''two'' None 0 @ [UnregisterStateHandler ''two'']"
    "free_handlers v = free_message_handler_ids (statics w)" "queue v = []" "engine_alive v"
    "application_of v = ''two''" "rpc_registry (storage v) = rpc_correlation_new"
    by (auto simp: obj w(11,12) Min_state_handlers ref_up_rust_def demo_uri_def state_channel_capacity_def
        runtime_threads_def DEFAULT_NUM_THREADS_def)
  show ?thesis
    by (rule that [OF w(1) v(1) table w(6) v(6) w(7) v(7) w(8) v(8) w(9) v(9) w(3) v(3,2)])
      (use v(4,5) calls \<open>free_message_handler_ids (statics w) = _\<close> in \<open>simp_all add: start_calls_def Let_def\<close>)
qed


text \<open>Registering a listener with an idle transport of a process.\<close>

lemma system_registers:
  fixes E :: "('bm, 'v) env"
  assumes S: "system_reachable E S" "s_transports S me = Some s" and env: "env_ok E bm_ok"
    and idle: "idle s" "prompt E (shared s)"
    and app: "vs_application_exists (e_vs E) (s_hist S) (application_of (shared s))"
    and t: "determine_type (e_up E) src snk = Ok t" "t \<noteq> AllPointToPoint"
    and new: "(src, snk, l) \<notin> ran (listeners E (shared s))"
    and room: "free_message_handler_ids (s_statics S) \<noteq> {}"
  obtains i u calls where "system_reachable E (left S me u)" "i \<in> free_message_handler_ids (s_statics S)"
    "listeners E (shared u) = (listeners E (shared s))(i \<mapsto> (src, snk, l))"
    "free_message_handler_ids (statics (shared u)) = free_message_handler_ids (s_statics S) - {i}"
    "rpc_registry (storage (shared u)) = rpc_registry (storage (shared s))"
    "application_of (shared u) = application_of (shared s)" "hist (shared u) = s_hist S @ calls"
proof -
  let ?w = "enter (process_of S) (shared s)"
  have ok: "transport_ok E bm_ok ?w"
    using system_reachable_ok [OF S(1) env] S(2) by (auto simp: system_ok_def process_ok_def)
  have w: "listeners E ?w = listeners E (shared s)" "free_handlers ?w = free_message_handler_ids (s_statics S)"
    "application_of ?w = application_of (shared s)" "hist ?w = s_hist S" "storage ?w = storage (shared s)"
    "prompt E ?w = prompt E (shared s)" "fixed_of ?w = fixed_of (shared s)"
    by (simp_all add: enter_def listeners_def free_handlers_def application_of_def prompt_def fixed_of_def)
  obtain i v calls where v: "register_listener E src snk l ?w = (Ok (), v)" "i \<in> free_handlers ?w"
    "free_handlers v = free_handlers ?w - {i}" "listeners E v = (listeners E ?w)(i \<mapsto> (src, snk, l))"
    "hist v = hist ?w @ calls" "application_of v = application_of ?w"
    "rpc_registry (storage v) = rpc_registry (storage ?w)"
    using register_listener_runs [OF env ok _ _ t] idle(2) app new room unfolding w by blast
  have "run E (register_prog E (fixed_of (shared s)) src snk l) (shared (entered S s)) = (Ok (), v)"
    using v(1) programs_are_the_methods [of E ?w src snk l] by (simp add: w(7))
  from call_system_steps [OF S(2) idle(1) method_prog.intros(1) this]
  obtain u where u: "(system_step E)\<^sup>*\<^sup>* S (left S me u)" "shared u = v" by blast
  have "system_reachable E (left S me u)" using S(1) u(1) by (rule rtranclp_trans)
  with that v u(2) w show thesis by (simp add: free_handlers_def)
qed

lemma demo_two:
  obtains S s s' i j where "system_reachable (demo_env (\<lambda>_. 1)) S"
    "s_transports S 0 = Some s" "s_transports S 1 = Some s'"
    "listeners (demo_env (\<lambda>_. 1)) (shared s) i =
       Some (demo_uri 0x22 0x33, Some (demo_uri 0x11 0), Listener 3)"
    "listeners (demo_env (\<lambda>_. 1)) (shared s') j =
       Some (u_any ref_up_rust, Some (demo_uri 0x22 0x33), Listener 4)"
    "application_of (shared s) = ''one''" "application_of (shared s') = ''two''"
    "rpc_registry (storage (shared s)) = rpc_correlation_new"
    "rpc_registry (storage (shared s')) = rpc_correlation_new"
    "list_ex (creates ''one'') (s_hist S)" "list_ex (creates ''two'') (s_hist S)"
proof -
  let ?E = "demo_env (\<lambda>_. 1)"
  obtain w v where w: "new_internal ?E 0 \<lparr>app_name = ''one'', app_id = 1\<rparr> (demo_uri 0x11 0) ''two'' None None
       (statics_init, []) = (Ok w, statics w, hist w)"
    and v: "new_internal ?E 1 \<lparr>app_name = ''two'', app_id = 2\<rparr> (demo_uri 0x22 0) ''one'' None None
       (statics w, hist w) = (Ok v, statics v, hist v)"
    and table: "message_handler_id_to_transport_storage (statics w) = Map.empty"
    and idle: "queue w = []" "queue v = []" "engine_alive w" "engine_alive v"
    and apps: "application_of w = ''one''" "application_of v = ''two''"
    and rpc: "rpc_registry (storage w) = rpc_correlation_new" "rpc_registry (storage v) = rpc_correlation_new"
    and none: "listeners ?E w = Map.empty" "listeners ?E v = Map.empty"
    and ok: "transport_ok ?E pairs_ok v" "free_handlers v = {..<num_message_handlers}"
    and exist: "list_ex (creates ''one'') (hist v)" "list_ex (creates ''two'') (hist v)"
    by (rule demo_two_made)
  let ?S1 = "left system_init 0 (no_tasks w)"
  let ?S2 = "left ?S1 1 (no_tasks v)"
  have "system_step ?E system_init ?S1"
    by (rule system_step.makes [where me = 0 and path = None and rc = None and g = "statics w" and h = "hist w"])
      (use w in \<open>simp_all add: system_init_def statics_init_def\<close>)
  moreover have "system_step ?E ?S1 ?S2"
    by (rule system_step.makes [where me = 1 and path = None and rc = None and g = "statics v" and h = "hist v"])
      (use v table in \<open>simp_all add: left_def system_init_def no_tasks_def\<close>)
  ultimately have S2: "system_reachable ?E ?S2" by (meson converse_rtranclp_into_rtranclp r_into_rtranclp)
  have types: "determine_type (e_up ?E) (u_any ref_up_rust) (Some (demo_uri 0x22 0x33)) = Ok Request"
    "determine_type (e_up ?E) (demo_uri 0x22 0x33) (Some (demo_uri 0x11 0)) = Ok Response"
    by (simp_all add: determine_type_Some streamer_filters_def wildcard_below_authority_def
        ref_up_rust_def demo_uri_def)
  have idles: "idle (no_tasks w)" "idle (no_tasks v)" using idle by (simp_all add: idle_def no_tasks_def)
  have prompts: "prompt ?E w" "prompt ?E v" using idle by (simp_all add: prompt_def)
  obtain j y calls where y: "system_reachable ?E (left ?S2 1 y)"
    "listeners ?E (shared y) = [j \<mapsto> (u_any ref_up_rust, Some (demo_uri 0x22 0x33), Listener 4)]"
    "free_message_handler_ids (statics (shared y)) = {..<num_message_handlers} - {j}"
    "rpc_registry (storage (shared y)) = rpc_correlation_new" "application_of (shared y) = ''two''"
    "hist (shared y) = hist v @ calls"
    by (rule system_registers [OF S2 _ demo_env_ok idles(2) _ _ types(1), of 1 "Listener 4"])
      (use prompts exist none ok(2) rpc apps in \<open>simp_all add: left_def free_handlers_def\<close>)
  let ?S3 = "left ?S2 1 y"
  have "{..<num_message_handlers} - {j} \<noteq> {}"
  proof
    assume "{..<num_message_handlers} - {j} = {}"
    then have "{..<num_message_handlers} \<subseteq> {j}" by simp
    then have "0 \<in> {j}" "1 \<in> {j}" by (rule subsetD, simp add: num_message_handlers_def)+
    then show False by simp
  qed
  then obtain i x calls' where x: "system_reachable ?E (left ?S3 0 x)"
    "listeners ?E (shared x) = [i \<mapsto> (demo_uri 0x22 0x33, Some (demo_uri 0x11 0), Listener 3)]"
    "rpc_registry (storage (shared x)) = rpc_correlation_new" "application_of (shared x) = ''one''"
    "hist (shared x) = hist (shared y) @ calls'"
    by - (rule system_registers [OF y(1) _ demo_env_ok idles(1) _ _ types(2), of 0 "Listener 3"],
      use prompts exist none rpc apps y(3,6) in \<open>simp_all add: left_def\<close>)
  show ?thesis
    by (rule that [OF x(1), of x y i j]) (use x y exist in \<open>simp_all add: left_def\<close>)
qed

subsection \<open>A remote call from one transport to another\<close>

text \<open>C1. A remote procedure call between any two transports of a process, in any state that
  concurrent calls can reach.  The engine of one sends a request, as the message \<open>m\<close>; vsomeip
  hands it, under the client and session the request went out with, to the handler function of
  the other, which calls the listener filed under it with a request of the same payload; that
  transport's engine sends the listener's reply; vsomeip hands it to the handler function of the
  first transport, which calls the listener filed there with the response to the very message
  that was sent, addressed to its sender, with the reply's payload and its translated status.
  Each engine makes one call of vsomeip, and both correlation tables are as before.  The two
  calls of handler functions run without interruption here.  Of up-rust,
  which validates what it builds, this needs that it accepts the addresses and the two messages
  of this very call: the method called at the serving transport, the caller under the authority
  configured there, the request from these two, the method under the authority configured at the
  calling transport, and the response to the original message from it.\<close>

theorem remote_call_through_listeners:
  fixes E :: "('bm, 'v) env"
  defines "U \<equiv> e_up E"
  assumes S: "system_reachable E S" and env: "env_ok E bm_ok"
    and up: "up_rust_spec U" and ids: "vsomeip_request_ids (e_vs E)"
    and request_type: "v_message_type (vs_create_request (e_vs E)) = MT_REQUEST"
    and client: "s_transports S a = Some s"
      "listeners E (shared s) i = Some (src1, snk1, client_listener)"
    and server: "s_transports S b = Some s'" "a \<noteq> b"
      "listeners E (shared s') j = Some (src2, snk2, server_listener)"
    and request: "msg_type (attributes_of U umsg) = Some UMESSAGE_TYPE_REQUEST"
      "msg_source (attributes_of U umsg) = Some src" "msg_id (attributes_of U umsg) = Some k"
      "payload umsg = Some body" "length body < 2 ^ 32"
    and sent: "engine_execute E (Send umsg t (application_of (shared s)))
      (enter (process_of S) (shared s)) = (Ok (), A)"
    and wire: "last (hist A) = SendMessage (application_of (shared s)) m"
      "create_request_id c z =
         next_request_id (e_vs E) (application_of (shared s)) (enter (process_of S) (shared s))"
    and alive: "vs_application_exists (e_vs E) (hist A) (application_of (shared s'))"
    and req: "u_try_from_parts U (get_local_authority (storage (shared s'))) (ucast (v_service m))
        (v_interface_version m) (v_method m) = Some called"
      "u_try_from_parts U (remote_authority (storage (shared s'))) (ue_id (storage_uri (storage (shared s'))))
        (ucast (ue_version_major (storage_uri (storage (shared s'))))) 0 = Some caller"
      "u_build_request U n called caller 1000 body = Some req"
      "msg_id (attributes_of U req) = Some x" "me_table (shared s') x = None"
    and reply: "msg_type (attributes_of U reply) = Some UMESSAGE_TYPE_RESPONSE"
      "msg_reqid (attributes_of U reply) = msg_id (attributes_of U req)"
      "msg_source (attributes_of U reply) = msg_sink (attributes_of U req)"
      "msg_commstatus (attributes_of U reply) = status"
      "payload reply = Some result" "length result < 2 ^ 32"
    and answer: "u_try_from_parts U (remote_authority (storage (shared s))) (ucast (v_service m))
        (v_interface_version m) (v_method m) = Some answering"
      "u_build_response U n' src k answering (arriving_status status) result = Some answer"
  shows "\<exists>B r B' A'. let p = leave (process_of S) a A; p' = leave p b B' in
    hist A = s_hist S @ [SendMessage (application_of (shared s)) m] \<and>
    call_shared_extern_fn E n j (m\<lparr>v_client := c, v_session := z\<rparr>) p =
      (Some (server_listener, req), leave p b B) \<and>
    payload req = Some body \<and>
    engine_execute E (Send reply t' (application_of (shared s'))) B = (Ok (), B') \<and>
    hist B' = hist B @ [SendMessage (application_of (shared s')) r] \<and>
    call_shared_extern_fn E n' i r p' = (Some (client_listener, answer), leave p' a A') \<and>
    msg_reqid (attributes_of U answer) = msg_id (attributes_of U umsg) \<and>
    msg_sink (attributes_of U answer) = msg_source (attributes_of U umsg) \<and>
    payload answer = Some result \<and>
    msg_commstatus (attributes_of U answer) = Some (Some (arriving_status status)) \<and>
    ue_table A' = ue_table (shared s) \<and> me_table B' = me_table (shared s')"
proof -
  have ok: "system_ok E bm_ok S" by (rule system_reachable_ok [OF S env])
  then have p: "process_ok E bm_ok (process_of S)" by (simp add: system_ok_def)
  have version: "ue_version_major (storage_uri (storage (shared s'))) < 256"
    using system_okD(3) [OF ok server(1)] by (simp add: address_ok_def addressed_def)
  have at: "p_transports (process_of S) a = Some (shared s)"
    "p_transports (process_of S) b = Some (shared s')" using client(1) server(1) by simp_all
  show ?thesis unfolding Let_def U_def
    using remote_call_lemma [OF p env up [unfolded U_def] ids request_type at(1) client(2) at(2) server(3,2)
        version request [unfolded U_def] sent wire alive req [unfolded U_def] reply [unfolded U_def]
        answer [unfolded U_def]] by simp
qed

theorem remote_call_through_listeners_witness:
  "\<exists>S a b s s' A m req B r B' answer A' i j. let p = leave (process_of S) a A; p' = leave p b B' in
    system_reachable (demo_env (\<lambda>_. 1)) S \<and> a \<noteq> b \<and>
    s_transports S a = Some s \<and> s_transports S b = Some s' \<and>
    engine_execute (demo_env (\<lambda>_. 1)) (Send demo_request Request ''one'')
      (enter (process_of S) (shared s)) = (Ok (), A) \<and>
    call_shared_extern_fn (demo_env (\<lambda>_. 1)) 7 j (m\<lparr>v_client := 0x345, v_session := 1\<rparr>) p =
      (Some (Listener 4, req), leave p b B) \<and>
    engine_execute (demo_env (\<lambda>_. 1))
      (Send ((demo_reply req)\<lparr>payload := Some [6]\<rparr>) Response ''two'') B = (Ok (), B') \<and>
    call_shared_extern_fn (demo_env (\<lambda>_. 1)) 8 i r p' = (Some (Listener 3, answer), leave p' a A') \<and>
    msg_reqid (attributes_of ref_up_rust answer) = Some (UUID 7) \<and> payload answer = Some [6] \<and>
    msg_commstatus (attributes_of ref_up_rust answer) = Some (Some NOT_FOUND)"
proof -
  let ?E = "demo_env (\<lambda>_. 1)" and ?reply = "\<lambda>m. (demo_reply m)\<lparr>payload := Some [6]\<rparr>"
  obtain S s s' i j where S: "system_reachable ?E S" "s_transports S 0 = Some s" "s_transports S 1 = Some s'"
    "listeners ?E (shared s) i = Some (demo_uri 0x22 0x33, Some (demo_uri 0x11 0), Listener 3)"
    "listeners ?E (shared s') j = Some (u_any ref_up_rust, Some (demo_uri 0x22 0x33), Listener 4)"
    and apps: "application_of (shared s) = ''one''" "application_of (shared s') = ''two''"
    and rpc: "rpc_registry (storage (shared s)) = rpc_correlation_new"
      "rpc_registry (storage (shared s')) = rpc_correlation_new"
    and exist: "list_ex (creates ''one'') (s_hist S)" "list_ex (creates ''two'') (s_hist S)"
    by (rule demo_two)
  let ?w = "enter (process_of S) (shared s)"
  have tables: "session_table ?w = Map.empty" "ue_table ?w = Map.empty" "me_table (shared s') = Map.empty"
    using rpc by (simp_all add: table_defs enter_def rpc_correlation_new_def)
  have exists: "vs_application_exists ref_vsomeip (hist ?w) ''one''" using exist by (simp add: enter_def)
  have next_id: "next_request_id ref_vsomeip app ?w = create_request_id 0x345 1" for app
    using tables(1) by (simp add: next_request_id_def current_session_def)
  have "fst (umsg_request_to_vsomeip_message ref_up_rust ref_vsomeip True demo_request ''one'' ?w) =
      Ok (request_message ref_vsomeip (demo_uri 0x22 0x33))"
    using request_accepted [of ref_up_rust demo_request "demo_uri 0x11 0" "demo_uri 0x22 0x33" "UUID 7"
      "0x345" ref_vsomeip ?w "''one''" True] tables
    by (auto simp: demo_request_def)
  then obtain A where sent: "send_internal ref_up_rust ref_vsomeip True demo_request ''one'' ?w = (Ok (), A)"
    by (cases "umsg_request_to_vsomeip_message ref_up_rust ref_vsomeip True demo_request ''one'' ?w")
      (simp add: send_internal_def demo_request_def)
  then have A: "engine_execute ?E (Send demo_request Request (application_of (shared s))) ?w = (Ok (), A)"
    using exists by (simp add: engine_execute_def execute_def get_application_def apps)
  obtain m where m: "hist A = s_hist S @ [SendMessage ''one'' m]"
    by (rule request_sent_OkE [OF sent]) (simp_all add: demo_request_def enter_def)
  have alive: "vs_application_exists (e_vs ?E) (hist A) (application_of (shared s'))"
    using exist by (simp add: apps m)
  have wire: "last (hist A) = SendMessage (application_of (shared s)) m"
    "create_request_id 0x345 1 = next_request_id (e_vs ?E) (application_of (shared s)) ?w"
    by (simp_all add: next_id m apps)
  have request: "msg_type (attributes_of (e_up ?E) demo_request) = Some UMESSAGE_TYPE_REQUEST"
    "msg_source (attributes_of (e_up ?E) demo_request) = Some (demo_uri 0x11 0)"
    "msg_id (attributes_of (e_up ?E) demo_request) = Some (UUID 7)"
    "payload demo_request = Some [1, 2]" "length [1, 2 :: u8] < 2 ^ 32" by (simp_all add: demo_request_def)
  define called where "called auth = \<lparr>authority_name = auth, ue_id = ucast (v_service m),
    ue_version_major = ucast (v_interface_version m), resource_id = ucast (v_method m)\<rparr>" for auth
  let ?me = "storage_uri (storage (shared s'))"
  define caller where "caller = \<lparr>authority_name = remote_authority (storage (shared s')), ue_id = ue_id ?me,
    ue_version_major = ucast (ucast (ue_version_major ?me) :: u8), resource_id = ucast (0 :: u16)\<rparr>"
  define req where "req = \<lparr>attributes = Some \<lparr>msg_type = Some UMESSAGE_TYPE_REQUEST, msg_id = Some (UUID 7),
    msg_source = Some caller, msg_sink = Some (called (get_local_authority (storage (shared s')))),
    msg_ttl = Some 1000, msg_reqid = None, msg_commstatus = None\<rparr>, payload = Some [1, 2]\<rparr>"
  have same: "attributes_of ref_up_rust (x\<lparr>payload := b\<rparr>) = attributes_of ref_up_rust x" for x b
    by (simp add: attributes_of_def)
  have type: "msg_type (attributes_of ref_up_rust (demo_reply x)) = Some UMESSAGE_TYPE_RESPONSE" for x
    by (simp add: demo_reply_def Let_def attributes_of_def)
  have parts: "u_try_from_parts (e_up ?E) auth (ucast (v_service m)) (v_interface_version m) (v_method m) =
      Some (called auth)" for auth
    by (simp add: called_def ref_up_rust_simps)
  have served: "u_try_from_parts (e_up ?E) (remote_authority (storage (shared s'))) (ue_id ?me)
      (ucast (ue_version_major ?me)) 0 = Some caller"
    "u_build_request (e_up ?E) 7 (called (get_local_authority (storage (shared s')))) caller 1000 [1, 2] = Some req"
    "msg_id (attributes_of (e_up ?E) req) = Some (UUID 7)" "me_table (shared s') (UUID 7) = None"
    by (simp_all add: caller_def req_def ref_up_rust_simps tables attributes_of_def)
  have replied: "msg_type (attributes_of (e_up ?E) (?reply req)) = Some UMESSAGE_TYPE_RESPONSE"
    "msg_reqid (attributes_of (e_up ?E) (?reply req)) = msg_id (attributes_of (e_up ?E) req)"
    "msg_source (attributes_of (e_up ?E) (?reply req)) = msg_sink (attributes_of (e_up ?E) req)"
    "msg_commstatus (attributes_of (e_up ?E) (?reply req)) = Some (Some UNAVAILABLE)"
    "payload (?reply req) = Some [6]" "length [6 :: u8] < 2 ^ 32"
    by (simp_all add: same type)
  obtain answer where answer: "u_build_response (e_up ?E) 8 (demo_uri 0x11 0) (UUID 7)
      (called (remote_authority (storage (shared s)))) (arriving_status (Some (Some UNAVAILABLE))) [6] = Some answer"
    by (simp add: ref_up_rust_def)
  have facts: "up_rust_spec (e_up ?E)" "vsomeip_request_ids (e_vs ?E)"
    "v_message_type (vs_create_request (e_vs ?E)) = MT_REQUEST"
    "arriving_status (Some (Some UNAVAILABLE)) = NOT_FOUND"
    using ref_up.up_rust_spec_axioms ref_vs.vsomeip_request_ids_axioms
    by (simp_all add: ref_vsomeip_def blank_message_def arriving_status_def transported_status_def)
  from remote_call_through_listeners [OF S(1) demo_env_ok facts(1-3) S(2,4,3) zero_neq_one S(5) request A wire
      alive parts served replied parts answer, of Response]
  obtain B r B' A' where result: "let p = leave (process_of S) 0 A; p' = leave p 1 B' in
    call_shared_extern_fn ?E 7 j (m\<lparr>v_client := 0x345, v_session := 1\<rparr>) p =
      (Some (Listener 4, req), leave p 1 B) \<and>
    engine_execute ?E (Send (?reply req) Response ''two'') B = (Ok (), B') \<and>
    call_shared_extern_fn ?E 8 i r p' = (Some (Listener 3, answer), leave p' 0 A') \<and>
    msg_reqid (attributes_of ref_up_rust answer) = Some (UUID 7) \<and> payload answer = Some [6] \<and>
    msg_commstatus (attributes_of ref_up_rust answer) = Some (Some NOT_FOUND)"
    unfolding Let_def using request(3) facts(4) apps by auto
  have "let p = leave (process_of S) 0 A; p' = leave p 1 B' in
    system_reachable ?E S \<and> (0::nat) \<noteq> 1 \<and> s_transports S 0 = Some s \<and> s_transports S 1 = Some s' \<and>
    engine_execute ?E (Send demo_request Request ''one'') (enter (process_of S) (shared s)) = (Ok (), A) \<and>
    call_shared_extern_fn ?E 7 j (m\<lparr>v_client := 0x345, v_session := 1\<rparr>) p =
      (Some (Listener 4, req), leave p 1 B) \<and>
    engine_execute ?E (Send (?reply req) Response ''two'') B = (Ok (), B') \<and>
    call_shared_extern_fn ?E 8 i r p' = (Some (Listener 3, answer), leave p' 0 A') \<and>
    msg_reqid (attributes_of ref_up_rust answer) = Some (UUID 7) \<and> payload answer = Some [6] \<and>
    msg_commstatus (attributes_of ref_up_rust answer) = Some (Some NOT_FOUND)"
    using result S(1-3) A [unfolded apps(1)] unfolding Let_def by (intro conjI zero_neq_one) blast+
  then show ?thesis by - (rule exI)+
qed

end
