(* ===== verification/Dispatch_Steps.thy ===== *)
theory Dispatch_Steps
  imports Concurrent_Process
begin

text \<open>
  The handler functions as they run: \<open>call_shared_extern_fn\<close> of
  \<^verbatim>\<open>vsomeip-proc-macro/src/lib.rs\<close> looks up the transport in the process-wide table,
  converts the message, and looks up the listener, each under a lock of its own.  Every call of
  vsomeip is a thread that makes these three steps; between them anything can happen: actions of
  the methods, commands the engines execute, other calls of vsomeip, transports made and dropped.

  The first step upgrades the table's \<open>Weak\<close> reference to an \<open>Arc\<close>: from then on the
  thread holds the storage.  When its transport is dropped the storage stays, as an orphan, until
  the last thread that holds it returns; no new transport is allocated at its address meanwhile.
\<close>

subsection \<open>The state\<close>

text \<open>
  A call as it enters, with the number the up-rust message builder draws from; with the storage;
  with the message; and what it handed to \<open>on_receive\<close>, if anything.
\<close>

datatype callback =
    Enters nat nat vmessage
  | Holds_Storage storage_ref nat nat vmessage
  | Has_Message storage_ref nat umessage
  | Handed "(listener \<times> umessage) option"

fun held_by :: "callback \<Rightarrow> storage_ref option" where
  "held_by (Holds_Storage me _ _ _) = Some me"
| "held_by (Has_Message me _ _) = Some me"
| "held_by _ = None"

record 'bm dispatching =
  d_system :: "'bm system"
  d_orphans :: "storage_ref \<rightharpoonup> 'bm world"
  d_callbacks :: "callback list"

definition dispatching_init :: "'bm dispatching" where
  "dispatching_init = \<lparr>d_system = system_init, d_orphans = Map.empty, d_callbacks = []\<rparr>"

text \<open>A storage is there while its transport lives or a thread holds it.\<close>

definition storage_at :: "'bm dispatching \<Rightarrow> storage_ref \<Rightarrow> 'bm world option" where
  "storage_at D me = (case s_transports (d_system D) me of
     Some s \<Rightarrow> Some (shared s) | None \<Rightarrow> d_orphans D me)"

definition put_storage :: "storage_ref \<Rightarrow> 'bm world \<Rightarrow> 'bm dispatching \<Rightarrow> 'bm dispatching" where
  "put_storage me w D = (case s_transports (d_system D) me of
     Some s \<Rightarrow> D\<lparr>d_system := left (d_system D) me (s\<lparr>shared := w\<rparr>)\<rparr>
   | None \<Rightarrow> D\<lparr>d_orphans := (d_orphans D)(me \<mapsto> w)\<rparr>)"

definition release_orphans :: "'bm dispatching \<Rightarrow> 'bm dispatching" where
  "release_orphans D = D\<lparr>d_orphans := (\<lambda>me.
     if list_ex (\<lambda>c. held_by c = Some me) (d_callbacks D) then d_orphans D me else None)\<rparr>"

subsection \<open>The three steps\<close>

definition upgrade_transport :: "nat \<Rightarrow> 'bm dispatching \<Rightarrow> storage_ref option" where
  "upgrade_transport message_handler_id D =
     (case message_handler_id_to_transport_storage (s_statics (d_system D)) message_handler_id of
        None \<Rightarrow> None
      | Some transport \<Rightarrow> if storage_at D transport = None then None else Some transport)"

definition convert_held ::
  "('bm, 'v) env \<Rightarrow> nat \<Rightarrow> storage_ref \<Rightarrow> vmessage \<Rightarrow> 'bm dispatching \<Rightarrow>
     umessage result option \<times> 'bm dispatching" where
  "convert_held E n me vsomeip_msg D =
     (case storage_at D me of
        None \<Rightarrow> (None, D)
      | Some w \<Rightarrow>
          (case convert_vsomeip_msg_to_umsg (e_up E) (e_vs E) n (get_local_authority (storage w))
                  (storage_uri (storage w)) (remote_authority (storage w)) vsomeip_msg
                  (enter (process_of (d_system D)) w) of
             (r, v) \<Rightarrow> (Some r, put_storage me v D)))"

definition look_up_listener ::
  "('bm, 'v) env \<Rightarrow> storage_ref \<Rightarrow> nat \<Rightarrow> 'bm dispatching \<Rightarrow> listener option" where
  "look_up_listener E me message_handler_id D =
     (case storage_at D me of
        None \<Rightarrow> None
      | Some w \<Rightarrow> storage_get_listener_for_message_handler_id (e_bm E) (storage w) message_handler_id)"

text \<open>
  One step of a thread.  The conversion runs in a task of its own: when it fails or panics the
  task's end of the channel is dropped, and the receiving end returns without a message.
\<close>

fun callback_step ::
  "('bm, 'v) env \<Rightarrow> callback \<Rightarrow> 'bm dispatching \<Rightarrow> callback \<times> 'bm dispatching" where
  "callback_step E (Enters n message_handler_id vsomeip_msg) D =
     (case upgrade_transport message_handler_id D of
        None \<Rightarrow> (Handed None, D)
      | Some transport_storage \<Rightarrow>
          (Holds_Storage transport_storage n message_handler_id vsomeip_msg, D))"
| "callback_step E (Holds_Storage transport_storage n message_handler_id vsomeip_msg) D =
     (case convert_held E n transport_storage vsomeip_msg D of
        (Some (Ok umsg), D) \<Rightarrow> (Has_Message transport_storage message_handler_id umsg, D)
      | (_, D) \<Rightarrow> (Handed None, D))"
| "callback_step E (Has_Message transport_storage message_handler_id umsg) D =
     (case look_up_listener E transport_storage message_handler_id D of
        Some listener \<Rightarrow> (Handed (Some (listener, umsg)), D)
      | None \<Rightarrow> (Handed None, D))"
| "callback_step E (Handed x) D = (Handed x, D)"

definition callback_acts :: "('bm, 'v) env \<Rightarrow> nat \<Rightarrow> 'bm dispatching \<Rightarrow> 'bm dispatching" where
  "callback_acts E k D =
     (case callback_step E (d_callbacks D ! k) D of
        (c, D) \<Rightarrow> release_orphans (D\<lparr>d_callbacks := (d_callbacks D)[k := c]\<rparr>))"

inductive dispatching_step :: "('bm, 'v) env \<Rightarrow> 'bm dispatching \<Rightarrow> 'bm dispatching \<Rightarrow> bool" for E D where
  called: "dispatching_step E D (D\<lparr>d_callbacks := d_callbacks D @ [Enters n i m]\<rparr>)"
| thread: "k < length (d_callbacks D) \<Longrightarrow> dispatching_step E D (callback_acts E k D)"
| others: "system_step E (d_system D) S \<Longrightarrow>
    \<forall>me. s_transports (d_system D) me \<noteq> None \<longrightarrow> s_transports S me \<noteq> None \<Longrightarrow>
    \<forall>me. s_transports S me \<noteq> None \<longrightarrow> d_orphans D me = None \<Longrightarrow>
    dispatching_step E D (D\<lparr>d_system := S\<rparr>)"
| dropped: "s_transports (d_system D) me = Some s \<Longrightarrow>
    \<forall>k t. tasks s k = Some t \<longrightarrow> (\<exists>r. t = Running (Done r)) \<Longrightarrow>
    drop_transport E (shared (entered (d_system D) s)) = (r, v) \<Longrightarrow>
    dispatching_step E D (release_orphans (D\<lparr>
      d_system := \<lparr>s_statics = statics v, s_hist = hist v,
        s_transports = (s_transports (d_system D))(me := None)\<rparr>,
      d_orphans := (d_orphans D)(me \<mapsto> v)\<rparr>))"

abbreviation dispatching_reachable :: "('bm, 'v) env \<Rightarrow> 'bm dispatching \<Rightarrow> bool" where
  "dispatching_reachable E \<equiv> (dispatching_step E)\<^sup>*\<^sup>* dispatching_init"

subsection \<open>The invariant\<close>

definition dispatching_ok :: "('bm, 'v) env \<Rightarrow> 'bm dispatching \<Rightarrow> bool" where
  "dispatching_ok E D \<longleftrightarrow> system_reachable E (d_system D) \<and>
     (\<forall>me w. d_orphans D me = Some w \<longrightarrow>
        s_transports (d_system D) me = None \<and> address_ok E (fst (addressed w))) \<and>
     (\<forall>c \<in> set (d_callbacks D). \<forall>me. held_by c = Some me \<longrightarrow> storage_at D me \<noteq> None)"

lemma dispatching_okD:
  assumes "dispatching_ok E D"
  shows "system_reachable E (d_system D)"
    "\<And>me w. d_orphans D me = Some w \<Longrightarrow> s_transports (d_system D) me = None"
    "\<And>me w. d_orphans D me = Some w \<Longrightarrow> address_ok E (fst (addressed w))"
    "\<And>c me. c \<in> set (d_callbacks D) \<Longrightarrow> held_by c = Some me \<Longrightarrow> storage_at D me \<noteq> None"
  using assms by (auto simp: dispatching_ok_def)

lemma release_orphans_simps [simp]:
  "d_system (release_orphans D) = d_system D" "d_callbacks (release_orphans D) = d_callbacks D"
  "d_orphans (release_orphans D) me =
     (if list_ex (\<lambda>c. held_by c = Some me) (d_callbacks D) then d_orphans D me else None)"
  by (simp_all add: release_orphans_def)

lemma put_storage_simps [simp]:
  "d_callbacks (put_storage me w D) = d_callbacks D"
  "storage_at D me \<noteq> None \<Longrightarrow> storage_at (put_storage me w D) other =
     (if other = me then Some w else storage_at D other)"
  by (auto simp: put_storage_def storage_at_def left_def split: option.split)

text \<open>The conversion is the step \<open>arrives\<close> of a living transport, or changes an orphan only.\<close>

lemma convert_held_cases:
  assumes "convert_held E n me m D = (x, D')" "storage_at D me \<noteq> None"
  obtains w r v where "storage_at D me = Some w" "x = Some r" "D' = put_storage me v D"
    "convert_vsomeip_msg_to_umsg (e_up E) (e_vs E) n (get_local_authority (storage w))
      (storage_uri (storage w)) (remote_authority (storage w)) m (enter (process_of (d_system D)) w) = (r, v)"
    "addressed v = addressed w" "listeners E v = listeners E w"
proof -
  obtain w where w: "storage_at D me = Some w" using assms(2) by blast
  obtain r v where conv: "convert_vsomeip_msg_to_umsg (e_up E) (e_vs E) n (get_local_authority (storage w))
      (storage_uri (storage w)) (remote_authority (storage w)) m (enter (process_of (d_system D)) w) = (r, v)"
    by fastforce
  have side: "caller_side v = caller_side (enter (process_of (d_system D)) w)"
    using convert_caller_side conv by (metis snd_conv)
  have "addressed v = addressed w" using caller_side_addressed [OF side] by simp
  moreover have "listeners E v = listeners E w"
    using caller_side_handlers(2) [OF side, of E] by (simp add: listeners_def)
  ultimately show thesis using that [OF w _ _ conv] assms(1) w conv by (simp add: convert_held_def)
qed

lemma put_converted_reachable:
  assumes reach: "system_reachable E (d_system D)" and w: "storage_at D me = Some w"
    and conv: "convert_vsomeip_msg_to_umsg (e_up E) (e_vs E) n auth uri remote m
      (enter (process_of (d_system D)) w) = (r, v)"
  shows "system_reachable E (d_system (put_storage me v D))"
proof (cases "s_transports (d_system D) me")
  case (Some s)
  then have "shared s = w" using w by (simp add: storage_at_def)
  with conv have "task_step E (entered (d_system D) s) ((entered (d_system D) s)\<lparr>shared := v\<rparr>)"
    using task_step.arrives [of E n auth uri remote m "entered (d_system D) s" r v] by simp
  from system_step.acts [OF Some this] have
    "system_step E (d_system D) (left (d_system D) me (s\<lparr>shared := v\<rparr>))" by (simp add: entered_def)
  with reach Some show ?thesis
    by (simp add: put_storage_def rtranclp.rtrancl_into_rtrancl)
qed (use reach in \<open>simp add: put_storage_def\<close>)

lemma storage_at_address_ok:
  assumes ok: "dispatching_ok E D" and env: "env_ok E bm_ok" and w: "storage_at D me = Some w"
  shows "address_ok E (fst (addressed w))"
proof (cases "s_transports (d_system D) me")
  case None
  with w dispatching_okD(3) [OF ok, of me w] show ?thesis by (simp add: storage_at_def)
next
  case (Some s)
  with w system_okD(3) [OF system_reachable_ok [OF dispatching_okD(1) [OF ok] env] Some]
  show ?thesis by (simp add: storage_at_def)
qed

lemma callback_step_cases:
  assumes step: "callback_step E c D = (c', D')"
    and held: "\<forall>me. held_by c = Some me \<longrightarrow> storage_at D me \<noteq> None"
  obtains "D' = D" "\<forall>me. held_by c' = Some me \<longrightarrow> storage_at D me \<noteq> None"
  | me n i m w r v where "c = Holds_Storage me n i m" "storage_at D me = Some w" "D' = put_storage me v D"
      "convert_vsomeip_msg_to_umsg (e_up E) (e_vs E) n (get_local_authority (storage w))
        (storage_uri (storage w)) (remote_authority (storage w)) m (enter (process_of (d_system D)) w) = (r, v)"
      "addressed v = addressed w" "listeners E v = listeners E w"
      "c' = (case r of Ok umsg \<Rightarrow> Has_Message me i umsg | _ \<Rightarrow> Handed None)"
proof (cases c)
  case (Holds_Storage me n i m)
  obtain x D1 where conv: "convert_held E n me m D = (x, D1)" by fastforce
  have "storage_at D me \<noteq> None" using held Holds_Storage by simp
  from conv this show thesis
  proof (cases rule: convert_held_cases)
    case (1 w r v)
    have "D' = put_storage me v D" "c' = (case r of Ok umsg \<Rightarrow> Has_Message me i umsg | _ \<Rightarrow> Handed None)"
      using step Holds_Storage conv 1(2,3) by (cases r; simp)+
    with that(2) Holds_Storage 1 show thesis by blast
  qed
next
  case (Enters n i m)
  with step that(1) show thesis by (auto simp: upgrade_transport_def split: option.splits if_splits)
next
  case (Has_Message me i umsg)
  with step that(1) show thesis by (auto split: option.splits)
next
  case (Handed x)
  with step that(1) show thesis by auto
qed

lemma storage_at_release:
  "c \<in> set (d_callbacks D) \<Longrightarrow> held_by c = Some me \<Longrightarrow> storage_at (release_orphans D) me = storage_at D me"
  by (auto simp: storage_at_def list_ex_iff split: option.split)

lemma storage_at_callbacks [simp]: "storage_at (D\<lparr>d_callbacks := cs\<rparr>) = storage_at D"
  by (rule ext) (simp add: storage_at_def split: option.split)

lemma dispatching_ok_release:
  assumes "dispatching_ok E D" shows "dispatching_ok E (release_orphans D)"
  using assms storage_at_release [of _ D] by (fastforce simp: dispatching_ok_def split: if_splits)

lemma dispatching_ok_callbacks:
  assumes ok: "dispatching_ok E D"
    and held: "\<And>c me. c \<in> set cs \<Longrightarrow> held_by c = Some me \<Longrightarrow> storage_at D me \<noteq> None"
  shows "dispatching_ok E (D\<lparr>d_callbacks := cs\<rparr>)"
  using assms by (simp add: dispatching_ok_def)

lemma put_storage_ok:
  assumes ok: "dispatching_ok E D" and env: "env_ok E bm_ok" and w: "storage_at D me = Some w"
    and reach: "system_reachable E (d_system (put_storage me v D))" and v: "addressed v = addressed w"
  shows "dispatching_ok E (put_storage me v D)"
proof -
  have at: "storage_at (put_storage me v D) other \<noteq> None" if "storage_at D other \<noteq> None" for other
    using that w by simp
  have "s_transports (d_system (put_storage me v D)) other = None \<and> address_ok E (fst (addressed u))"
    if "d_orphans (put_storage me v D) other = Some u" for other u
    using that w v storage_at_address_ok [OF ok env w] dispatching_okD(2,3) [OF ok]
    by (auto simp: put_storage_def split: option.splits if_splits)
  with at reach dispatching_okD(4) [OF ok] show ?thesis by (simp add: dispatching_ok_def)
qed

lemma callback_acts_ok:
  assumes ok: "dispatching_ok E D" and env: "env_ok E bm_ok" and k: "k < length (d_callbacks D)"
  shows "dispatching_ok E (callback_acts E k D)"
proof -
  let ?c = "d_callbacks D ! k"
  obtain c' D' where step: "callback_step E ?c D = (c', D')" by fastforce
  have held: "\<forall>me. held_by ?c = Some me \<longrightarrow> storage_at D me \<noteq> None"
    using dispatching_okD(4) [OF ok, of ?c] k by simp
  have "dispatching_ok E (D'\<lparr>d_callbacks := (d_callbacks D')[k := c']\<rparr>)"
  proof (cases rule: callback_step_cases [OF step held])
    case 1
    have "storage_at D me \<noteq> None" if "c \<in> set ((d_callbacks D)[k := c'])" "held_by c = Some me" for c me
      using that set_update_subset_insert [of "d_callbacks D" k c'] 1(2) dispatching_okD(4) [OF ok] by blast
    with 1 dispatching_ok_callbacks [OF ok] show ?thesis by simp
  next
    case (2 me n i m w r v)
    have D': "dispatching_ok E D'" unfolding 2(3)
      by (rule put_storage_ok [OF ok env 2(2) _ 2(5)])
        (rule put_converted_reachable [OF dispatching_okD(1) [OF ok] 2(2,4)])
    have "storage_at D' other \<noteq> None" if "c \<in> set ((d_callbacks D')[k := c'])" "held_by c = Some other" for c other
    proof -
      have "c = c' \<or> c \<in> set (d_callbacks D')"
        using that(1) set_update_subset_insert [of "d_callbacks D'" k c'] by blast
      moreover have "storage_at D' me \<noteq> None" using 2(2,3) by simp
      ultimately show ?thesis
        using that(2) 2(7) dispatching_okD(4) [OF D'] by (cases r) auto
    qed
    with D' show ?thesis by (rule dispatching_ok_callbacks)
  qed
  with step show ?thesis by (simp add: callback_acts_def dispatching_ok_release)
qed

lemma dropped_ok:
  assumes ok: "dispatching_ok E D" and env: "env_ok E bm_ok"
    and s: "s_transports (d_system D) me = Some s"
      "\<forall>k t. tasks s k = Some t \<longrightarrow> (\<exists>r. t = Running (Done r))"
    and drop: "drop_transport E (shared (entered (d_system D) s)) = (r, v)"
  shows "dispatching_ok E (D\<lparr>d_system := \<lparr>s_statics = statics v, s_hist = hist v,
     s_transports = (s_transports (d_system D))(me := None)\<rparr>, d_orphans := (d_orphans D)(me \<mapsto> v)\<rparr>)"
proof -
  have "moves E (shared (entered (d_system D) s)) v"
    using drop_transport_moves [of E "shared (entered (d_system D) s)"] drop by simp
  then have "addressed v = addressed (shared s)" using moves_addressed by fastforce
  with system_okD(3) [OF system_reachable_ok [OF dispatching_okD(1) [OF ok] env] s(1)]
  have "address_ok E (fst (addressed v))" by simp
  moreover have "system_reachable E \<lparr>s_statics = statics v, s_hist = hist v,
     s_transports = (s_transports (d_system D))(me := None)\<rparr>"
    using dispatching_okD(1) [OF ok] system_step.drops [OF s drop] by (rule rtranclp.rtrancl_into_rtrancl)
  moreover have "storage_at (D\<lparr>d_system := \<lparr>s_statics = statics v, s_hist = hist v,
     s_transports = (s_transports (d_system D))(me := None)\<rparr>, d_orphans := (d_orphans D)(me \<mapsto> v)\<rparr>) other \<noteq> None"
    if "storage_at D other \<noteq> None" for other
    using that by (cases "other = me") (auto simp: storage_at_def split: option.splits)
  ultimately show ?thesis
    using dispatching_okD(2-4) [OF ok] by (simp add: dispatching_ok_def)
qed

lemma dispatching_step_ok:
  assumes "dispatching_step E D D'" and ok: "dispatching_ok E D" and env: "env_ok E bm_ok"
  shows "dispatching_ok E D'"
  using assms(1)
proof cases
  case (called n i m)
  have "storage_at D me \<noteq> None" if "c \<in> set (d_callbacks D @ [Enters n i m])" "held_by c = Some me" for c me
    using that dispatching_okD(4) [OF ok] by auto
  then show ?thesis unfolding called by (rule dispatching_ok_callbacks [OF ok])
next
  case (thread k)
  with callback_acts_ok [OF ok env] show ?thesis by simp
next
  case (others S)
  have "system_reachable E S" using dispatching_okD(1) [OF ok] others(2) by (rule rtranclp.rtrancl_into_rtrancl)
  moreover have "storage_at (D\<lparr>d_system := S\<rparr>) me \<noteq> None" if "storage_at D me \<noteq> None" for me
    using that others(3) by (cases "s_transports S me") (auto simp: storage_at_def split: option.splits)
  moreover have "s_transports S me = None" if "d_orphans D me = Some w" for me w
    using others(4) that by (metis option.distinct(1))
  ultimately show ?thesis
    using others(1) dispatching_okD(3,4) [OF ok] by (simp add: dispatching_ok_def)
next
  case (dropped me s r v)
  with dispatching_ok_release [OF dropped_ok [OF ok env dropped(2-4)]] show ?thesis by simp
qed

lemma dispatching_reachable_ok:
  assumes "dispatching_reachable E D" "env_ok E bm_ok" shows "dispatching_ok E D"
  using assms(1)
proof (induction rule: rtranclp_induct)
  case base
  show ?case by (simp add: dispatching_ok_def dispatching_init_def)
next
  case (step D D')
  with dispatching_step_ok [OF step.hyps(2) step.IH assms(2)] show ?case by simp
qed

subsection \<open>What one step does\<close>

lemma callback_step_callbacks [simp]: "d_callbacks (snd (callback_step E c D)) = d_callbacks D"
  by (cases c) (auto simp: convert_held_def split: option.split prod.split outcome.split)

lemma callback_acts_simps [simp]:
  "d_callbacks (callback_acts E k D) = (d_callbacks D)[k := fst (callback_step E (d_callbacks D ! k) D)]"
  "d_system (callback_acts E k D) = d_system (snd (callback_step E (d_callbacks D ! k) D))"
  using callback_step_callbacks [of E "d_callbacks D ! k" D]
  by (simp_all add: callback_acts_def case_prod_unfold)

lemma storage_at_acts:
  assumes "callback_step E (d_callbacks D ! k) D = (c, D')" "k < length (d_callbacks D)" "held_by c = Some me"
  shows "storage_at (callback_acts E k D) me = storage_at D' me"
proof -
  have len: "d_callbacks D' = d_callbacks D" using assms(1) callback_step_callbacks by (metis snd_conv)
  then have "c \<in> set ((d_callbacks D')[k := c])" using assms(2) by (simp add: set_update_memI)
  then show ?thesis
    using storage_at_release [of c "D'\<lparr>d_callbacks := (d_callbacks D')[k := c]\<rparr>" me] assms(1,3)
    by (simp add: callback_acts_def)
qed

lemma acts_upgrades:
  assumes "k < length (d_callbacks D)" "d_callbacks D ! k = Enters n i m" "upgrade_transport i D = Some me"
  shows "d_callbacks (callback_acts E k D) ! k = Holds_Storage me n i m"
    "d_system (callback_acts E k D) = d_system D" "storage_at (callback_acts E k D) me = storage_at D me"
  using assms storage_at_acts [of E D k "Holds_Storage me n i m" D me] by simp_all

lemma acts_converts:
  assumes k: "k < length (d_callbacks D)" "d_callbacks D ! k = Holds_Storage me n i m"
    and w: "storage_at D me = Some w"
    and conv: "convert_vsomeip_msg_to_umsg (e_up E) (e_vs E) n (get_local_authority (storage w))
      (storage_uri (storage w)) (remote_authority (storage w)) m (enter (process_of (d_system D)) w) = (r, v)"
  shows "d_callbacks (callback_acts E k D) ! k =
      (case r of Ok umsg \<Rightarrow> Has_Message me i umsg | _ \<Rightarrow> Handed None)"
    "d_system (callback_acts E k D) = d_system (put_storage me v D)"
    "r = Ok umsg \<Longrightarrow> storage_at (callback_acts E k D) me = Some v"
proof -
  have held: "convert_held E n me m D = (Some r, put_storage me v D)"
    using w conv by (simp add: convert_held_def)
  then have step: "callback_step E (d_callbacks D ! k) D =
      ((case r of Ok umsg \<Rightarrow> Has_Message me i umsg | _ \<Rightarrow> Handed None), put_storage me v D)"
    using k(2) by (cases r) simp_all
  then show "d_callbacks (callback_acts E k D) ! k =
      (case r of Ok umsg \<Rightarrow> Has_Message me i umsg | _ \<Rightarrow> Handed None)"
    "d_system (callback_acts E k D) = d_system (put_storage me v D)" using k(1) by simp_all
  show "storage_at (callback_acts E k D) me = Some v" if "r = Ok umsg"
    using storage_at_acts [OF step k(1), of me] that w by simp
qed

lemma acts_looks_up:
  assumes env: "env_ok E bm_ok" and k: "k < length (d_callbacks D)" "d_callbacks D ! k = Has_Message me i umsg"
    and u: "storage_at D me = Some u"
  shows "d_callbacks (callback_acts E k D) ! k =
      Handed (map_option (\<lambda>(_, _, l). (l, umsg)) (listeners E u i))"
    "d_system (callback_acts E k D) = d_system D"
proof -
  have "look_up_listener E me i D = map_option (\<lambda>(_, _, l). l) (listeners E u i)"
    using u bimap_spec.storage_listener_view [of "e_bm E" bm_ok "(statics u, storage u)" i] env
    by (simp add: look_up_listener_def env_ok_def listeners_def)
  then have "callback_step E (d_callbacks D ! k) D =
      (Handed (map_option (\<lambda>(_, _, l). (l, umsg)) (listeners E u i)), D)"
    using k(2) by (cases "listeners E u i") auto
  then show "d_callbacks (callback_acts E k D) ! k =
      Handed (map_option (\<lambda>(_, _, l). (l, umsg)) (listeners E u i))"
    "d_system (callback_acts E k D) = d_system D" using k(1) by simp_all
qed

lemma acts_handed:
  assumes "k < length (d_callbacks D)" "d_callbacks D ! k = Handed x"
  shows "d_callbacks (callback_acts E k D) ! k = Handed x" "d_system (callback_acts E k D) = d_system D"
  using assms by simp_all

lemma callback_acts_length: "length (d_callbacks (callback_acts E k D)) = length (d_callbacks D)"
  by simp

subsection \<open>A call that is not interrupted\<close>

text \<open>
  With no orphan about, the three steps without interruption are \<open>call_shared_extern_fn\<close>
  of the sequential model.
\<close>

lemma uninterrupted_call:
  fixes D :: "'bm dispatching"
  assumes env: "env_ok E bm_ok" and k: "k < length (d_callbacks D)" "d_callbacks D ! k = Enters n i m"
    and none: "d_orphans D = Map.empty"
    and call: "call_shared_extern_fn E n i m (process_of (d_system D)) = (x, p)"
    and D3: "D3 = callback_acts E k (callback_acts E k (callback_acts E k D))"
  shows "d_callbacks D3 ! k = Handed x \<and> process_of (d_system D3) = p"
proof -
  let ?D1 = "callback_acts E k D"
  let ?D2 = "callback_acts E k ?D1"
  have l: "k < length (d_callbacks ?D1)" "k < length (d_callbacks ?D2)" using k(1) by simp_all
  have at: "storage_at D me = map_option shared (s_transports (d_system D) me)" for me
    using none by (simp add: storage_at_def split: option.split)
  show ?thesis
  proof (cases "upgrade_transport i D")
    case None
    then have "x = None" "p = process_of (d_system D)"
      using call at by (auto simp: upgrade_transport_def call_shared_extern_fn_def
          get_message_handler_id_transport_def split: option.splits if_splits)
    moreover have 1: "d_callbacks ?D1 ! k = Handed None" "d_system ?D1 = d_system D" using None k by simp_all
    note 2 = acts_handed [OF l(1) 1(1), of E]
    ultimately show ?thesis using acts_handed [OF l(2) 2(1), of E] 1 2 D3 by simp
  next
    case (Some me)
    then obtain s where s: "s_transports (d_system D) me = Some s"
      "message_handler_id_to_transport_storage (s_statics (d_system D)) i = Some me"
      using at by (auto simp: upgrade_transport_def split: option.splits if_splits)
    let ?w = "shared s"
    note 1 = acts_upgrades [OF k Some, of E]
    obtain r v where conv: "convert_vsomeip_msg_to_umsg (e_up E) (e_vs E) n (get_local_authority (storage ?w))
      (storage_uri (storage ?w)) (remote_authority (storage ?w)) m (enter (process_of (d_system D)) ?w) = (r, v)"
      by fastforce
    have w: "storage_at ?D1 me = Some ?w" using 1(3) at s by simp
    note 2 = acts_converts [OF l(1) 1(1) w conv [folded 1(2)]]
    have p: "process_of (d_system ?D2) = leave (process_of (d_system D)) me v"
      using 2(2) 1(2) s(1) by (simp add: put_storage_def process_of_left)
    have view: "storage_get_listener_for_message_handler_id (e_bm E) (storage v) i =
        map_option (\<lambda>(_, _, l). l) (listeners E v i)"
      using bimap_spec.storage_listener_view [of "e_bm E" bm_ok "(statics v, storage v)" i] env
      by (simp add: env_ok_def listeners_def)
    have found: "get_message_handler_id_transport i (process_of (d_system D)) = Some (me, ?w)"
      using s by (simp add: get_message_handler_id_transport_def)
    show ?thesis
    proof (cases r)
      case (Ok umsg)
      have "d_callbacks ?D2 ! k = Has_Message me i umsg" using 2(1) Ok by simp
      from acts_looks_up [OF env l(2) this 2(3) [OF Ok]] p found conv call view Ok D3 show ?thesis
        by (cases "listeners E v i") (auto simp: call_shared_extern_fn_def)
    next
      case (Err e)
      have "d_callbacks ?D2 ! k = Handed None" using 2(1) Err by simp
      from acts_handed [OF l(2) this, of E] p found conv call Err D3 show ?thesis
        by (auto simp: call_shared_extern_fn_def)
    next
      case Panic
      have "d_callbacks ?D2 ! k = Handed None" using 2(1) Panic by simp
      from acts_handed [OF l(2) this, of E] p found conv call Panic D3 show ?thesis
        by (auto simp: call_shared_extern_fn_def)
    qed
  qed
qed

subsection \<open>Calls among everything else\<close>

text \<open>Everything that happens between two steps of the \<open>k\<close>-th call.\<close>

definition beside :: "('bm, 'v) env \<Rightarrow> nat \<Rightarrow> 'bm dispatching \<Rightarrow> 'bm dispatching \<Rightarrow> bool" where
  "beside E k D D' \<longleftrightarrow> dispatching_step E D D' \<and> d_callbacks D' ! k = d_callbacks D ! k"

abbreviation beside_steps :: "('bm, 'v) env \<Rightarrow> nat \<Rightarrow> 'bm dispatching \<Rightarrow> 'bm dispatching \<Rightarrow> bool" where
  "beside_steps E k \<equiv> (beside E k)\<^sup>*\<^sup>*"

lemma dispatching_step_length: "dispatching_step E D D' \<Longrightarrow> length (d_callbacks D) \<le> length (d_callbacks D')"
  by (cases rule: dispatching_step.cases) auto

lemma beside_steps_keep:
  assumes "beside_steps E k D D'" "dispatching_ok E D" "env_ok E bm_ok" "k < length (d_callbacks D)"
  shows "dispatching_ok E D' \<and> k < length (d_callbacks D') \<and> d_callbacks D' ! k = d_callbacks D ! k"
  using assms(1)
proof (induction rule: rtranclp_induct)
  case (step D1 D2)
  then have "dispatching_ok E D2" "length (d_callbacks D1) \<le> length (d_callbacks D2)"
    using dispatching_step_ok [of E D1 D2] dispatching_step_length [of E D1 D2] assms(3)
    by (auto simp: beside_def)
  with step show ?case by (simp add: beside_def)
qed (use assms in simp)

lemma held_storage:
  assumes "dispatching_ok E D" "k < length (d_callbacks D)" "held_by (d_callbacks D ! k) = Some me"
  obtains w where "storage_at D me = Some w"
  using dispatching_okD(4) [OF assms(1) _ assms(3)] assms(2) by fastforce

lemma upgrade_filed:
  assumes ok: "dispatching_ok E D" and env: "env_ok E bm_ok"
    and s: "s_transports (d_system D) me = Some s" and i: "listeners E (shared s) i = Some c"
  shows "upgrade_transport i D = Some me"
proof -
  have "process_ok E bm_ok (process_of (d_system D))"
    using system_reachable_ok [OF dispatching_okD(1) [OF ok] env] by (simp add: system_ok_def)
  from process_ok_entry(3) [OF this env, of me "shared s"] s i
  have "message_handler_id_to_transport_storage (s_statics (d_system D)) i = Some me" by auto
  with s show ?thesis by (simp add: upgrade_transport_def storage_at_def)
qed

text \<open>C3. vsomeip calls a handler function under which some listener of a transport is filed.  The
  call is a thread with three steps, the lookup of the transport, the conversion of the message
  and the lookup of the listener, and before the second and the third anything may happen that
  can happen in the process: calls on this and other transports in any interleaving, listeners
  unregistered and registered, engines at work, other calls of vsomeip, even this transport
  dropped.  Then the storage of the transport the function led to is still there when it is
  converted for and when the listener is looked up; the conversion does not panic; if it fails no
  listener is called; and if it succeeds, the listener that is called with its message is the one
  that is filed under the function in that transport at the moment of the third step, and no
  listener if none is filed there any more.\<close>

theorem concurrent_dispatch_reaches_the_listener:
  assumes reach: "dispatching_reachable E D" and env: "env_ok E bm_ok"
    and k: "k < length (d_callbacks D)" "d_callbacks D ! k = Enters n i m"
    and filed: "s_transports (d_system D) me = Some s" "listeners E (shared s) i = Some c"
    and second: "beside_steps E k (callback_acts E k D) D1"
    and third: "beside_steps E k (callback_acts E k D1) D2"
  shows "\<exists>w r v. storage_at D1 me = Some w \<and>
    convert_vsomeip_msg_to_umsg (e_up E) (e_vs E) n (get_local_authority (storage w))
      (storage_uri (storage w)) (remote_authority (storage w)) m (enter (process_of (d_system D1)) w) = (r, v) \<and>
    (case r of
       Ok umsg \<Rightarrow> storage_at (callback_acts E k D1) me = Some v \<and>
         (\<exists>u. storage_at D2 me = Some u \<and> d_callbacks (callback_acts E k D2) ! k =
            Handed (map_option (\<lambda>(_, _, l). (l, umsg)) (listeners E u i)))
     | Err e \<Rightarrow> d_callbacks (callback_acts E k D2) ! k = Handed None
     | Panic \<Rightarrow> False)"
proof -
  have ok: "dispatching_ok E D" using dispatching_reachable_ok [OF reach env] .
  note 1 = acts_upgrades [OF k upgrade_filed [OF ok env filed], of E]
  have at1: "dispatching_ok E D1" "k < length (d_callbacks D1)" "d_callbacks D1 ! k = Holds_Storage me n i m"
    using beside_steps_keep [OF second callback_acts_ok [OF ok env k(1)] env] k(1) 1(1) by simp_all
  obtain w where w: "storage_at D1 me = Some w"
    using held_storage [OF at1(1,2), of me] at1(3) by auto
  obtain r v where conv: "convert_vsomeip_msg_to_umsg (e_up E) (e_vs E) n (get_local_authority (storage w))
      (storage_uri (storage w)) (remote_authority (storage w)) m (enter (process_of (d_system D1)) w) = (r, v)"
    by fastforce
  have "r \<noteq> Panic"
    using address_ok_never_panics [OF storage_at_address_ok [OF at1(1) env w], of "e_up E" "e_vs E" n
        "get_local_authority (storage w)" "remote_authority (storage w)" m "enter (process_of (d_system D1)) w"]
      conv by (simp add: get_source_uri_def)
  note 2 = acts_converts [OF at1(2,3) w conv]
  have at2: "dispatching_ok E D2" "k < length (d_callbacks D2)"
    "d_callbacks D2 ! k = (case r of Ok umsg \<Rightarrow> Has_Message me i umsg | _ \<Rightarrow> Handed None)"
    using beside_steps_keep [OF third callback_acts_ok [OF at1(1) env at1(2)] env] at1(2) 2(1) by simp_all
  show ?thesis
  proof (cases r)
    case (Ok umsg)
    then have c: "d_callbacks D2 ! k = Has_Message me i umsg" using at2(3) by simp
    then obtain u where u: "storage_at D2 me = Some u" using held_storage [OF at2(1,2), of me] by auto
    from acts_looks_up [OF env at2(2) c u] u w conv Ok 2(3) [OF Ok] show ?thesis by auto
  next
    case (Err e)
    then have "d_callbacks D2 ! k = Handed None" using at2(3) by simp
    from acts_handed [OF at2(2) this, of E] w conv Err show ?thesis by auto
  qed (use \<open>r \<noteq> Panic\<close> in simp)
qed

subsection \<open>Steps of the calls on a transport\<close>

lemma others_acts:
  assumes ok: "dispatching_ok E D" and s: "s_transports (d_system D) me = Some s"
    and step: "task_step E (entered (d_system D) s) t"
  shows "beside E k D (D\<lparr>d_system := left (d_system D) me t\<rparr>)"
proof -
  have "system_step E (d_system D) (left (d_system D) me t)" using system_step.acts [OF s step] .
  moreover have "d_orphans D other = None" if "s_transports (left (d_system D) me t) other \<noteq> None" for other
    using that s dispatching_okD(2) [OF ok] by (fastforce split: if_splits)
  ultimately show ?thesis unfolding beside_def by (intro conjI dispatching_step.others) auto
qed

lemma entered_left: "entered (left S me t) t = t"
  by (cases t; cases "shared t") (simp add: entered_def enter_def process_of_def left_def)

lemma others_steps:
  assumes steps: "task_steps E (entered (d_system D) s) t" and ok: "dispatching_ok E D" and env: "env_ok E bm_ok"
    and k: "k < length (d_callbacks D)" and s: "s_transports (d_system D) me = Some s"
  shows "t = entered (d_system D) s \<or> beside_steps E k D (D\<lparr>d_system := left (d_system D) me t\<rparr>)"
  using steps
proof (induction rule: rtranclp_induct)
  case (step t u)
  show ?case
  proof (cases "t = entered (d_system D) s")
    case True
    with step.hyps(2) have "beside E k D (D\<lparr>d_system := left (d_system D) me u\<rparr>)"
      by (intro others_acts [OF ok s]) simp
    then show ?thesis by blast
  next
    case False
    let ?D = "D\<lparr>d_system := left (d_system D) me t\<rparr>"
    have D: "beside_steps E k D ?D" using step.IH False by blast
    then have "dispatching_ok E ?D" using beside_steps_keep [OF _ ok env k] by blast
    moreover have "s_transports (d_system ?D) me = Some t" by simp
    ultimately have "beside E k ?D (?D\<lparr>d_system := left (d_system ?D) me u\<rparr>)"
      by (rule others_acts) (use step.hyps(2) in \<open>simp add: entered_left\<close>)
    moreover have "?D\<lparr>d_system := left (d_system ?D) me u\<rparr> = D\<lparr>d_system := left (d_system D) me u\<rparr>"
      by (simp add: left_def)
    ultimately show ?thesis using D by (simp add: rtranclp.rtrancl_into_rtrancl)
  qed
qed simp

text \<open>Every transport of a process has its answers routed.\<close>

lemma engine_run_Some: "engine_run E n w = (Some r, v) \<Longrightarrow> queue v = []"
proof (induction n arbitrary: w)
  case (Suc n)
  show ?case
  proof (cases "queue w")
    case (Cons cmd cmds)
    obtain x u where exec: "engine_execute E cmd (w\<lparr>queue := cmds\<rparr>) = (x, u)" by fastforce
    then have "queue u = cmds" using engine_execute_fields(1) [of E cmd "w\<lparr>queue := cmds\<rparr>"] by simp
    with Suc Cons exec show ?thesis by (cases x) (auto split: if_splits)
  qed (use Suc.prems in simp)
qed simp

lemma new_internal_idle:
  assumes "new_internal E me c u remote path rc (g, h) = (Ok v, g', h')" shows "queue v = []"
proof -
  let ?w = "fresh_world E me c u remote path (g, h)"
  obtain q x where init: "initialize_vsomeip_app E (app_name c) ?w = (q, x)" by fastforce
  obtain r y where call: "call_engine E (StartVsomeipApp (app_id c) (app_name c)) ?w = (r, y)" by fastforce
  have "x = y" "q = Ok a \<Longrightarrow> r = Ok ()" for a
    using init call by (cases r; simp add: initialize_vsomeip_app_def transport_storage_new_def)+
  moreover have "v = x" "\<exists>a. q = Ok a"
    using assms init by (cases q; auto simp: new_internal_def Let_def split: if_splits option.splits outcome.splits prod.splits)+
  moreover have "r = Ok () \<Longrightarrow> queue y = []"
    using call engine_run_Some by (auto simp: call_engine_def await_engine_def simp del: engine_run.simps
        split: prod.splits outcome.splits option.splits)
  ultimately show ?thesis by blast
qed

lemma routed_entered: "routed (entered S s) = routed s"
  unfolding entered_def routed_def channel_ok_def waits_ok_def by (simp add: enter_def waits_for_def)

lemma reachable_routed:
  assumes "system_reachable E S" "s_transports S me = Some s" shows "routed s"
  using assms
proof (induction arbitrary: me s rule: rtranclp_induct)
  case base
  then show ?case by (simp add: system_init_def)
next
  case (step S T)
  from step.hyps(2) show ?case
  proof cases
    case (acts other u t)
    show ?thesis
    proof (cases "other = me")
      case True
      then have "routed (entered S u)" using step.IH [of me u] acts(2) by (simp add: routed_entered)
      with task_step_routed [OF acts(3)] True acts(1) step.prems show ?thesis by simp
    qed (use step.IH [of me s] acts step.prems in simp)
  next
    case (makes other c u remote path rc v g h)
    show ?thesis
    proof (cases "other = me")
      case True
      have "idle (no_tasks v)" using new_internal_idle [OF makes(4)] by (simp add: idle_def no_tasks_def)
      with idle_routed True makes(1) step.prems show ?thesis by simp
    qed (use step.IH [of me s] makes step.prems in simp)
  qed (use step.IH [of me s] step.prems in \<open>auto split: if_splits\<close>)
qed

text \<open>A method of a transport runs from its beginning to its end, as the task \<open>a\<close>.\<close>

lemma method_steps:
  assumes "routed s" "tasks s a = None" "method_prog E (fixed_of (shared s)) p" "run E p (shared s) = (q, v)"
  obtains t where "task_steps E s t" "shared t = v" "tasks t = (tasks s)(a \<mapsto> Running (Done q))" "routed t"
proof -
  let ?s = "becomes s a p (shared s)"
  have step: "task_step E s ?s" using assms(2,3) by (rule task_step.starts)
  have r: "routed ?s" using task_step_routed [OF step assms(1)] .
  from run_steps [OF r, of a p E q v] assms(4) obtain t where
    t: "task_steps E ?s t" "shared t = v" "tasks t = (tasks s)(a \<mapsto> Running (Done q))" by auto
  have "task_steps E s t" using step t(1) by (rule converse_rtranclp_into_rtranclp)
  with that t task_steps_routed [OF t(1) r] show thesis by blast
qed

text \<open>C4. The three steps of a call do not belong together: after the message has been converted, the
  listener under the function can be unregistered and another one, for whatever filters, be
  registered, which can get the very function.  Then the message that vsomeip delivered for the
  first listener is given to the second.  Both methods run from their beginning to their end
  between two steps of the call, while any other calls on the transport stay where they are.\<close>

theorem overtaken_dispatch_calls_the_next_listener:
  assumes reach: "dispatching_reachable E D" and env: "env_ok E bm_ok"
    and k: "k < length (d_callbacks D)" "d_callbacks D ! k = Enters n i m"
    and filed: "s_transports (d_system D) me = Some s" "listeners E (shared s) i = Some (src, snk, l)"
    and conv: "convert_vsomeip_msg_to_umsg (e_up E) (e_vs E) n (get_local_authority (storage (shared s)))
      (storage_uri (storage (shared s))) (remote_authority (storage (shared s))) m
      (shared (entered (d_system D) s)) = (Ok umsg, w)"
    and unreg: "unregister_listener E src snk l w = (q, w1)" "tasks s a = None"
    and reg: "register_listener E src' snk' l' w1 = (q', w2)" "tasks s b = None" "a \<noteq> b"
      "listeners E w2 i = Some (src', snk', l')"
  shows "\<exists>D1 t. beside_steps E k (callback_acts E k (callback_acts E k D)) D1 \<and>
    s_transports (d_system D1) me = Some t \<and> shared t = w2 \<and>
    tasks t = (tasks s)(a \<mapsto> Running (Done q), b \<mapsto> Running (Done q')) \<and>
    d_callbacks (callback_acts E k D1) ! k = Handed (Some (l', umsg))"
proof -
  have ok: "dispatching_ok E D" using dispatching_reachable_ok [OF reach env] .
  note 1 = acts_upgrades [OF k upgrade_filed [OF ok env filed], of E]
  have w: "storage_at (callback_acts E k D) me = Some (shared s)"
    using 1(3) filed(1) by (simp add: storage_at_def)
  let ?D = "callback_acts E k (callback_acts E k D)" and ?s = "s\<lparr>shared := w\<rparr>"
  note 2 = acts_converts [OF _ 1(1) w conv [unfolded entered_simps, folded 1(2)]]
  have D: "d_callbacks ?D ! k = Has_Message me i umsg" "d_system ?D = left (d_system D) me ?s"
    "k < length (d_callbacks ?D)"
    using 2(1,2) k(1) 1(2) filed(1) by (simp_all add: put_storage_def)
  have okD: "dispatching_ok E ?D" using callback_acts_ok [OF callback_acts_ok [OF ok env k(1)] env] k(1) by simp
  have sD: "s_transports (d_system ?D) me = Some ?s" unfolding D(2) by simp
  have same: "entered (d_system ?D) ?s = ?s" unfolding D(2) by (rule entered_left)
  have routed: "routed ?s" using reachable_routed [OF dispatching_okD(1) [OF okD] sD] .
  have a: "tasks ?s a = None" using unreg(2) by simp
  have "run E (unregister_prog E (fixed_of (shared ?s)) src snk l) (shared ?s) = (q, w1)"
    using unreg(1) programs_are_the_methods [of E w] by simp
  from method_steps [OF routed a method_prog.intros(2) this] obtain t1 where
    t1: "task_steps E ?s t1" "shared t1 = w1" "tasks t1 = (tasks s)(a \<mapsto> Running (Done q))" "routed t1" by auto
  have b: "tasks t1 b = None" using t1(3) reg(2,3) by simp
  have "run E (register_prog E (fixed_of (shared t1)) src' snk' l') (shared t1) = (q', w2)"
    using reg(1) programs_are_the_methods [of E w1] t1(2) by simp
  from method_steps [OF t1(4) b method_prog.intros(1) this] obtain t where
    t: "task_steps E t1 t" "shared t = w2"
      "tasks t = (tasks s)(a \<mapsto> Running (Done q), b \<mapsto> Running (Done q'))" using t1(3) by auto
  have "task_steps E (entered (d_system ?D) ?s) t"
    unfolding same using t1(1) t(1) by (rule rtranclp_trans)
  moreover have "t \<noteq> entered (d_system ?D) ?s"
  proof
    assume "t = entered (d_system ?D) ?s"
    then have "tasks t a = tasks ?s a" unfolding same by simp
    then show False using t(3) unreg(2) reg(3) by simp
  qed
  ultimately have steps: "beside_steps E k ?D (?D\<lparr>d_system := left (d_system ?D) me t\<rparr>)"
    using others_steps [OF _ okD env D(3) sD] by blast
  let ?D1 = "?D\<lparr>d_system := left (d_system ?D) me t\<rparr>"
  have "d_callbacks ?D1 ! k = Has_Message me i umsg" "storage_at ?D1 me = Some w2" "k < length (d_callbacks ?D1)"
    using D(1,3) t(2) by (simp_all add: storage_at_def)
  from acts_looks_up(1) [OF env this(3,1,2)] reg(4)
  have "d_callbacks (callback_acts E k ?D1) ! k = Handed (Some (l', umsg))" by simp
  with steps t(2,3) show ?thesis by (intro exI [of _ ?D1] exI [of _ t]) simp
qed

subsection \<open>A process for the witnesses\<close>

lemma system_dispatching:
  assumes "system_step E S T"
  shows "dispatching_step E \<lparr>d_system = S, d_orphans = Map.empty, d_callbacks = []\<rparr>
    \<lparr>d_system = T, d_orphans = Map.empty, d_callbacks = []\<rparr>"
proof -
  let ?D = "\<lparr>d_system = S, d_orphans = Map.empty, d_callbacks = []\<rparr>"
  note others = dispatching_step.others [of E ?D T]
  from assms show ?thesis
  proof cases
    case (drops me s r v)
    have "release_orphans (?D\<lparr>d_system := T, d_orphans := [me \<mapsto> v]\<rparr>) = \<lparr>d_system = T, d_orphans = Map.empty, d_callbacks = []\<rparr>"
      by (simp add: release_orphans_def fun_eq_iff)
    then show ?thesis
      using dispatching_step.dropped [of ?D me s E r v] drops by simp
  qed (use assms others in \<open>auto simp: left_def\<close>)
qed

lemma reachable_dispatching:
  "system_reachable E S \<Longrightarrow> dispatching_reachable E \<lparr>d_system = S, d_orphans = Map.empty, d_callbacks = []\<rparr>"
proof (induction rule: rtranclp_induct)
  case (step S T)
  with system_dispatching [OF step.hyps(2)] show ?case by (meson rtranclp.rtrancl_into_rtrancl)
qed (simp add: dispatching_init_def)

lemma calls_reachable:
  assumes "dispatching_reachable E \<lparr>d_system = S, d_orphans = orph, d_callbacks = cs\<rparr>"
  shows "dispatching_reachable E \<lparr>d_system = S, d_orphans = orph, d_callbacks = cs @ [Enters n i m]\<rparr>"
  using assms dispatching_step.called [of E "\<lparr>d_system = S, d_orphans = orph, d_callbacks = cs\<rparr>" n i m]
  by (simp add: rtranclp.rtrancl_into_rtrancl)

lemma Min_message_handlers: "Min {..<num_message_handlers} = 0"
  by (rule Min_eqI) (auto simp: num_message_handlers_def)

lemma demo_filed:
  obtains S s where "system_reachable (demo_env (\<lambda>_. 1)) S" "s_transports S 0 = Some s"
    "listeners (demo_env (\<lambda>_. 1)) (shared s) = [0 \<mapsto> (demo_uri 1 0x8001, None, Listener 3)]"
    "free_message_handler_ids (s_statics S) = {..<num_message_handlers} - {0}"
    "prompt (demo_env (\<lambda>_. 1)) (shared s)" "list_ex (creates (application_of (shared s))) (s_hist S)"
    "tasks s 1 = None" "tasks s 2 = None"
proof -
  let ?E = "demo_env (\<lambda>_. 1)" and ?c = "\<lparr>app_name = ''new'', app_id = 1\<rparr>"
  have empty: "0 \<notin> ran (message_handler_id_to_transport_storage statics_init)"
    and ids: "free_state_handler_ids statics_init = {..<num_state_handlers}"
    by (simp_all add: statics_init_def)
  from new_internal_ready [OF demo_env_ok statics_ok_init states_ok_init empty,
      of "demo_uri 0x10 0" "\<lambda>_. 1" None 0 "[]" ?c ST_REGISTERED "[]" "''r''" None]
  obtain w where w: "new_internal ?E 0 ?c (demo_uri 0x10 0) ''r'' None None (statics_init, []) =
      (Ok w, statics w, hist w)" "transport_ok ?E pairs_ok w" "listeners ?E w = Map.empty"
    "hist w = start_calls ref_vsomeip [] ''new'' None 0 @ [UnregisterStateHandler ''new'']"
    "free_handlers w = {..<num_message_handlers}" "queue w = []" "engine_alive w" "application_of w = ''new''"
    by (auto simp: ids Min_state_handlers ref_up_rust_def demo_uri_def state_channel_capacity_def
        runtime_threads_def DEFAULT_NUM_THREADS_def) (simp add: statics_init_def)
  have exists: "list_ex (creates ''new'') (hist w)" using w(4) by (simp add: start_calls_def Let_def)
  have some: "free_handlers w \<noteq> {}" using w(5) by (auto simp: num_message_handlers_def lessThan_empty_iff)
  have min: "e_pick ?E (free_handlers w) = 0" unfolding w(5) by (simp add: Min_message_handlers)
  obtain v calls where v: "register_listener ?E (demo_uri 1 0x8001) None (Listener 3) w = (Ok (), v)"
    "listeners ?E v = [0 \<mapsto> (demo_uri 1 0x8001, None, Listener 3)]" "free_handlers v = free_handlers w - {0}"
    "calm v" "queue v = []" "application_of v = ''new''" "hist v = hist w @ calls"
    using register_listener_runs [OF demo_env_ok w(2), of "demo_uri 1 0x8001" None Publish "Listener 3"]
      w(3,6,7,8) exists some min by (auto simp: prompt_def)
  let ?S = "left system_init 0 (no_tasks w)"
  have "system_step ?E system_init ?S"
    by (rule system_step.makes [where me = 0 and c = ?c and u = "demo_uri 0x10 0"
          and remote = "''r''" and path = None and rc = None and g = "statics w" and h = "hist w"])
      (use w in \<open>simp_all add: system_init_def statics_init_def\<close>)
  then have S: "system_reachable ?E ?S" by (rule r_into_rtranclp)
  have same: "entered ?S (no_tasks w) = no_tasks w" by (rule entered_left)
  have routed: "routed (no_tasks w)" using reachable_routed [OF S, of 0 "no_tasks w"] by simp
  have none: "tasks (no_tasks w) 0 = None" by (simp add: no_tasks_def)
  have "run ?E (register_prog ?E (fixed_of (shared (no_tasks w))) (demo_uri 1 0x8001) None (Listener 3))
      (shared (no_tasks w)) = (Ok (), v)"
    using v(1) programs_are_the_methods [of ?E w] by simp
  from method_steps [OF routed none method_prog.intros(1) this] obtain t where
    t: "task_steps ?E (no_tasks w) t" "shared t = v" "tasks t = (tasks (no_tasks w))(0 \<mapsto> Running (Done (Ok ())))" .
  have "t \<noteq> entered ?S (no_tasks w)"
  proof
    assume "t = entered ?S (no_tasks w)"
    then have "tasks t 0 = tasks (no_tasks w) 0" unfolding same by simp
    then show False using t(3) none by simp
  qed
  moreover have "task_steps ?E (entered ?S (no_tasks w)) t" unfolding same by (rule t(1))
  ultimately have "(system_step ?E)\<^sup>*\<^sup>* ?S (left ?S 0 t)"
    using task_steps_system_steps [of ?E ?S "no_tasks w" t 0] by simp
  with S have "system_reachable ?E (left ?S 0 t)" by (rule rtranclp_trans)
  then show thesis
    by (rule that [of _ t]) (use v(2-) t(2,3) w(5) exists in
      \<open>simp_all add: left_def free_handlers_def prompt_def calm_def no_tasks_def\<close>)
qed

definition demo_event :: vmessage where
  "demo_event = demo_incoming\<lparr>v_message_type := MT_NOTIFICATION\<rparr>"

lemma demo_event_converts:
  obtains umsg where "convert_vsomeip_msg_to_umsg ref_up_rust ref_vsomeip n auth uri remote demo_event w = (Ok umsg, w)"
  by (simp add: convert_vsomeip_msg_to_umsg_def convert_vsomeip_mt_notification_to_umsg_def demo_event_def
      get_message_payload_def demo_incoming_def blank_message_def ref_up_rust_def Let_def)

lemma acts_listeners:
  assumes ok: "dispatching_ok E D" and k: "k < length (d_callbacks D)"
    and s: "s_transports (d_system D) me = Some s"
  obtains t where "s_transports (d_system (callback_acts E k D)) me = Some t"
    "listeners E (shared t) = listeners E (shared s)"
proof -
  obtain c D' where step: "callback_step E (d_callbacks D ! k) D = (c, D')" by fastforce
  have held: "\<forall>me. held_by (d_callbacks D ! k) = Some me \<longrightarrow> storage_at D me \<noteq> None"
    using dispatching_okD(4) [OF ok, of "d_callbacks D ! k"] k by simp
  show thesis
  proof (cases rule: callback_step_cases [OF step held])
    case 1
    with that [of s] step s show thesis by simp
  next
    case (2 other n i m w r v)
    show thesis
    proof (cases "other = me")
      case True
      have "w = shared s" using 2(2) s True by (simp add: storage_at_def)
      with that [of "s\<lparr>shared := v\<rparr>"] step 2 s True show thesis by (simp add: put_storage_def)
    next
      case False
      have "s_transports (d_system (put_storage other v D)) me = Some s"
        using s False by (simp add: put_storage_def split: option.split)
      with that [of s] step 2 show thesis by simp
    qed
  qed
qed

lemma demo_dispatching:
  obtains S s D where "system_reachable (demo_env (\<lambda>_. 1)) S" "s_transports S 0 = Some s"
    "listeners (demo_env (\<lambda>_. 1)) (shared s) = [0 \<mapsto> (demo_uri 1 0x8001, None, Listener 3)]"
    "free_message_handler_ids (s_statics S) = {..<num_message_handlers} - {0}"
    "prompt (demo_env (\<lambda>_. 1)) (shared s)" "list_ex (creates (application_of (shared s))) (s_hist S)"
    "tasks s 1 = None" "tasks s 2 = None" "dispatching_reachable (demo_env (\<lambda>_. 1)) D"
    "d_system D = S" "d_callbacks D = [Enters 7 0 demo_event, Enters 8 0 demo_event]"
proof -
  obtain S s where S: "system_reachable (demo_env (\<lambda>_. 1)) S" "s_transports S 0 = Some s"
    "listeners (demo_env (\<lambda>_. 1)) (shared s) = [0 \<mapsto> (demo_uri 1 0x8001, None, Listener 3)]"
    "free_message_handler_ids (s_statics S) = {..<num_message_handlers} - {0}"
    "prompt (demo_env (\<lambda>_. 1)) (shared s)" "list_ex (creates (application_of (shared s))) (s_hist S)"
    "tasks s 1 = None" "tasks s 2 = None" by (rule demo_filed)
  let ?D = "\<lparr>d_system = S, d_orphans = Map.empty, d_callbacks = [Enters 7 0 demo_event, Enters 8 0 demo_event]\<rparr>"
  have "dispatching_reachable (demo_env (\<lambda>_. 1)) ?D"
    using calls_reachable [OF calls_reachable [OF reachable_dispatching [OF S(1)]], of 7 0 demo_event 8 0 demo_event]
    by simp
  from that [OF S this] show thesis by simp
qed

theorem concurrent_dispatch_reaches_the_listener_witness:
  "\<exists>D D1 D2 umsg. dispatching_reachable (demo_env (\<lambda>_. 1)) D \<and>
    d_callbacks D = [Enters 7 0 demo_event, Enters 8 0 demo_event] \<and>
    D1 = callback_acts (demo_env (\<lambda>_. 1)) 1 (callback_acts (demo_env (\<lambda>_. 1)) 0 D) \<and>
    D2 = callback_acts (demo_env (\<lambda>_. 1)) 1 (callback_acts (demo_env (\<lambda>_. 1)) 0 D1) \<and>
    d_callbacks (callback_acts (demo_env (\<lambda>_. 1)) 0 D2) ! 0 = Handed (Some (Listener 3, umsg))"
proof -
  let ?E = "demo_env (\<lambda>_. 1)"
  obtain S s D where D: "s_transports S 0 = Some s"
    "listeners ?E (shared s) = [0 \<mapsto> (demo_uri 1 0x8001, None, Listener 3)]"
    "dispatching_reachable ?E D" "d_system D = S" "d_callbacks D = [Enters 7 0 demo_event, Enters 8 0 demo_event]"
    by (rule demo_dispatching)
  have beside: "beside_steps ?E 0 C (callback_acts ?E 1 C)" if "length (d_callbacks C) = 2" for C
    using dispatching_step.thread [of 1 C ?E] that
    by (intro r_into_rtranclp) (simp add: beside_def del: callback_step.simps)
  have len: "length (d_callbacks (callback_acts ?E k C)) = length (d_callbacks C)" for k C by simp
  note acts = acts_listeners [OF _ _, where E = ?E and me = 0]
  let ?D0 = "callback_acts ?E 0 D"
  let ?D1 = "callback_acts ?E 1 ?D0"
  let ?C0 = "callback_acts ?E 0 ?D1"
  let ?D2 = "callback_acts ?E 1 ?C0"
  have ok: "dispatching_ok ?E D" "dispatching_ok ?E ?D0" "dispatching_ok ?E ?D1" "dispatching_ok ?E ?C0"
    using dispatching_reachable_ok [OF D(3) demo_env_ok] callback_acts_ok [OF _ demo_env_ok] D(5) len by simp_all
  obtain s1 where s1: "s_transports (d_system ?D0) 0 = Some s1" "listeners ?E (shared s1) = listeners ?E (shared s)"
    using acts [OF ok(1), of 0 s] D by auto
  obtain s2 where s2: "s_transports (d_system ?D1) 0 = Some s2" "listeners ?E (shared s2) = listeners ?E (shared s)"
    using acts [OF ok(2), of 1 s1] D(5) s1 by auto
  obtain s3 where s3: "s_transports (d_system ?C0) 0 = Some s3" "listeners ?E (shared s3) = listeners ?E (shared s)"
    using acts [OF ok(3), of 0 s2] D(5) s2 by auto
  obtain s4 where s4: "s_transports (d_system ?D2) 0 = Some s4" "listeners ?E (shared s4) = listeners ?E (shared s)"
    using acts [OF ok(4), of 1 s3] D(5) s3 by auto
  have u: "storage_at ?D2 0 = Some (shared s4)" using s4(1) by (simp add: storage_at_def)
  have two: "length (d_callbacks ?D0) = 2" "length (d_callbacks ?C0) = 2" and k: "0 < length (d_callbacks D)"
    "d_callbacks D ! 0 = Enters 7 0 demo_event" and f: "listeners ?E (shared s) 0 = Some (demo_uri 1 0x8001, None, Listener 3)"
    using D(2,5) by simp_all
  from concurrent_dispatch_reaches_the_listener [OF D(3) demo_env_ok k D(1) [folded D(4)] f
      beside [OF two(1)] beside [OF two(2)]]
  obtain w r v where r: "convert_vsomeip_msg_to_umsg ref_up_rust ref_vsomeip 7 (get_local_authority (storage w))
      (storage_uri (storage w)) (remote_authority (storage w)) demo_event
      (enter (process_of (d_system ?D1)) w) = (r, v)"
    and handed: "case r of Ok umsg \<Rightarrow> storage_at (callback_acts ?E 0 ?D1) 0 = Some v \<and>
         (\<exists>u. storage_at ?D2 0 = Some u \<and> d_callbacks (callback_acts ?E 0 ?D2) ! 0 =
            Handed (map_option (\<lambda>(_, _, l). (l, umsg)) (listeners ?E u 0)))
     | Err e \<Rightarrow> d_callbacks (callback_acts ?E 0 ?D2) ! 0 = Handed None
     | Panic \<Rightarrow> False" unfolding demo_env_fields by blast
  obtain umsg where "r = Ok umsg"
    using demo_event_converts [of 7 "get_local_authority (storage w)" "storage_uri (storage w)"
        "remote_authority (storage w)" "enter (process_of (d_system ?D1)) w"] r by (metis fst_conv)
  then have "d_callbacks (callback_acts ?E 0 ?D2) ! 0 = Handed (Some (Listener 3, umsg))"
    using handed u s4(2) D(2) by (auto simp del: callback_acts_simps)
  with D(3,5) show ?thesis by blast
qed

theorem overtaken_dispatch_calls_the_next_listener_witness:
  "\<exists>D D1 umsg. dispatching_reachable (demo_env (\<lambda>_. 1)) D \<and> d_callbacks D ! 0 = Enters 7 0 demo_event \<and>
    beside_steps (demo_env (\<lambda>_. 1)) 0
      (callback_acts (demo_env (\<lambda>_. 1)) 0 (callback_acts (demo_env (\<lambda>_. 1)) 0 D)) D1 \<and>
    d_callbacks (callback_acts (demo_env (\<lambda>_. 1)) 0 D1) ! 0 = Handed (Some (Listener 5, umsg))"
proof -
  let ?E = "demo_env (\<lambda>_. 1)"
  obtain S s D where reach: "system_reachable ?E S" and s: "s_transports S 0 = Some s"
    and filed: "listeners ?E (shared s) = [0 \<mapsto> (demo_uri 1 0x8001, None, Listener 3)]"
    and free: "free_message_handler_ids (s_statics S) = {..<num_message_handlers} - {0}"
    and prompt: "prompt ?E (shared s)" and app: "list_ex (creates (application_of (shared s))) (s_hist S)"
    and none: "tasks s 1 = None" "tasks s 2 = None"
    and D: "dispatching_reachable ?E D" "d_system D = S" "d_callbacks D = [Enters 7 0 demo_event, Enters 8 0 demo_event]"
    by (rule demo_dispatching)
  let ?w = "shared (entered S s)"
  have ok: "transport_ok ?E pairs_ok ?w"
    using system_reachable_ok [OF reach demo_env_ok] s by (auto simp: system_ok_def process_ok_def)
  have w: "prompt ?E ?w" "listeners ?E ?w = [0 \<mapsto> (demo_uri 1 0x8001, None, Listener 3)]"
    "free_handlers ?w = {..<num_message_handlers} - {0}" "application_of ?w = application_of (shared s)" "hist ?w = s_hist S"
    using prompt filed free by (simp_all add: prompt_def enter_def listeners_def free_handlers_def application_of_def)
  obtain w1 where w1: "unregister_listener ?E (demo_uri 1 0x8001) None (Listener 3) ?w = (Ok (), w1)"
    "listeners ?E w1 = Map.empty" "free_handlers w1 = insert 0 (free_handlers ?w)" "transport_ok ?E pairs_ok w1"
    "engine_alive w1" "queue w1 = []" "application_of w1 = application_of (shared s)" "list_ex (creates (application_of (shared s))) (hist w1)"
    using unregister_listener_runs [OF demo_env_ok ok w(1), of "demo_uri 1 0x8001" None Publish _ _ _ 0 "Listener 3"]
      w(2,4,5) app by (auto simp: low16_def snd_split_u32_to_u16)
  have free1: "free_handlers w1 = {..<num_message_handlers}"
    unfolding w1(3) w(3) by (auto simp: num_message_handlers_def)
  have some: "free_handlers w1 \<noteq> {}" unfolding free1 by (auto simp: num_message_handlers_def lessThan_empty_iff)
  have min: "e_pick ?E (free_handlers w1) = 0" unfolding free1 by (simp add: Min_message_handlers)
  have prompt1: "prompt ?E w1" using w1(5,6) by (simp add: prompt_def)
  obtain w2 where w2: "register_listener ?E (demo_uri 2 0x8002) None (Listener 5) w1 = (Ok (), w2)"
    "listeners ?E w2 0 = Some (demo_uri 2 0x8002, None, Listener 5)"
    using register_listener_runs [OF demo_env_ok w1(4) prompt1 _ determine_type_None _ _ some,
        of "demo_uri 2 0x8002" "Listener 5"] w1(2,7,8) min by auto
  obtain umsg where "convert_vsomeip_msg_to_umsg ref_up_rust ref_vsomeip 7
      (get_local_authority (storage (shared s))) (storage_uri (storage (shared s)))
      (remote_authority (storage (shared s))) demo_event ?w = (Ok umsg, ?w)"
    by (rule demo_event_converts)
  then have conv: "convert_vsomeip_msg_to_umsg (e_up ?E) (e_vs ?E) 7
      (get_local_authority (storage (shared s))) (storage_uri (storage (shared s)))
      (remote_authority (storage (shared s))) demo_event (shared (entered (d_system D) s)) = (Ok umsg, ?w)"
    unfolding D(2) by simp
  have k: "0 < length (d_callbacks D)" "d_callbacks D ! 0 = Enters 7 0 demo_event" using D(3) by simp_all
  have f: "listeners ?E (shared s) 0 = Some (demo_uri 1 0x8001, None, Listener 3)" using filed by simp
  from overtaken_dispatch_calls_the_next_listener [OF D(1) demo_env_ok k s [folded D(2)] f conv w1(1) none(1) w2(1) none(2) _ w2(2)]
  show ?thesis using D(1) k(2) by fastforce
qed

end
