(* ===== verification/Point_To_Point.thy ===== *)
theory Point_To_Point
  imports Concurrent_Process
begin

text \<open>
  The point-to-point listener of a transport over the transport's life: the field
  \<open>point_to_point_listener\<close> of \<^verbatim>\<open>lib.rs\<close>, which registrations set when it is
  empty and which nothing empties.
\<close>

subsection \<open>Steps keep the listener\<close>

lemma task_step_keeps_listener:
  assumes "task_step E s t" "point_to_point_listener (shared s) = Some l"
  shows "point_to_point_listener (shared t) = Some l \<and> config_path (shared t) = config_path (shared s)"
  using assms
proof cases
  case (gets k c f r v)
  have "engine_side v = engine_side (shared s)"
    using get_handler_engine_side [of E c "shared s"] gets by simp
  from engine_side_more(5,6) [OF this] gets assms(2) show ?thesis by simp
next
  case (releases k c f r v)
  have "engine_side v = engine_side (shared s)"
    using release_handler_engine_side [of E c "shared s"] releases by simp
  from engine_side_more(5,6) [OF this] releases assms(2) show ?thesis by simp
next
  case (executes cmd cmds i ts r v)
  have "caller_side v = caller_side ((shared s)\<lparr>queue := cmds\<rparr>)"
    using engine_execute_fields(4) [of E cmd "(shared s)\<lparr>queue := cmds\<rparr>"] executes by simp
  from caller_side_handlers(8,9) [OF this] executes assms(2) show ?thesis by simp
next
  case (dies cmd cmds v)
  have "caller_side v = caller_side ((shared s)\<lparr>queue := cmds\<rparr>)"
    using engine_execute_fields(4) [of E cmd "(shared s)\<lparr>queue := cmds\<rparr>"] dies by simp
  from caller_side_handlers(8,9) [OF this] dies assms(2) show ?thesis by simp
next
  case (arrives n auth me remote m r v)
  have "untouched v = untouched (shared s)"
    using convert_untouched [of "e_up E" "e_vs E" n auth me remote m "shared s"] arrives by simp
  then have "core.more v = core.more (shared s)" by (simp add: untouched_def)
  from world_more_eqD [OF this] arrives assms(2) show ?thesis by simp
qed (auto simp: claim_def)

text \<open>The steps of a process in which the transport \<open>me\<close> stays alive.\<close>

abbreviation steps_alive :: "('bm, 'v) env \<Rightarrow> storage_ref \<Rightarrow> 'bm system \<Rightarrow> 'bm system \<Rightarrow> bool" where
  "steps_alive E me \<equiv> (\<lambda>S T. system_step E S T \<and> s_transports T me \<noteq> None)\<^sup>*\<^sup>*"

lemma system_step_keeps_listener:
  assumes step: "system_step E S T" and alive: "s_transports T me \<noteq> None"
    and s: "s_transports S me = Some s" "point_to_point_listener (shared s) = Some l"
  shows "\<exists>t. s_transports T me = Some t \<and> point_to_point_listener (shared t) = Some l \<and>
    config_path (shared t) = config_path (shared s)"
  using step
proof cases
  case (acts other u t)
  show ?thesis
  proof (cases "other = me")
    case True
    with acts s have "task_step E (entered S s) t" by simp
    from task_step_keeps_listener [OF this, of l] s acts True show ?thesis
      by (simp add: enter_def)
  qed (use acts s in simp)
next
  case (drops other u r v)
  with alive s show ?thesis by (cases "other = me") auto
qed (use s in \<open>auto split: if_splits\<close>)

lemma steps_alive_keep_listener:
  assumes "steps_alive E me S T"
    and s: "s_transports S me = Some s" "point_to_point_listener (shared s) = Some l"
  shows "\<exists>t. s_transports T me = Some t \<and> point_to_point_listener (shared t) = Some l \<and>
    config_path (shared t) = config_path (shared s)"
  using assms(1)
proof (induction rule: rtranclp_induct)
  case (step T T')
  then obtain t where t: "s_transports T me = Some t" "point_to_point_listener (shared t) = Some l"
    "config_path (shared t) = config_path (shared s)" by blast
  with system_step_keeps_listener [of E T T' me t l] step.hyps(2) show ?case by auto
qed (use s in simp)

lemma steps_alive_steps: "steps_alive E me S T \<Longrightarrow> (system_step E)\<^sup>*\<^sup>* S T"
  by (rule rtranclp_mono [THEN predicate2D, rotated]) auto

text \<open>A system in which a registration has set its point-to-point listener and not gone on.\<close>

lemma demo_claimed:
  obtains S s where "system_reachable (demo_env (\<lambda>_. 1)) S" "s_transports S 0 = Some s"
    "point_to_point_listener (shared s) = Some (Listener 1)" "config_path (shared s) = Some ''cfg''"
    "calm (shared s)" "tasks s 1 = None"
proof -
  let ?E = "demo_env (\<lambda>_. 1)" and ?c = "\<lparr>app_name = ''new'', app_id = 1\<rparr>"
  let ?src = "streamer_uri ''a''" and ?snk = "Some (streamer_uri ''b'')"
  have none: "0 \<notin> ran (message_handler_id_to_transport_storage statics_init)"
    and ids: "free_state_handler_ids statics_init = {..<num_state_handlers}"
    by (simp_all add: statics_init_def)
  from new_internal_ready [OF demo_env_ok statics_ok_init states_ok_init none,
      of "demo_uri 0x10 0" "\<lambda>_. 1" None 0 "[]" ?c ST_REGISTERED "[]" "''r''" "Some ''cfg''"]
  obtain w where w: "new_internal ?E 0 ?c (demo_uri 0x10 0) ''r'' (Some ''cfg'') None (statics_init, []) =
      (Ok w, statics w, hist w)" "queue w = []" "engine_alive w" "config_path w = Some ''cfg''"
    and new: "point_to_point_listener w = None"
    by (auto simp: ids Min_state_handlers ref_up_rust_def demo_uri_def state_channel_capacity_def
        runtime_threads_def DEFAULT_NUM_THREADS_def)
  let ?S0 = "left system_init 0 (no_tasks w)"
  have "system_step ?E system_init ?S0"
    by (rule system_step.makes [where me = 0 and c = ?c and u = "demo_uri 0x10 0" and remote = "''r''"
          and path = "Some ''cfg''" and rc = None and g = "statics w" and h = "hist w"])
      (use w in \<open>simp_all add: system_init_def statics_init_def\<close>)
  then have S0: "system_reachable ?E ?S0" by (rule r_into_rtranclp)
  have same: "entered ?S0 (no_tasks w) = no_tasks w"
    by (cases w) (simp add: entered_def enter_def process_of_def left_def no_tasks_def)
  let ?p = "register_prog ?E (fixed_of w) ?src ?snk (Listener 1)"
  obtain f where prog: "?p = Claim (Listener 1) f"
    using w(4) by (simp add: register_prog_def register_point_to_point_prog_def streamer_type demo_services
        fixed_of_def)
  let ?s1 = "becomes (no_tasks w) 0 ?p w" and ?v = "w\<lparr>point_to_point_listener := Some (Listener 1)\<rparr>"
  let ?s2 = "becomes ?s1 0 (f True) ?v"
  have "task_step ?E (no_tasks w) ?s1"
    using task_step.starts [of "no_tasks w" 0 ?E ?p] by (simp add: method_prog.intros(1)) (simp add: no_tasks_def)
  moreover have "task_step ?E ?s1 ?s2"
    using task_step.claims [of ?s1 0 "Listener 1" f True ?v ?E] prog new by (simp add: claim_def)
  ultimately have "task_steps ?E (entered ?S0 (no_tasks w)) ?s2" unfolding same
    by (meson converse_rtranclp_into_rtranclp r_into_rtranclp)
  moreover have "?s2 \<noteq> entered ?S0 (no_tasks w)" unfolding same
    by (metis becomes_simps(5) fun_upd_same no_tasks_def option.distinct(1) tasks_state.select_convs(5))
  ultimately have "(system_step ?E)\<^sup>*\<^sup>* ?S0 (left ?S0 0 ?s2)"
    using task_steps_system_steps [of ?E ?S0 "no_tasks w" ?s2 0] by simp
  with S0 have "system_reachable ?E (left ?S0 0 ?s2)" by (rule rtranclp_trans)
  with that [of "left ?S0 0 ?s2" ?s2] w show thesis by (simp add: calm_def no_tasks_def)
qed

text \<open>C38. Once a transport has a point-to-point listener it has it for the rest of its life: whatever
  calls are made on it and on other transports, in any interleaving, and whatever unregistrations
  are among them.  Unregistering it is answered with Ok by a healthy engine, and changes nothing
  about that.  In every later state registering a point-to-point listener, any listener with any
  such filters, is refused with ALREADY\_EXISTS, and a concurrent registration that comes to the
  point where it would set its listener does not set it.\<close>

theorem point_to_point_listener_is_never_cleared:
  assumes reach: "system_reachable E S" and env: "env_ok E bm_ok"
    and s: "s_transports S me = Some s" "point_to_point_listener (shared s) = Some l"
      "config_path (shared s) = Some path" "extract_services (e_json E) path = Ok cs"
    and later: "steps_alive E me S T"
    and p2p: "determine_type (e_up E) src snk = Ok AllPointToPoint"
  shows "\<exists>t. s_transports T me = Some t \<and> point_to_point_listener (shared t) = Some l \<and>
    register_listener E src snk other (shared (entered T t)) = (Err ALREADY_EXISTS, shared (entered T t)) \<and>
    claim other (shared t) = (False, shared t) \<and>
    (calm (shared t) \<longrightarrow> (\<exists>v. unregister_listener E src snk other (shared (entered T t)) = (Ok (), v) \<and>
       point_to_point_listener v = Some l))"
proof -
  obtain t where t: "s_transports T me = Some t" "point_to_point_listener (shared t) = Some l"
    "config_path (shared t) = Some path"
    using steps_alive_keep_listener [OF later s(1,2)] s(3) by auto
  let ?w = "shared (entered T t)"
  have w: "point_to_point_listener ?w = Some l" "config_path ?w = Some path" "calm ?w = calm (shared t)"
    using t by (simp_all add: enter_def calm_def)
  have "system_reachable E T" using reach steps_alive_steps [OF later] by (rule rtranclp_trans)
  then have "system_ok E bm_ok T" using env by (rule system_reachable_ok)
  then have ok: "transport_ok E bm_ok ?w"
    using t(1) by (auto simp: system_ok_def process_ok_def)
  have "\<exists>v. unregister_listener E src snk other ?w = (Ok (), v) \<and> point_to_point_listener v = Some l"
    if "calm (shared t)"
    using unregister_services_keeps_listener [OF env ok, of l cs] that w s(4) p2p
    by (auto simp: unregister_listener_def unregister_point_to_point_listener_def)
  moreover have "register_listener E src snk other ?w = (Err ALREADY_EXISTS, ?w)"
    using w s(4) p2p by (simp add: register_listener_def register_point_to_point_listener_def)
  moreover have "claim other (shared t) = (False, shared t)" using t(2) by (simp add: claim_def)
  ultimately show ?thesis using t by blast
qed

theorem point_to_point_listener_is_never_cleared_witness:
  "\<exists>S T t v. system_reachable (demo_env (\<lambda>_. 1)) S \<and> steps_alive (demo_env (\<lambda>_. 1)) 0 S T \<and> S \<noteq> T \<and>
    s_transports T 0 = Some t \<and>
    register_listener (demo_env (\<lambda>_. 1)) (streamer_uri ''a'') (Some (streamer_uri ''b'')) (Listener 5)
      (shared (entered T t)) = (Err ALREADY_EXISTS, shared (entered T t)) \<and>
    unregister_listener (demo_env (\<lambda>_. 1)) (streamer_uri ''a'') (Some (streamer_uri ''b'')) (Listener 5)
      (shared (entered T t)) = (Ok (), v) \<and> point_to_point_listener v = Some (Listener 1)"
proof -
  let ?E = "demo_env (\<lambda>_. 1)" and ?src = "streamer_uri ''a''" and ?snk = "Some (streamer_uri ''b'')"
  obtain S s where S: "system_reachable ?E S" "s_transports S 0 = Some s"
    and s: "point_to_point_listener (shared s) = Some (Listener 1)" "config_path (shared s) = Some ''cfg''"
      "calm (shared s)" "tasks s 1 = None"
    by (rule demo_claimed)
  let ?t = "becomes (entered S s) 1 (unregister_prog ?E (fixed_of (shared (entered S s))) ?src ?snk (Listener 1))
    (shared (entered S s))"
  have "task_step ?E (entered S s) ?t"
    by (rule task_step.starts) (use s(4) method_prog.intros(2) in auto)
  from system_step.acts [OF S(2) this] have later: "steps_alive ?E 0 S (left S 0 ?t)"
    by (intro r_into_rtranclp) simp
  have ne: "S \<noteq> left S 0 ?t"
  proof
    assume "S = left S 0 ?t"
    then have "Some s = Some ?t" using S(2) by (metis fun_upd_same left_simps)
    then have "tasks s 1 = tasks ?t 1" by simp
    then show False using s(4) by simp
  qed
  from point_to_point_listener_is_never_cleared [OF S(1) demo_env_ok S(2) s(1,2) _ later,
      of _ ?src ?snk "Listener 5"] demo_services streamer_type
  obtain t where t: "s_transports (left S 0 ?t) 0 = Some t"
    "register_listener ?E ?src ?snk (Listener 5) (shared (entered (left S 0 ?t) t)) =
      (Err ALREADY_EXISTS, shared (entered (left S 0 ?t) t))"
    "calm (shared t) \<longrightarrow> (\<exists>v. unregister_listener ?E ?src ?snk (Listener 5)
       (shared (entered (left S 0 ?t) t)) = (Ok (), v) \<and> point_to_point_listener v = Some (Listener 1))"
    by auto
  then have "t = ?t" by simp
  then have "calm (shared t)" using s(3) by (simp add: calm_def enter_def)
  with t(3) obtain v where "unregister_listener ?E ?src ?snk (Listener 5)
      (shared (entered (left S 0 ?t) t)) = (Ok (), v)" "point_to_point_listener v = Some (Listener 1)" by blast
  then show ?thesis using S(1) later ne t(1,2)
    by (intro exI [of _ S] exI [of _ "left S 0 ?t"] exI [of _ t] exI [of _ v]) simp
qed

end
