(* ===== verification/Glue_Objects.thy ===== *)
theory Glue_Objects
  imports Transport_Engine
begin

text \<open>
  The objects of vsomeip behind the wrappers of \<^verbatim>\<open>vsomeip-sys/src/glue_additions.rs\<close> and of
  the C++ headers next to it (\<^verbatim>\<open>glue/include/message_wrapper.h\<close>, \<^verbatim>\<open>payload_wrapper.h\<close>).

  A wrapper holds one \<open>std::shared_ptr\<close>.  An object lives as long as it has an owner; a pointer
  made with a deleter that does nothing (\<open>set_payload_raw\<close>, \<open>clone_payload\<close>) is no owner.  The
  store counts the owners of each object and remembers in \<open>intact\<close> whether all accesses so
  far went to live objects: the first one that does not is undefined behaviour.
\<close>

datatype shared_ptr = Empty | Owning nat | Borrowing nat

fun raw_ptr :: "shared_ptr \<Rightarrow> nat option" where
  "raw_ptr Empty = None"
| "raw_ptr (Owning a) = Some a"
| "raw_ptr (Borrowing a) = Some a"

fun borrowed :: "nat option \<Rightarrow> shared_ptr" where
  "borrowed None = Empty"
| "borrowed (Some a) = Borrowing a"

text \<open>A message object: what the setters of \<open>message_base\<close> set, and the pointer to its payload.\<close>

record message_object =
  header :: vmessage
  attached :: shared_ptr

record store =
  payloads :: "nat \<rightharpoonup> vpayload \<times> nat"
  messages :: "nat \<rightharpoonup> message_object \<times> nat"
  next_addr :: nat
  intact :: bool

definition fault :: "store \<Rightarrow> store" where "fault h = h\<lparr>intact := False\<rparr>"

subsection \<open>Objects and their owners\<close>

definition create_payload :: "store \<Rightarrow> shared_ptr \<times> store" where
  "create_payload h = (Owning (next_addr h),
     h\<lparr>payloads := (payloads h)(next_addr h \<mapsto> (None, 1)), next_addr := Suc (next_addr h)\<rparr>)"

definition create_message :: "vmessage \<Rightarrow> store \<Rightarrow> shared_ptr \<times> store" where
  "create_message m h = (Owning (next_addr h),
     h\<lparr>messages := (messages h)(next_addr h \<mapsto> (\<lparr>header = m, attached = Empty\<rparr>, 1)),
       next_addr := Suc (next_addr h)\<rparr>)"

fun clone_payload :: "shared_ptr \<Rightarrow> store \<Rightarrow> store" where
  "clone_payload (Owning a) h =
     (case payloads h a of
        None \<Rightarrow> fault h
      | Some (p, n) \<Rightarrow> h\<lparr>payloads := (payloads h)(a \<mapsto> (p, Suc n))\<rparr>)"
| "clone_payload _ h = h"

fun clone_message :: "shared_ptr \<Rightarrow> store \<Rightarrow> store" where
  "clone_message (Owning a) h =
     (case messages h a of
        None \<Rightarrow> fault h
      | Some (m, n) \<Rightarrow> h\<lparr>messages := (messages h)(a \<mapsto> (m, Suc n))\<rparr>)"
| "clone_message _ h = h"

fun drop_payload :: "shared_ptr \<Rightarrow> store \<Rightarrow> store" where
  "drop_payload (Owning a) h =
     (case payloads h a of
        None \<Rightarrow> fault h
      | Some (p, n) \<Rightarrow>
          h\<lparr>payloads := (payloads h)(a := if n \<le> 1 then None else Some (p, n - 1))\<rparr>)"
| "drop_payload _ h = h"

fun drop_message :: "shared_ptr \<Rightarrow> store \<Rightarrow> store" where
  "drop_message (Owning a) h =
     (case messages h a of
        None \<Rightarrow> fault h
      | Some (m, n) \<Rightarrow>
          if n \<le> 1 then drop_payload (attached m) (h\<lparr>messages := (messages h)(a := None)\<rparr>)
          else h\<lparr>messages := (messages h)(a \<mapsto> (m, n - 1))\<rparr>)"
| "drop_message _ h = h"

subsection \<open>The wrappers\<close>

text \<open>
  \<open>get_pinned\<close> of every wrapper unwraps the raw pointer, \<open>get_message_base_pinned\<close> panics by
  itself; neither looks at the object.
\<close>

definition get_pinned :: "shared_ptr \<Rightarrow> nat result" where
  "get_pinned wrapper = (case raw_ptr wrapper of None \<Rightarrow> Panic | Some a \<Rightarrow> Ok a)"

definition get_message_base_pinned :: "shared_ptr \<Rightarrow> nat result" where
  "get_message_base_pinned wrapper =
     (case raw_ptr wrapper of None \<Rightarrow> Panic | Some msg_ref \<Rightarrow> Ok msg_ref)"

definition set_base :: "(vmessage \<Rightarrow> vmessage) \<Rightarrow> shared_ptr \<Rightarrow> store \<Rightarrow> unit result \<times> store" where
  "set_base f wrapper h = and_then (get_message_base_pinned wrapper, h)
     (\<lambda>a h. (Ok (), case messages h a of
        None \<Rightarrow> fault h
      | Some (m, n) \<Rightarrow> h\<lparr>messages := (messages h)(a \<mapsto> (m\<lparr>header := f (header m)\<rparr>, n))\<rparr>))"

definition payload_set_data :: "shared_ptr \<Rightarrow> u8 list \<Rightarrow> store \<Rightarrow> unit result \<times> store" where
  "payload_set_data wrapper data h = and_then (get_pinned wrapper, h)
     (\<lambda>a h. (Ok (), case payloads h a of
        None \<Rightarrow> fault h
      | Some (_, n) \<Rightarrow> h\<lparr>payloads := (payloads h)(a \<mapsto> (set_data_safe data, n))\<rparr>))"

definition payload_get_data :: "shared_ptr \<Rightarrow> store \<Rightarrow> u8 list result \<times> store" where
  "payload_get_data wrapper h = and_then (get_pinned wrapper, h)
     (\<lambda>a h. case payloads h a of
        None \<Rightarrow> (Ok [], fault h)
      | Some (p, _) \<Rightarrow> (Ok (get_data_safe p), h))"

text \<open>\<open>set_payload_raw\<close> dereferences the message without a check; the message gives up its old
  payload when it is assigned the new pointer.\<close>

definition message_set_payload :: "shared_ptr \<Rightarrow> shared_ptr \<Rightarrow> store \<Rightarrow> store" where
  "message_set_payload wrapper payload_wrapper h =
     (case raw_ptr wrapper of
        None \<Rightarrow> fault h
      | Some a \<Rightarrow>
          (case messages h a of
             None \<Rightarrow> fault h
           | Some (m, n) \<Rightarrow> drop_payload (attached m)
               (h\<lparr>messages := (messages h)(a \<mapsto>
                  (m\<lparr>attached := borrowed (raw_ptr payload_wrapper)\<rparr>, n))\<rparr>)))"

definition message_get_payload :: "shared_ptr \<Rightarrow> store \<Rightarrow> shared_ptr option \<times> store" where
  "message_get_payload wrapper h =
     (case raw_ptr wrapper of
        None \<Rightarrow> (None, h)
      | Some a \<Rightarrow>
          (case messages h a of
             None \<Rightarrow> (None, fault h)
           | Some (m, _) \<Rightarrow>
               (case raw_ptr (attached m) of
                  None \<Rightarrow> (None, h)
                | Some p \<Rightarrow> (Some (Borrowing p), h))))"

subsection \<open>What a pointer points to\<close>

definition payload_value :: "store \<Rightarrow> shared_ptr \<Rightarrow> vpayload option" where
  "payload_value h p = (case raw_ptr p of None \<Rightarrow> None | Some a \<Rightarrow> map_option fst (payloads h a))"

text \<open>The value of a message, \<open>None\<close> if it or its payload is no longer alive.\<close>

definition message_value :: "store \<Rightarrow> shared_ptr \<Rightarrow> vmessage option" where
  "message_value h p =
     (case raw_ptr p of
        None \<Rightarrow> None
      | Some a \<Rightarrow>
          (case messages h a of
             None \<Rightarrow> None
           | Some (m, _) \<Rightarrow>
               (case raw_ptr (attached m) of
                  None \<Rightarrow> Some ((header m)\<lparr>v_payload := None\<rparr>)
                | Some b \<Rightarrow> map_option (\<lambda>(d, _). (header m)\<lparr>v_payload := Some d\<rparr>) (payloads h b))))"

subsection \<open>Using the objects from the engine\<close>

record 'bm objects = "'bm core" +
  store :: store
  kept_messages :: "shared_ptr list"
  kept_payloads :: "shared_ptr list"

definition on_store :: "(store \<Rightarrow> 'a \<times> store) \<Rightarrow> 'bm objects \<Rightarrow> 'a \<times> 'bm objects" where
  "on_store f w = (let (x, h) = f (store w) in (x, w\<lparr>store := h\<rparr>))"

text \<open>A value going out of scope is dropped, also when the function returns early or unwinds.\<close>

definition leaving :: "(store \<Rightarrow> store) \<Rightarrow> 'a \<times> 'bm objects \<Rightarrow> 'a \<times> 'bm objects" where
  "leaving d r = (fst r, (snd r)\<lparr>store := d (store (snd r))\<rparr>)"

text \<open>A value that the function moves out when it succeeds, and drops otherwise.\<close>

fun unless_moved ::
  "(store \<Rightarrow> store) \<Rightarrow> 'a result \<times> 'bm objects \<Rightarrow> 'a result \<times> 'bm objects" where
  "unless_moved d (Ok x, w) = (Ok x, w)"
| "unless_moved d (r, w) = leaving d (r, w)"

text \<open>
  vsomeip reads the message or payload it is given during the call; whether it keeps the
  pointer for longer is up to it (\<open>keeps\<close>).
\<close>

definition app_send :: "bool \<Rightarrow> ApplicationName \<Rightarrow> shared_ptr \<Rightarrow> 'bm objects \<Rightarrow> 'bm objects" where
  "app_send keeps app msg w =
     (case message_value (store w) msg of
        None \<Rightarrow> w\<lparr>store := fault (store w)\<rparr>
      | Some m \<Rightarrow>
          let w = call_vs (SendMessage app m) w
          in if keeps then w\<lparr>kept_messages := kept_messages w @ [msg]\<rparr>
             else w\<lparr>store := drop_message msg (store w)\<rparr>)"

definition app_notify ::
  "bool \<Rightarrow> ApplicationName \<Rightarrow> ServiceId \<Rightarrow> InstanceId \<Rightarrow> EventId \<Rightarrow> shared_ptr \<Rightarrow> bool \<Rightarrow>
     'bm objects \<Rightarrow> 'bm objects" where
  "app_notify keeps app s i e p force w =
     (case payload_value (store w) p of
        None \<Rightarrow> w\<lparr>store := fault (store w)\<rparr>
      | Some d \<Rightarrow>
          let w = call_vs (Notify app s i e d force) w
          in if keeps then w\<lparr>kept_payloads := kept_payloads w @ [p]\<rparr>
             else w\<lparr>store := drop_payload p (store w)\<rparr>)"


subsection \<open>The conversions and the sending, on objects\<close>

definition request_to_message_object ::
  "up_rust_api \<Rightarrow> vsomeip_api \<Rightarrow> bool \<Rightarrow> umessage \<Rightarrow> ApplicationName \<Rightarrow> 'bm objects \<Rightarrow>
     shared_ptr result \<times> 'bm objects" where
  "request_to_message_object U V overflow_checks umsg app w =
     (case msg_source (attributes_of U umsg) of
        None \<Rightarrow> (Err INVALID_ARGUMENT, w)
      | Some source \<Rightarrow>
     (case msg_sink (attributes_of U umsg) of
        None \<Rightarrow> (Err INVALID_ARGUMENT, w)
      | Some sink \<Rightarrow>
          let (vsomeip_msg, w) = on_store (create_message (vs_create_request V)) w;
              set = (\<lambda>f. on_store (set_base f vsomeip_msg));
              (_, service_id) = split_u32_to_u16 (ue_id sink);
              (_, method_id) = split_u32_to_u16 (resource_id sink);
              (_, _, _, interface_version) = split_u32_to_u8 (ue_version_major sink)
          in unless_moved (drop_message vsomeip_msg)
               (and_then (set (v_service_update (\<lambda>_. service_id)) w) (\<lambda>_ w.
                and_then (set (v_instance_update (\<lambda>_. 1)) w) (\<lambda>_ w.
                and_then (set (v_method_update (\<lambda>_. method_id)) w) (\<lambda>_ w.
                and_then (set (v_interface_version_update (\<lambda>_. interface_version)) w) (\<lambda>_ w.
                case msg_id (attributes_of U umsg) of
                  None \<Rightarrow> (Err INVALID_ARGUMENT, w)
                | Some req_id \<Rightarrow>
                    let app_client_id = vs_get_client V (hist w) app
                    in and_then
                         (on_storage (storage_retrieve_session_id overflow_checks app_client_id) w)
                         (\<lambda>app_session_id w.
                            and_then (on_storage (storage_insert_ue_request_correlation
                                (create_request_id app_client_id app_session_id) req_id source) w)
                              (\<lambda>_ w. and_then (set (v_return_code_update (\<lambda>_. E_OK)) w)
                                 (\<lambda>_ w. (Ok vsomeip_msg, w)))))))))))"

definition response_to_message_object ::
  "up_rust_api \<Rightarrow> vsomeip_api \<Rightarrow> umessage \<Rightarrow> 'bm objects \<Rightarrow> shared_ptr result \<times> 'bm objects" where
  "response_to_message_object U V umsg w =
     (case msg_source (attributes_of U umsg) of
        None \<Rightarrow> (Err INVALID_ARGUMENT, w)
      | Some source \<Rightarrow>
          let (vsomeip_msg, w) = on_store (create_message (vs_create_message V)) w;
              set = (\<lambda>f. on_store (set_base f vsomeip_msg));
              (_, service_id) = split_u32_to_u16 (ue_id source);
              (_, method_id) = split_u32_to_u16 (resource_id source);
              (_, _, _, interface_version) = split_u32_to_u8 (ue_version_major source)
          in unless_moved (drop_message vsomeip_msg)
               (and_then (set (v_service_update (\<lambda>_. service_id)) w) (\<lambda>_ w.
                and_then (set (v_instance_update (\<lambda>_. 1)) w) (\<lambda>_ w.
                and_then (set (v_method_update (\<lambda>_. method_id)) w) (\<lambda>_ w.
                and_then (set (v_interface_version_update (\<lambda>_. interface_version)) w) (\<lambda>_ w.
                case msg_reqid (attributes_of U umsg) of
                  None \<Rightarrow> (Err INVALID_ARGUMENT, w)
                | Some req_id \<Rightarrow>
                    and_then (on_storage (storage_remove_me_request_correlation req_id) w)
                      (\<lambda>request_id w.
                         let (client_id, session_id) = split_u32_to_u16 request_id;
                             (commstatus, vsomeip_msg_type) =
                               (case msg_commstatus (attributes_of U umsg) of
                                  Some commstatus \<Rightarrow>
                                    (enum_value_or commstatus UNIMPLEMENTED, MT_ERROR)
                                | None \<Rightarrow> (UNIMPLEMENTED, MT_RESPONSE))
                         in and_then (set (v_client_update (\<lambda>_. client_id)) w) (\<lambda>_ w.
                            and_then (set (v_session_update (\<lambda>_. session_id)) w) (\<lambda>_ w.
                            and_then (set (v_return_code_update
                              (\<lambda>_. ucode_to_vsomeip_err_code commstatus)) w) (\<lambda>_ w.
                            and_then (set (v_message_type_update (\<lambda>_. vsomeip_msg_type)) w)
                              (\<lambda>_ w. (Ok vsomeip_msg, w))))))))))))"

text \<open>The payload is attached to the message, and a second pointer to the message handed over;
  the wrapper of the message then goes out of scope.\<close>

definition attach_and_send ::
  "bool \<Rightarrow> ApplicationName \<Rightarrow> shared_ptr \<Rightarrow> shared_ptr \<Rightarrow> 'bm objects \<Rightarrow>
     unit result \<times> 'bm objects" where
  "attach_and_send keeps app vsomeip_payload vsomeip_msg w =
     leaving (drop_message vsomeip_msg)
       (let w = w\<lparr>store := message_set_payload vsomeip_msg vsomeip_payload (store w)\<rparr>;
            w = w\<lparr>store := clone_message vsomeip_msg (store w)\<rparr>;
            shared_ptr_message = vsomeip_msg
        in (Ok (), app_send keeps app shared_ptr_message w))"

definition send_objects ::
  "up_rust_api \<Rightarrow> vsomeip_api \<Rightarrow> bool \<Rightarrow> bool \<Rightarrow> umessage \<Rightarrow> ApplicationName \<Rightarrow> 'bm objects \<Rightarrow>
     unit result \<times> 'bm objects" where
  "send_objects U V overflow_checks keeps umsg app w =
     (let bytes = (case payload umsg of Some bytes \<Rightarrow> bytes | None \<Rightarrow> []);
          (vsomeip_payload, w) = on_store create_payload w
      in leaving (drop_payload vsomeip_payload)
        (and_then (on_store (payload_set_data vsomeip_payload bytes) w) (\<lambda>_ w.
           let w = w\<lparr>store := clone_payload vsomeip_payload (store w)\<rparr>;
               attachable_payload = vsomeip_payload
           in case enum_value_or (msg_type (attributes_of U umsg)) UMESSAGE_TYPE_UNSPECIFIED of
                UMESSAGE_TYPE_UNSPECIFIED \<Rightarrow>
                  leaving (drop_payload attachable_payload) (Err INVALID_ARGUMENT, w)
              | UMESSAGE_TYPE_NOTIFICATION \<Rightarrow>
                  leaving (drop_payload attachable_payload) (Err INVALID_ARGUMENT, w)
              | UMESSAGE_TYPE_PUBLISH \<Rightarrow>
                  unless_moved (drop_payload attachable_payload)
                    (and_then (umsg_publish_to_vsomeip_notification U V umsg app w)
                      (\<lambda>(service_id, instance_id, event_id) w.
                         (Ok (), app_notify keeps app service_id instance_id event_id
                                   attachable_payload True w)))
              | UMESSAGE_TYPE_REQUEST \<Rightarrow>
                  leaving (drop_payload attachable_payload)
                    (and_then (request_to_message_object U V overflow_checks umsg app w)
                      (attach_and_send keeps app vsomeip_payload))
              | UMESSAGE_TYPE_RESPONSE \<Rightarrow>
                  leaving (drop_payload attachable_payload)
                    (and_then (response_to_message_object U V umsg w)
                      (attach_and_send keeps app vsomeip_payload)))))"

text \<open>The message vsomeip hands over is wrapped and read through its payload wrapper.\<close>

definition convert_message_object ::
  "up_rust_api \<Rightarrow> vsomeip_api \<Rightarrow> nat \<Rightarrow> AuthorityName \<Rightarrow> uuri \<Rightarrow> AuthorityName \<Rightarrow> shared_ptr \<Rightarrow>
     'bm objects \<Rightarrow> umessage result \<times> 'bm objects" where
  "convert_message_object U V n authority self_uuri remote vsomeip_message w =
     and_then (get_message_base_pinned vsomeip_message, w) (\<lambda>_ w.
       case message_value (store w) vsomeip_message of
         None \<Rightarrow> (Err INTERNAL, w\<lparr>store := fault (store w)\<rparr>)
       | Some m \<Rightarrow>
           let (payload_wrapper, w) = on_store (message_get_payload vsomeip_message) w
           in case payload_wrapper of
                None \<Rightarrow> (Err INTERNAL, w)
              | Some p \<Rightarrow>
                  and_then (leaving (drop_payload p) (on_store (payload_get_data p) w))
                    (\<lambda>payload_bytes w.
                       case v_message_type m of
                         MT_REQUEST \<Rightarrow> convert_vsomeip_mt_request_to_umsg U V n authority self_uuri
                           remote m payload_bytes w
                       | MT_NOTIFICATION \<Rightarrow> convert_vsomeip_mt_notification_to_umsg U n
                           remote m payload_bytes w
                       | MT_RESPONSE \<Rightarrow> convert_vsomeip_mt_response_to_umsg U V n
                           remote m payload_bytes w
                       | MT_ERROR \<Rightarrow> convert_vsomeip_mt_error_to_umsg U V n
                           remote m payload_bytes w
                       | MT_OTHER _ \<Rightarrow> (Err OUT_OF_RANGE, w)))"

definition execute_objects ::
  "up_rust_api \<Rightarrow> vsomeip_api \<Rightarrow> (nat set \<Rightarrow> nat) \<Rightarrow> bool \<Rightarrow> bool \<Rightarrow> string option \<Rightarrow> command \<Rightarrow>
     'bm objects \<Rightarrow> unit result \<times> 'bm objects" where
  "execute_objects U V pick overflow_checks keeps config cmd w =
     (case cmd of
        Send umsg message_type app \<Rightarrow>
          (case get_application V (hist w) app of
             None \<Rightarrow> (Err INTERNAL, w)
           | Some application_wrapper \<Rightarrow>
               send_objects U V overflow_checks keeps umsg application_wrapper w)
      | _ \<Rightarrow> execute U V pick overflow_checks config cmd w)"

fun event_loop_objects ::
  "up_rust_api \<Rightarrow> vsomeip_api \<Rightarrow> (nat set \<Rightarrow> nat) \<Rightarrow> bool \<Rightarrow> bool \<Rightarrow> string option \<Rightarrow> command list \<Rightarrow>
     'bm objects \<Rightarrow> unit result list \<times> bool \<times> 'bm objects" where
  "event_loop_objects U V pick oc keeps config [] w = ([], True, w)"
| "event_loop_objects U V pick oc keeps config (cmd # cmds) w =
     (case execute_objects U V pick oc keeps config cmd w of
        (Panic, w) \<Rightarrow> ([], False, w)
      | (res, w) \<Rightarrow>
          let (answers, alive, w) = event_loop_objects U V pick oc keeps config cmds w
          in (res # answers, alive, w))"

end
