(* ===== verification/Glue_Safety.thy ===== *)
theory Glue_Safety
  imports Glue_Objects Engine_Properties
begin

text \<open>
  What the engine does on the objects of \<open>Glue_Objects\<close> refines what it does on values: the
  same results and the same calls, without an access to a dead object and without a leak.
\<close>

subsection \<open>Objects and the rest of the state\<close>

lemma on_store_simp: "on_store f w = (fst (f (store w)), w\<lparr>store := snd (f (store w))\<rparr>)"
  by (simp add: on_store_def case_prod_unfold Let_def)

lemma on_storage_store:
  "on_storage f (w\<lparr>store := h\<rparr>) = leaving (\<lambda>_. h) (on_storage f w)"
  by (simp add: leaving_def on_storage_def case_prod_unfold Let_def)

lemma call_vs_store: "call_vs c (w\<lparr>store := h\<rparr>) = (call_vs c w)\<lparr>store := h\<rparr>"
  by (simp add: call_vs_def)

lemma and_then_leaving:
  assumes "\<And>a v. f a (v\<lparr>store := h\<rparr>) = leaving (\<lambda>_. h) (g a v)"
  shows "and_then (leaving (\<lambda>_. h) r) f = leaving (\<lambda>_. h) (and_then r g)"
  using assms by (cases r; cases "fst r") (auto simp: leaving_def)

lemma leaving_pair: "leaving d (r, w) = (r, w\<lparr>store := d (store w)\<rparr>)"
  by (simp add: leaving_def)

lemmas store_commutes = on_storage_store call_vs_store and_then_leaving leaving_pair

lemma publish_store:
  "umsg_publish_to_vsomeip_notification U V umsg app (w\<lparr>store := h\<rparr>) =
     leaving (\<lambda>_. h) (umsg_publish_to_vsomeip_notification U V umsg app w)"
  by (simp add: umsg_publish_to_vsomeip_notification_def case_prod_unfold Let_def leaving_def
      on_storage_store call_vs_store split: option.split)

lemma request_store:
  "umsg_request_to_vsomeip_message U V oc umsg app (w\<lparr>store := h\<rparr>) =
     leaving (\<lambda>_. h) (umsg_request_to_vsomeip_message U V oc umsg app w)"
  by (auto simp: umsg_request_to_vsomeip_message_def split_simps store_commutes split: option.split)

lemma response_store:
  "umsg_response_to_vsomeip_message U V umsg (w\<lparr>store := h\<rparr>) =
     leaving (\<lambda>_. h) (umsg_response_to_vsomeip_message U V umsg w)"
  by (auto simp: umsg_response_to_vsomeip_message_def split_simps store_commutes split: option.split)

text \<open>No access has gone wrong, and the addresses not yet given out are free.\<close>

definition store_ok :: "store \<Rightarrow> bool" where
  "store_ok h \<longleftrightarrow> intact h \<and> (\<forall>a \<ge> next_addr h. payloads h a = None \<and> messages h a = None)"

lemma store_okD:
  "store_ok h \<Longrightarrow> intact h" "store_ok h \<Longrightarrow> next_addr h \<le> a \<Longrightarrow> payloads h a = None"
  "store_ok h \<Longrightarrow> next_addr h \<le> a \<Longrightarrow> messages h a = None"
  by (simp_all add: store_ok_def)

text \<open>The store with one more message, and the result with a pointer to it.\<close>

definition with_message :: "vmessage \<Rightarrow> store \<Rightarrow> store" where
  "with_message m h = snd (create_message m h)"

lemma with_message_simps [simp]:
  "messages (with_message m h) = (messages h)(next_addr h \<mapsto> (\<lparr>header = m, attached = Empty\<rparr>, 1))"
  "payloads (with_message m h) = payloads h" "intact (with_message m h) = intact h"
  "next_addr (with_message m h) = Suc (next_addr h)"
  by (simp_all add: with_message_def create_message_def)

lemma create_message_with: "create_message m h = (Owning (next_addr h), with_message m h)"
  by (simp add: with_message_def create_message_def)

lemma set_base_new [simp]:
  "set_base f (Owning (next_addr h)) (with_message m h) = (Ok (), with_message (f m) h)"
  by (simp add: set_base_def get_message_base_pinned_def with_message_def create_message_def)

lemma drop_new_message:
  "store_ok h \<Longrightarrow> drop_message (Owning (next_addr h)) (with_message m h) = h\<lparr>next_addr := Suc (next_addr h)\<rparr>"
  using store_okD(3) [of h "next_addr h"]
  by (cases h) (simp add: with_message_def create_message_def fun_upd_idem)

lemma store_on_storage [simp]: "store (snd (on_storage f w)) = store w"
  by (simp add: on_storage_def case_prod_unfold Let_def)

lemma store_call_vs [simp]: "store (call_vs c w) = store w"
  by (simp add: call_vs_def)

lemma request_to_message_object_refines:
  assumes ok: "store_ok (store w)"
  shows "\<exists>k \<ge> next_addr (store w). request_to_message_object U V oc umsg app w =
    (case umsg_request_to_vsomeip_message U V oc umsg app w of
       (Ok m, v) \<Rightarrow> (Ok (Owning (next_addr (store w))), v\<lparr>store := with_message m (store w)\<rparr>)
     | (Err e, v) \<Rightarrow> (Err e, v\<lparr>store := (store w)\<lparr>next_addr := k\<rparr>\<rparr>)
     | (Panic, v) \<Rightarrow> (Panic, v\<lparr>store := (store w)\<lparr>next_addr := k\<rparr>\<rparr>))"
proof (cases "\<exists>src snk. msg_source (attributes_of U umsg) = Some src \<and>
    msg_sink (attributes_of U umsg) = Some snk")
  case False
  then show ?thesis
    by (intro exI [of _ "next_addr (store w)"])
      (auto simp: request_to_message_object_def umsg_request_to_vsomeip_message_def split: option.split)
next
  case True
  then obtain src snk where attrs: "msg_source (attributes_of U umsg) = Some src"
    "msg_sink (attributes_of U umsg) = Some snk" by blast
  show ?thesis
  proof (cases "msg_id (attributes_of U umsg)")
    case None
    with attrs show ?thesis
      by (intro exI [of _ "Suc (next_addr (store w))"])
        (simp add: request_to_message_object_def umsg_request_to_vsomeip_message_def split_simps
          on_store_simp create_message_with leaving_def drop_new_message [OF ok]
          del: drop_message.simps)
  next
    case (Some i)
    let ?c = "vs_get_client V (hist w) app"
    obtain r u where r: "on_storage (storage_retrieve_session_id oc ?c) w = (r, u)" by fastforce
    have u: "store u = store w" using store_on_storage [of "storage_retrieve_session_id oc ?c" w] r by simp
    obtain r' v where r': "on_storage (storage_insert_ue_request_correlation
        (create_request_id ?c (case r of Ok s \<Rightarrow> s | _ \<Rightarrow> 0)) i src) u = (r', v)" by fastforce
    have v: "store v = store w"
      using store_on_storage [of "storage_insert_ue_request_correlation
        (create_request_id ?c (case r of Ok s \<Rightarrow> s | _ \<Rightarrow> 0)) i src" u] r' u by simp
    from attrs Some r r' u v show ?thesis
      by (intro exI [of _ "Suc (next_addr (store w))"]; cases r; cases r')
        (simp_all add: request_to_message_object_def umsg_request_to_vsomeip_message_def split_simps
          on_store_simp create_message_with leaving_def drop_new_message [OF ok] on_storage_store
          del: drop_message.simps)
  qed
qed

lemma response_to_message_object_refines:
  assumes ok: "store_ok (store w)"
  shows "\<exists>k \<ge> next_addr (store w). response_to_message_object U V umsg w =
    (case umsg_response_to_vsomeip_message U V umsg w of
       (Ok m, v) \<Rightarrow> (Ok (Owning (next_addr (store w))), v\<lparr>store := with_message m (store w)\<rparr>)
     | (Err e, v) \<Rightarrow> (Err e, v\<lparr>store := (store w)\<lparr>next_addr := k\<rparr>\<rparr>)
     | (Panic, v) \<Rightarrow> (Panic, v\<lparr>store := (store w)\<lparr>next_addr := k\<rparr>\<rparr>))"
proof (cases "msg_source (attributes_of U umsg)")
  case None
  then show ?thesis
    by (intro exI [of _ "next_addr (store w)"])
      (simp add: response_to_message_object_def umsg_response_to_vsomeip_message_def)
next
  case (Some src)
  note src = this
  show ?thesis
  proof (cases "msg_reqid (attributes_of U umsg)")
    case None
    with src show ?thesis
      by (intro exI [of _ "Suc (next_addr (store w))"])
        (simp add: response_to_message_object_def umsg_response_to_vsomeip_message_def split_simps
          on_store_simp create_message_with leaving_def drop_new_message [OF ok]
          del: drop_message.simps)
  next
    case (Some i)
    obtain r v where r: "on_storage (storage_remove_me_request_correlation i) w = (r, v)" by fastforce
    have "store v = store w"
      using store_on_storage [of "storage_remove_me_request_correlation i" w] r by simp
    with src Some r show ?thesis
      by (intro exI [of _ "Suc (next_addr (store w))"]; cases r)
        (simp_all add: response_to_message_object_def umsg_response_to_vsomeip_message_def split_simps
          on_store_simp create_message_with leaving_def drop_new_message [OF ok] on_storage_store
          split: option.split del: drop_message.simps)
  qed
qed


lemma attach_and_send_new:
  assumes ok: "store_ok h" and p: "payloads h a = Some (d, n)"
  shows "attach_and_send keeps app (Owning a) (Owning (next_addr h)) (v\<lparr>store := with_message m h\<rparr>) =
    (Ok (), (call_vs (SendMessage app (set_message_payload d m)) v)
       \<lparr>store := h\<lparr>next_addr := Suc (next_addr h), messages := if keeps then (messages h)(next_addr h \<mapsto>
           (\<lparr>header = m, attached = Borrowing a\<rparr>, 1)) else messages h\<rparr>,
        kept_messages := if keeps then kept_messages v @ [Owning (next_addr h)] else kept_messages v\<rparr>)"
  using store_okD(3) [OF ok, of "next_addr h"] p
  by (cases h; cases v)
    (simp add: attach_and_send_def leaving_def message_set_payload_def with_message_def
      create_message_def app_send_def message_value_def set_message_payload_def call_vs_def Let_def
      fun_upd_idem)

text \<open>The store after the payload has been made, filled and given a second owner.\<close>

definition with_payload :: "vpayload \<Rightarrow> nat \<Rightarrow> store \<Rightarrow> store" where
  "with_payload d n h =
     h\<lparr>payloads := (payloads h)(next_addr h \<mapsto> (d, n)), next_addr := Suc (next_addr h)\<rparr>"

lemma with_payload_simps [simp]:
  "payloads (with_payload d n h) = (payloads h)(next_addr h \<mapsto> (d, n))"
  "messages (with_payload d n h) = messages h" "intact (with_payload d n h) = intact h"
  "next_addr (with_payload d n h) = Suc (next_addr h)"
  by (simp_all add: with_payload_def)

lemma store_ok_with_payload: "store_ok h \<Longrightarrow> store_ok (with_payload d n h)"
  by (simp add: store_ok_def)

lemma payload_new [simp]:
  "create_payload h = (Owning (next_addr h), with_payload None 1 h)"
  "payload_set_data (Owning (next_addr h)) bytes (with_payload d n h) =
     (Ok (), with_payload (set_data_safe bytes) n h)"
  "clone_payload (Owning (next_addr h)) (with_payload d n h) = with_payload d (Suc n) h"
  by (simp_all add: create_payload_def payload_set_data_def get_pinned_def with_payload_def)

text \<open>The two owners go, whatever has happened to the messages and the addresses meanwhile.\<close>

lemma drop_payload_new:
  assumes "store_ok h"
  shows "drop_payload (Owning (next_addr h)) ((with_payload d 2 h)\<lparr>next_addr := k, messages := ms\<rparr>) =
      (with_payload d 1 h)\<lparr>next_addr := k, messages := ms\<rparr>"
    "drop_payload (Owning (next_addr h)) ((with_payload d 1 h)\<lparr>next_addr := k, messages := ms\<rparr>) =
      h\<lparr>next_addr := k, messages := ms\<rparr>"
  using store_okD(2) [OF assms, of "next_addr h"]
  by (cases h; simp add: with_payload_def fun_upd_idem)+


declare clone_payload.simps [simp del] drop_payload.simps [simp del]

abbreviation body_of :: "umessage \<Rightarrow> u8 list" where
  "body_of umsg \<equiv> (case payload umsg of Some bytes \<Rightarrow> bytes | None \<Rightarrow> [])"

lemma with_payload_next: "(with_payload d n h)\<lparr>next_addr := Suc (next_addr h)\<rparr> = with_payload d n h"
  by (simp add: with_payload_def)

lemma drop_payload_new_plain:
  assumes "store_ok h"
  shows "drop_payload (Owning (next_addr h)) (with_payload d 2 h) = with_payload d 1 h"
    "drop_payload (Owning (next_addr h)) (with_payload d 1 h) = h\<lparr>next_addr := Suc (next_addr h)\<rparr>"
  using drop_payload_new [OF assms, where d = d and k = "Suc (next_addr h)" and ms = "messages h"]
  by (simp_all add: with_payload_def)

lemma send_objects_publish:
  assumes ok: "store_ok (store w)"
    and t: "enum_value_or (msg_type (attributes_of U umsg)) UMESSAGE_TYPE_UNSPECIFIED = UMESSAGE_TYPE_PUBLISH"
  shows "send_objects U V oc keeps umsg app w =
    (case umsg_publish_to_vsomeip_notification U V umsg app w of
       (Ok (s, i, e), v) \<Rightarrow> (Ok (), (call_vs (Notify app s i e (set_data_safe (body_of umsg)) True) v)
          \<lparr>store := if keeps then with_payload (set_data_safe (body_of umsg)) 1 (store w)
                   else (store w)\<lparr>next_addr := Suc (next_addr (store w))\<rparr>,
           kept_payloads := if keeps then kept_payloads v @ [Owning (next_addr (store w))]
                            else kept_payloads v\<rparr>)
     | (Err x, v) \<Rightarrow> (Err x, v\<lparr>store := (store w)\<lparr>next_addr := Suc (next_addr (store w))\<rparr>\<rparr>)
     | (Panic, v) \<Rightarrow> (Panic, v\<lparr>store := (store w)\<lparr>next_addr := Suc (next_addr (store w))\<rparr>\<rparr>))"
proof -
  obtain r v where r: "umsg_publish_to_vsomeip_notification U V umsg app w = (r, v)" by fastforce
  note drops = drop_payload_new_plain [OF ok, unfolded numeral_2_eq_2 One_nat_def]
  show ?thesis
    using t r
    by (cases r)
      (auto simp: send_objects_def on_store_simp publish_store leaving_def drops app_notify_def
        payload_value_def Let_def call_vs_store call_vs_def)
qed


text \<open>A request or a response: the conversion gives a message or fails; \<open>object\<close> is what it gives on
  the store, by the lemmas above.\<close>

lemma send_message_object:
  assumes ok: "store_ok h" and d: "d = set_data_safe bytes"
    and object: "object = (case conv of
       (Ok m, v) \<Rightarrow> (Ok (Owning (Suc (next_addr h))), v\<lparr>store := with_message m (with_payload d 2 h)\<rparr>)
     | (Err e, v) \<Rightarrow> (Err e, v\<lparr>store := (with_payload d 2 h)\<lparr>next_addr := k\<rparr>\<rparr>)
     | (Panic, v) \<Rightarrow> (Panic, v\<lparr>store := (with_payload d 2 h)\<lparr>next_addr := k\<rparr>\<rparr>))"
  shows "leaving (drop_payload (Owning (next_addr h))) (leaving (drop_payload (Owning (next_addr h)))
      (and_then object (attach_and_send keeps app (Owning (next_addr h))))) =
    (case conv of
       (Ok m, v) \<Rightarrow> (Ok (), (call_vs (SendMessage app (set_message_payload d m)) v)
         \<lparr>store := h\<lparr>next_addr := Suc (Suc (next_addr h)),
            messages := if keeps then (messages h)(Suc (next_addr h) \<mapsto>
              (\<lparr>header = m, attached = Borrowing (next_addr h)\<rparr>, 1)) else messages h\<rparr>,
          kept_messages := if keeps then kept_messages v @ [Owning (Suc (next_addr h))]
                           else kept_messages v\<rparr>)
     | (Err e, v) \<Rightarrow> (Err e, v\<lparr>store := h\<lparr>next_addr := k\<rparr>\<rparr>)
     | (Panic, v) \<Rightarrow> (Panic, v\<lparr>store := h\<lparr>next_addr := k\<rparr>\<rparr>))"
proof -
  obtain r v where r: "conv = (r, v)" by fastforce
  note drops = drop_payload_new [OF ok, unfolded numeral_2_eq_2 One_nat_def]
  have drops': "drop_payload (Owning (next_addr h))
      (drop_payload (Owning (next_addr h)) ((with_payload d 2 h)\<lparr>next_addr := j\<rparr>)) = h\<lparr>next_addr := j\<rparr>" for j
    using drop_payload_new [OF ok, where d = d and k = j and ms = "messages h"]
    by (cases h) (simp add: with_payload_def)
  have sent: "attach_and_send keeps app (Owning (next_addr h)) (Owning (Suc (next_addr h)))
      (v\<lparr>store := with_message m (with_payload d 2 h)\<rparr>) =
    (Ok (), (call_vs (SendMessage app (set_message_payload d m)) v)
       \<lparr>store := (with_payload d 2 h)\<lparr>next_addr := Suc (Suc (next_addr h)),
          messages := if keeps then (messages h)(Suc (next_addr h) \<mapsto>
           (\<lparr>header = m, attached = Borrowing (next_addr h)\<rparr>, 1)) else messages h\<rparr>,
        kept_messages := if keeps then kept_messages v @ [Owning (Suc (next_addr h))]
                         else kept_messages v\<rparr>)" for m
    using attach_and_send_new [OF store_ok_with_payload [OF ok, of d 2], of "next_addr h" d 2,
        where keeps = keeps and app = app and v = v and m = m]
    by simp
  show ?thesis
    using r unfolding object
    by (cases r) (simp_all add: sent leaving_def drops' drop_payload_new [OF ok, simplified])
qed



text \<open>What \<open>send_objects\<close> returns and leaves, in terms of \<open>send_internal\<close>.\<close>

definition sent_objects ::
  "bool \<Rightarrow> umessage_type \<Rightarrow> vpayload \<Rightarrow> store \<Rightarrow> unit result \<times> 'bm objects \<Rightarrow> 'bm objects \<Rightarrow> bool" where
  "sent_objects keeps t d h rv v' \<longleftrightarrow> (\<exists>k \<ge> next_addr h. case rv of (r, v) \<Rightarrow>
     if r \<noteq> Ok () \<or> \<not> keeps then v' = v\<lparr>store := h\<lparr>next_addr := k\<rparr>\<rparr>
     else if t = UMESSAGE_TYPE_PUBLISH then
       v' = v\<lparr>store := with_payload d 1 h, kept_payloads := kept_payloads v @ [Owning (next_addr h)]\<rparr>
     else \<exists>m. v' = v\<lparr>store := h\<lparr>next_addr := Suc (Suc (next_addr h)),
           messages := (messages h)(Suc (next_addr h) \<mapsto>
             (\<lparr>header = m, attached = Borrowing (next_addr h)\<rparr>, 1))\<rparr>,
         kept_messages := kept_messages v @ [Owning (Suc (next_addr h))]\<rparr>)"

lemma store_publish [simp]:
  "store (snd (umsg_publish_to_vsomeip_notification U V umsg app w)) = store w"
  by (simp add: umsg_publish_to_vsomeip_notification_def case_prod_unfold Let_def split: option.split)

lemma send_objects_unfold:
  "send_objects U V oc keeps umsg app w =
     (let p = Owning (next_addr (store w)); w = w\<lparr>store := with_payload (set_data_safe (body_of umsg)) 2 (store w)\<rparr>
      in leaving (drop_payload p)
        (case enum_value_or (msg_type (attributes_of U umsg)) UMESSAGE_TYPE_UNSPECIFIED of
                UMESSAGE_TYPE_UNSPECIFIED \<Rightarrow> leaving (drop_payload p) (Err INVALID_ARGUMENT, w)
              | UMESSAGE_TYPE_NOTIFICATION \<Rightarrow> leaving (drop_payload p) (Err INVALID_ARGUMENT, w)
              | UMESSAGE_TYPE_PUBLISH \<Rightarrow>
                  unless_moved (drop_payload p)
                    (and_then (umsg_publish_to_vsomeip_notification U V umsg app w)
                      (\<lambda>(service_id, instance_id, event_id) w.
                         (Ok (), app_notify keeps app service_id instance_id event_id p True w)))
              | UMESSAGE_TYPE_REQUEST \<Rightarrow> leaving (drop_payload p)
                    (and_then (request_to_message_object U V oc umsg app w) (attach_and_send keeps app p))
              | UMESSAGE_TYPE_RESPONSE \<Rightarrow> leaving (drop_payload p)
                    (and_then (response_to_message_object U V umsg w) (attach_and_send keeps app p))))"
  by (cases "enum_value_or (msg_type (attributes_of U umsg)) UMESSAGE_TYPE_UNSPECIFIED")
    (simp_all add: send_objects_def on_store_simp Let_def numeral_2_eq_2)

lemma send_objects_sent:
  assumes ok: "store_ok (store w)"
    and sent: "send_objects U V oc keeps umsg app w = (r, v')"
  shows "r = fst (send_internal U V oc umsg app w)"
    "sent_objects keeps (enum_value_or (msg_type (attributes_of U umsg)) UMESSAGE_TYPE_UNSPECIFIED)
       (set_data_safe (body_of umsg)) (store w) (send_internal U V oc umsg app w) v'"
proof -
  let ?h = "store w" and ?d = "set_data_safe (body_of umsg)"
  let ?w = "w\<lparr>store := with_payload ?d 2 ?h\<rparr>"
  have ok2: "store_ok (store ?w)" using store_ok_with_payload [OF ok] by simp
  note drops = drop_payload_new_plain [OF ok] drop_payload_new_plain [OF ok, unfolded One_nat_def]
  have "r = fst (send_internal U V oc umsg app w) \<and>
    sent_objects keeps (enum_value_or (msg_type (attributes_of U umsg)) UMESSAGE_TYPE_UNSPECIFIED)
       ?d ?h (send_internal U V oc umsg app w) v'"
  proof (cases "enum_value_or (msg_type (attributes_of U umsg)) UMESSAGE_TYPE_UNSPECIFIED")
    case UMESSAGE_TYPE_REQUEST
    obtain x v where conv: "umsg_request_to_vsomeip_message U V oc umsg app w = (x, v)" by fastforce
    from request_to_message_object_refines [OF ok2, of U V oc umsg app] obtain k where
      "k \<ge> Suc (next_addr ?h)" "request_to_message_object U V oc umsg app ?w = (case (x, v) of
         (Ok m, v) \<Rightarrow> (Ok (Owning (Suc (next_addr ?h))), v\<lparr>store := with_message m (with_payload ?d 2 ?h)\<rparr>)
       | (Err e, v) \<Rightarrow> (Err e, v\<lparr>store := (with_payload ?d 2 ?h)\<lparr>next_addr := k\<rparr>\<rparr>)
       | (Panic, v) \<Rightarrow> (Panic, v\<lparr>store := (with_payload ?d 2 ?h)\<lparr>next_addr := k\<rparr>\<rparr>))"
      using conv by (cases x) (auto simp: request_store leaving_pair)
    with send_message_object [OF ok refl this(2), of keeps app] sent UMESSAGE_TYPE_REQUEST conv
    show ?thesis
      by (cases x) (auto simp: send_objects_unfold send_internal_def sent_objects_def Let_def call_vs_def
          intro!: exI [of _ "case x of Ok _ \<Rightarrow> Suc (Suc (next_addr ?h)) | _ \<Rightarrow> k"])
  next
    case UMESSAGE_TYPE_RESPONSE
    obtain x v where conv: "umsg_response_to_vsomeip_message U V umsg w = (x, v)" by fastforce
    from response_to_message_object_refines [OF ok2, of U V umsg] obtain k where
      "k \<ge> Suc (next_addr ?h)" "response_to_message_object U V umsg ?w = (case (x, v) of
         (Ok m, v) \<Rightarrow> (Ok (Owning (Suc (next_addr ?h))), v\<lparr>store := with_message m (with_payload ?d 2 ?h)\<rparr>)
       | (Err e, v) \<Rightarrow> (Err e, v\<lparr>store := (with_payload ?d 2 ?h)\<lparr>next_addr := k\<rparr>\<rparr>)
       | (Panic, v) \<Rightarrow> (Panic, v\<lparr>store := (with_payload ?d 2 ?h)\<lparr>next_addr := k\<rparr>\<rparr>))"
      using conv by (cases x) (auto simp: response_store leaving_pair)
    with send_message_object [OF ok refl this(2), of keeps app] sent UMESSAGE_TYPE_RESPONSE conv
    show ?thesis
      by (cases x) (auto simp: send_objects_unfold send_internal_def sent_objects_def Let_def call_vs_def
          intro!: exI [of _ "case x of Ok _ \<Rightarrow> Suc (Suc (next_addr ?h)) | _ \<Rightarrow> k"])
  next
    case UMESSAGE_TYPE_PUBLISH
    obtain x v where conv: "umsg_publish_to_vsomeip_notification U V umsg app w = (x, v)" by fastforce
    with send_objects_publish [OF ok, of U umsg V oc keeps app] sent UMESSAGE_TYPE_PUBLISH
    show ?thesis
      by (cases x) (auto simp: send_internal_def sent_objects_def Let_def call_vs_def
          intro!: exI [of _ "Suc (next_addr ?h)"])
  next
    case UMESSAGE_TYPE_UNSPECIFIED
    with sent show ?thesis
      by (auto simp: send_objects_unfold send_internal_def sent_objects_def leaving_pair drops Let_def
          intro!: exI [of _ "Suc (next_addr ?h)"])
  next
    case UMESSAGE_TYPE_NOTIFICATION
    with sent show ?thesis
      by (auto simp: send_objects_unfold send_internal_def sent_objects_def leaving_pair drops Let_def
          intro!: exI [of _ "Suc (next_addr ?h)"])
  qed
  then show "r = fst (send_internal U V oc umsg app w)"
    "sent_objects keeps (enum_value_or (msg_type (attributes_of U umsg)) UMESSAGE_TYPE_UNSPECIFIED)
       ?d ?h (send_internal U V oc umsg app w) v'" by blast+
qed


subsection \<open>A state for the witnesses\<close>

definition empty_store :: store where
  "empty_store = \<lparr>payloads = Map.empty, messages = Map.empty, next_addr = 0, intact = True\<rparr>"

definition demo_objects :: "pairs objects" where
  "demo_objects = \<lparr>statics = new_trait_obj statics_init, hist = demo_app, self = 0,
     storage = demo_storage pair_bimap, store = empty_store, kept_messages = [], kept_payloads = []\<rparr>"

lemma demo_objects_fields [simp]:
  "hist demo_objects = demo_app" "storage demo_objects = demo_storage pair_bimap"
  "store demo_objects = empty_store" "ue_table demo_objects = Map.empty"
  "session_table demo_objects = Map.empty" "kept_messages demo_objects = []"
  "kept_payloads demo_objects = []"
  by (simp_all add: demo_objects_def table_defs demo_storage_def transport_storage_new_def
      rpc_correlation_new_def)

lemma empty_store_ok [simp]: "store_ok empty_store"
  by (simp add: store_ok_def empty_store_def)

subsection \<open>Properties\<close>

lemma sent_objects_rest:
  "sent_objects keeps t d h (r, v) v' \<Longrightarrow>
     statics v' = statics v \<and> hist v' = hist v \<and> self v' = self v \<and> storage v' = storage v"
  by (auto simp: sent_objects_def split: if_splits)

lemma sent_objects_store_ok:
  assumes "sent_objects keeps t d h (r, v) v'" "store_ok h" shows "store_ok (store v')"
  using assms by (auto simp: sent_objects_def store_ok_def split: if_splits)

lemma sent_objects_memory:
  assumes "sent_objects keeps t d h (r, v) v'" "\<not> (keeps \<and> r = Ok ())"
  shows "payloads (store v') = payloads h \<and> messages (store v') = messages h"
  using assms by (auto simp: sent_objects_def)

subsection \<open>The engine on objects\<close>

text \<open>The rest of the engine does not see the objects.\<close>

definition place :: "store \<times> shared_ptr list \<times> shared_ptr list \<Rightarrow> 'bm objects \<Rightarrow> 'bm objects" where
  "place x w = (case x of (h, ms, ps) \<Rightarrow> w\<lparr>store := h, kept_messages := ms, kept_payloads := ps\<rparr>)"

lemma place_simps [simp]:
  "statics (place x w) = statics w" "hist (place x w) = hist w" "self (place x w) = self w"
  "storage (place x w) = storage w" "store (place x w) = fst x"
  "(place x w)\<lparr>statics := g\<rparr> = place x (w\<lparr>statics := g\<rparr>)"
  by (cases x; cases w; simp add: place_def)+

named_theorems placed \<open>operations that do not see the objects\<close>

lemma on_storage_place [placed]: "on_storage f (place x w) = apsnd (place x) (on_storage f w)"
  by (cases x) (simp add: on_storage_def place_def case_prod_unfold Let_def)

lemma on_statics_place [placed]: "on_statics f (place x w) = apsnd (place x) (on_statics f w)"
  by (cases x) (simp add: on_statics_def place_def case_prod_unfold Let_def)

lemma call_vs_place [placed]: "call_vs c (place x w) = place x (call_vs c w)"
  by (cases x) (simp add: call_vs_def place_def)

lemma and_then_place [placed]:
  assumes "\<And>a v. f a (place x v) = apsnd (place x) (g a v)"
  shows "and_then (apsnd (place x) r) f = apsnd (place x) (and_then r g)"
  using assms by (cases r; cases "fst r") auto

lemma start_thread_place [placed]: "start_thread V app (place x w) = apsnd (place x) (start_thread V app w)"
  by (simp add: start_thread_def placed split: option.split)

lemma create_app_place [placed]:
  "create_app V pick app config (place x w) = apsnd (place x) (create_app V pick app config w)"
  by (auto simp: create_app_def placed storage_find_state_handler_id_def storage_get_state_handler_def
      storage_free_state_handler_id_def Let_def case_prod_unfold split: option.split outcome.split)

lemma conversions_place [placed]:
  "umsg_publish_to_vsomeip_notification U V umsg app (place x w) =
     apsnd (place x) (umsg_publish_to_vsomeip_notification U V umsg app w)"
  "umsg_request_to_vsomeip_message U V oc umsg app (place x w) =
     apsnd (place x) (umsg_request_to_vsomeip_message U V oc umsg app w)"
  "umsg_response_to_vsomeip_message U V umsg (place x w) =
     apsnd (place x) (umsg_response_to_vsomeip_message U V umsg w)"
  by (auto simp: umsg_publish_to_vsomeip_notification_def umsg_request_to_vsomeip_message_def
      umsg_response_to_vsomeip_message_def placed case_prod_unfold Let_def split: option.split)

lemma send_internal_place [placed]:
  "send_internal U V oc umsg app (place x w) = apsnd (place x) (send_internal U V oc umsg app w)"
  by (auto simp: send_internal_def placed case_prod_unfold Let_def split: umessage_type.split)

lemma execute_place:
  "execute U V pick oc config cmd (place x w) = apsnd (place x) (execute U V pick oc config cmd w)"
  by (auto simp: execute_def placed start_vsomeip_app_internal_def stop_vsomeip_app_internal_def
      register_listener_internal_def unregister_listener_internal_def case_prod_unfold Let_def
      split: command.split option.split registration_type.split)

lemma place_place [simp]: "place x (place y w) = place x w"
  by (cases x; cases y; cases w) (simp add: place_def)

lemma event_loop_place:
  "event_loop U V pick oc config cmds (place x w) =
     (case event_loop U V pick oc config cmds w of (as, alive, v) \<Rightarrow> (as, alive, place x v))"
proof (induction cmds arbitrary: w)
  case (Cons cmd cmds)
  obtain r v where "execute U V pick oc config cmd w = (r, v)" by fastforce
  with Cons show ?case by (cases r) (simp_all add: execute_place case_prod_unfold Let_def)
qed simp

lemma send_objects_place:
  assumes "store_ok (store w)" "send_objects U V oc keeps umsg app w = (r, v')"
  shows "\<exists>x. (r, v') = apsnd (place x) (send_internal U V oc umsg app w)"
proof -
  obtain q v where v: "send_internal U V oc umsg app w = (q, v)" by fastforce
  note sent = send_objects_sent [OF assms, unfolded v]
  have "v' = place (store v', kept_messages v', kept_payloads v') v"
    using sent(2) by (cases v) (auto simp: sent_objects_def place_def split: if_splits)
  with sent(1) v show ?thesis by (metis apsnd_conv fst_conv)
qed

text \<open>What sending leaves of the objects, vsomeip keeping them or not.\<close>

definition memory_kept :: "bool \<Rightarrow> 'bm objects \<Rightarrow> 'bm objects \<Rightarrow> bool" where
  "memory_kept keeps w v \<longleftrightarrow> store_ok (store v) \<and> next_addr (store w) \<le> next_addr (store v) \<and>
     (keeps \<or> payloads (store v) = payloads (store w) \<and> messages (store v) = messages (store w))"

lemma memory_kept_refl: "store_ok (store w) \<Longrightarrow> memory_kept keeps w w"
  by (simp add: memory_kept_def)

lemma memory_kept_trans: "memory_kept keeps u v \<Longrightarrow> memory_kept keeps v w \<Longrightarrow> memory_kept keeps u w"
  by (auto simp: memory_kept_def)

lemma sent_objects_kept:
  assumes "sent_objects keeps t d (store w) rv v'" "store_ok (store w)"
  shows "memory_kept keeps w v'"
proof -
  obtain r v where rv: "rv = (r, v)" by fastforce
  have "next_addr (store w) \<le> next_addr (store v')"
    using assms(1) unfolding rv by (auto simp: sent_objects_def split: if_splits)
  with sent_objects_store_ok [OF _ assms(2), of keeps t d r v v']
    sent_objects_memory [of keeps t d "store w" r v v'] assms(1)
  show ?thesis unfolding memory_kept_def rv by blast
qed

lemma execute_keeps_objects:
  assumes "execute U V pick oc config cmd w = (r, v)" shows "store v = store w"
proof -
  have "untouched v = untouched w" using untouched_execute [of U V pick oc config cmd w] assms by simp
  then show ?thesis by (cases v; cases w) (simp add: untouched_def)
qed

lemma execute_objects_step:
  assumes ok: "store_ok (store w)" and obj: "execute_objects U V pick oc keeps config cmd w = (r, v')"
  shows "\<exists>x. (r, v') = apsnd (place x) (execute U V pick oc config cmd w)" "memory_kept keeps w v'"
proof -
  have same: "\<exists>x. (r, v') = apsnd (place x) (r, v')"
    by (intro exI [of _ "(store v', kept_messages v', kept_payloads v')"]) (simp add: place_def)
  have "(\<exists>x. (r, v') = apsnd (place x) (execute U V pick oc config cmd w)) \<and> memory_kept keeps w v'"
  proof (cases "\<exists>umsg t app. cmd = Send umsg t app \<and> vs_application_exists V (hist w) app")
    case True
    then obtain umsg t app where cmd: "cmd = Send umsg t app" "vs_application_exists V (hist w) app"
      by blast
    with obj have sent: "send_objects U V oc keeps umsg app w = (r, v')"
      by (simp add: execute_objects_def)
    from send_objects_place [OF ok sent] sent_objects_kept [OF send_objects_sent(2) [OF ok sent] ok] cmd
    show ?thesis by (simp add: execute_def)
  next
    case False
    then have "execute_objects U V pick oc keeps config cmd w = execute U V pick oc config cmd w"
      by (cases cmd) (auto simp: execute_objects_def execute_def)
    with obj same have "\<exists>x. (r, v') = apsnd (place x) (execute U V pick oc config cmd w)" by simp
    moreover have "memory_kept keeps w v'"
      using execute_keeps_objects [of U V pick oc config cmd w r v'] calculation obj ok
        \<open>execute_objects U V pick oc keeps config cmd w = execute U V pick oc config cmd w\<close>
      by (simp add: memory_kept_def)
    ultimately show ?thesis by simp
  qed
  then show "\<exists>x. (r, v') = apsnd (place x) (execute U V pick oc config cmd w)" "memory_kept keeps w v'"
    by blast+
qed

lemma event_loop_objects_run:
  assumes "store_ok (store w)" "event_loop_objects U V pick oc keeps config cmds w = (as, alive, v')"
  shows "(\<exists>x v. event_loop U V pick oc config cmds w = (as, alive, v) \<and> v' = place x v) \<and>
    memory_kept keeps w v'"
  using assms
proof (induction cmds arbitrary: w as alive v')
  case Nil
  moreover have "w = place (store w, kept_messages w, kept_payloads w) w" by (simp add: place_def)
  ultimately show ?case by (auto simp: memory_kept_refl)
next
  case (Cons cmd cmds w as alive v')
  obtain r u where exec: "execute_objects U V pick oc keeps config cmd w = (r, u)" by fastforce
  then obtain x e where e: "execute U V pick oc config cmd w = (r, e)" "u = place x e"
    using execute_objects_step(1) [OF Cons.prems(1) exec]
    by (metis apsnd_conv prod.inject prod.collapse)
  have u: "memory_kept keeps w u" by (rule execute_objects_step(2) [OF Cons.prems(1) exec])
  obtain as2 alive2 v2 where rest: "event_loop_objects U V pick oc keeps config cmds u = (as2, alive2, v2)"
    by (metis prod_cases3)
  obtain y v where y: "event_loop U V pick oc config cmds u = (as2, alive2, v)" "v2 = place y v"
    "memory_kept keeps u v2"
    using Cons.IH [OF _ rest] u by (auto simp: memory_kept_def)
  obtain v0 where "event_loop U V pick oc config cmds e = (as2, alive2, v0)" "v = place x v0"
    using y(1) e(2) by (auto simp: event_loop_place split: prod.splits)
  with Cons.prems(2) exec e y rest u show ?case
    by (cases r) (auto simp del: split_paired_Ex intro: memory_kept_trans)
qed

text \<open>C21. The engine handles any list of commands on the objects of vsomeip just as the model that
  passes messages and payloads as values says: the same answers, the same registries and the
  same calls with the same messages in them, read at the time of each call.  No access goes to
  an object that is no longer alive; and if vsomeip keeps no pointer beyond a call, every
  payload and message the engine has made is destroyed in the end, also after errors, and
  no other.\<close>

theorem engine_on_objects_is_safe:
  assumes ok: "store_ok (store w)"
    and val: "event_loop U V pick oc config cmds w = (as, alive, v)"
    and obj: "event_loop_objects U V pick oc keeps config cmds w = (as', alive', v')"
  shows "as' = as \<and> alive' = alive \<and> statics v' = statics v \<and> storage v' = storage v \<and>
    hist v' = hist v \<and> intact (store v') \<and>
    (keeps \<or> payloads (store v') = payloads (store w) \<and> messages (store v') = messages (store w))"
  using event_loop_objects_run [OF ok obj] val by (auto simp: memory_kept_def store_ok_def)

theorem engine_on_objects_is_safe_witness:
  "\<exists>v. event_loop_objects ref_up_rust ref_vsomeip Min True False None
      [Send (demo_message UMESSAGE_TYPE_PUBLISH (demo_uri 0x10 0x8001) None None) Publish ''app'',
       Send (demo_message UMESSAGE_TYPE_NOTIFICATION (demo_uri 0x10 0x8001) None None) Publish ''app'']
      demo_objects = ([Ok (), Err INVALID_ARGUMENT], True, v) \<and>
    payloads (store v) = Map.empty \<and> messages (store v) = Map.empty \<and> intact (store v)"
proof -
  let ?cmds = "[Send (demo_message UMESSAGE_TYPE_PUBLISH (demo_uri 0x10 0x8001) None None) Publish ''app'',
     Send (demo_message UMESSAGE_TYPE_NOTIFICATION (demo_uri 0x10 0x8001) None None) Publish ''app'']"
  obtain v where "event_loop ref_up_rust ref_vsomeip Min True None ?cmds demo_objects =
      ([Ok (), Err INVALID_ARGUMENT], True, v)"
  proof -
    let ?p = "demo_message UMESSAGE_TYPE_PUBLISH (demo_uri 0x10 0x8001) None None"
    from publish_step [of ref_up_rust ?p "demo_uri 0x10 0x8001" _ ref_vsomeip "''app''" demo_objects]
    obtain k u where "umsg_publish_to_vsomeip_notification ref_up_rust ref_vsomeip ?p ''app'' demo_objects =
        (Ok k, u)" "vs_application_exists ref_vsomeip (hist u) ''app''"
      by (auto simp: offered_requested_new_def demo_app_def)
    then have "\<exists>u. execute ref_up_rust ref_vsomeip Min True None (hd ?cmds) demo_objects = (Ok (), u) \<and>
        vs_application_exists ref_vsomeip (hist u) ''app''"
      by (cases k) (simp add: execute_def send_internal_def demo_app_def)
    then show thesis using that by (auto simp: execute_def send_internal_def Let_def)
  qed
  note val = this
  obtain as alive v' where obj: "event_loop_objects ref_up_rust ref_vsomeip Min True False None
      ?cmds demo_objects = (as, alive, v')" by (metis prod_cases3)
  have "store_ok (store demo_objects)" by simp
  from engine_on_objects_is_safe [OF this val obj] obj show ?thesis
    by (simp add: empty_store_def del: event_loop_objects.simps)
qed

text \<open>C22. What a sent message points to after the call.  If vsomeip keeps what it was given, a
  published payload stays alive, because the engine hands over a pointer that owns it.  A request
  or a response is given a payload by \<^verbatim>\<open>set_payload_raw\<close>, whose pointer owns nothing: when the
  engine has returned, the message that vsomeip still holds has a payload that was destroyed,
  and reading it through the wrappers touches dead memory.\<close>

theorem kept_message_outlives_its_payload:
  assumes ok: "store_ok (store w)"
    and obj: "send_objects U V oc True umsg app w = (Ok (), v')"
  shows "if msg_type (attributes_of U umsg) = Some UMESSAGE_TYPE_PUBLISH
    then \<exists>p. kept_payloads v' = kept_payloads w @ [p] \<and>
      payload_value (store v') p = Some (set_data_safe (body_of umsg))
    else \<exists>m q. kept_messages v' = kept_messages w @ [m] \<and>
      message_get_payload m (store v') = (Some q, store v') \<and>
      \<not> intact (snd (payload_get_data q (store v')))"
proof -
  obtain v where v: "send_internal U V oc umsg app w = (Ok (), v)"
    using send_objects_sent(1) [OF ok obj] by (metis prod.collapse)
  have "untouched v = untouched w"
    using untouched_send [of U V oc umsg app w] v by simp
  then have kept: "kept_payloads v = kept_payloads w" "kept_messages v = kept_messages w"
    by (cases v; cases w; simp add: untouched_def)+
  have t: "enum_value_or (msg_type (attributes_of U umsg)) UMESSAGE_TYPE_UNSPECIFIED = UMESSAGE_TYPE_PUBLISH
    \<longleftrightarrow> msg_type (attributes_of U umsg) = Some UMESSAGE_TYPE_PUBLISH"
    by (cases "msg_type (attributes_of U umsg)") auto
  from send_objects_sent(2) [OF ok obj, unfolded v] kept store_okD(2) [OF ok, of "next_addr (store w)"]
  show ?thesis
    by (auto simp: sent_objects_def t payload_value_def message_get_payload_def payload_get_data_def
        get_pinned_def fault_def split: if_splits)
qed

theorem kept_message_outlives_its_payload_witness:
  "\<exists>v m q. send_objects ref_up_rust ref_vsomeip True True
      (demo_message UMESSAGE_TYPE_REQUEST (demo_uri 0x11 0) (Some (demo_uri 0x22 0x33)) None)
      ''app'' demo_objects = (Ok (), v) \<and> kept_messages v = [m] \<and>
    fst (message_get_payload m (store v)) = Some q \<and>
    \<not> intact (snd (payload_get_data q (store v)))"
proof -
  let ?m = "demo_message UMESSAGE_TYPE_REQUEST (demo_uri 0x11 0) (Some (demo_uri 0x22 0x33)) None"
  obtain r v where sent: "send_objects ref_up_rust ref_vsomeip True True ?m ''app'' demo_objects = (r, v)"
    by fastforce
  have "fst (send_internal ref_up_rust ref_vsomeip True ?m ''app'' demo_objects) = Ok ()"
    using request_accepted [where U = ref_up_rust and umsg = ?m and src = "demo_uri 0x11 0"
        and snk = "demo_uri 0x22 0x33" and i = "UUID 7" and c = "0x0345" and V = ref_vsomeip
        and w = demo_objects and app = "''app''" and oc = True]
    by (auto simp: send_internal_def Let_def)
  then have "r = Ok ()" using send_objects_sent(1) [OF _ sent] by simp
  with sent kept_message_outlives_its_payload [of demo_objects ref_up_rust ref_vsomeip True ?m "''app''" v]
  show ?thesis by fastforce
qed

text \<open>C23. Converting a message that is alive with its payload, through its wrappers, touches
  live objects only, leaves all of them and their owners as they are, and gives the same
  uProtocol message or error and the same registries as the conversion of its value.\<close>

theorem converting_objects_is_safe:
  assumes "message_value (store w) msg = Some m"
  shows "convert_message_object U V n auth me remote msg w =
      convert_vsomeip_msg_to_umsg U V n auth me remote m w \<and>
    store (snd (convert_message_object U V n auth me remote msg w)) = store w"
proof -
  have "w\<lparr>store := store w\<rparr> = w" by simp
  with assms have "convert_message_object U V n auth me remote msg w =
      convert_vsomeip_msg_to_umsg U V n auth me remote m w"
    by (cases "raw_ptr msg") (auto simp: convert_message_object_def convert_vsomeip_msg_to_umsg_def message_value_def
        get_message_base_pinned_def message_get_payload_def on_store_simp get_message_payload_def
        payload_get_data_def get_pinned_def leaving_def drop_payload.simps Let_def split: option.splits)
  moreover have "store v = store w" if "untouched v = untouched w" for v
    using that by (cases v; cases w) (simp add: untouched_def)
  ultimately show ?thesis using convert_untouched by metis
qed

theorem converting_objects_is_safe_witness:
  "\<exists>msg h umsg. message_value h msg = Some (demo_incoming\<lparr>v_message_type := MT_NOTIFICATION\<rparr>) \<and>
    convert_message_object ref_up_rust ref_vsomeip 7 ''a'' (demo_uri 0x11 0) ''r'' msg
      (demo_objects\<lparr>store := h\<rparr>) = (Ok umsg, demo_objects\<lparr>store := h\<rparr>)"
proof -
  let ?m = "demo_incoming\<lparr>v_message_type := MT_NOTIFICATION\<rparr>"
  let ?h = "empty_store\<lparr>payloads := [0 \<mapsto> (Some [3], 1)],
     messages := [1 \<mapsto> (\<lparr>header = ?m, attached = Owning 0\<rparr>, 1)], next_addr := 2\<rparr>"
  have m: "message_value (store (demo_objects\<lparr>store := ?h\<rparr>)) (Owning 1) = Some ?m"
    by (simp add: message_value_def demo_incoming_def)
  from converting_objects_is_safe [OF m, where U = ref_up_rust and V = ref_vsomeip and n = 7
      and auth = "''a''" and me = "demo_uri 0x11 0" and remote = "''r''"]
  have "\<exists>umsg. convert_message_object ref_up_rust ref_vsomeip 7 ''a'' (demo_uri 0x11 0) ''r'' (Owning 1)
      (demo_objects\<lparr>store := ?h\<rparr>) = (Ok umsg, demo_objects\<lparr>store := ?h\<rparr>)"
    by (simp add: convert_vsomeip_msg_to_umsg_def convert_vsomeip_mt_notification_to_umsg_def
        get_message_payload_def demo_incoming_def blank_message_def ref_up_rust_def Let_def)
  with m show ?thesis by auto
qed

end
