(* ===== verification/Lock_Programs.thy ===== *)
theory Lock_Programs
  imports Prelude
begin

text \<open>
  Threads that take locks.  A method is a program of small actions: take a lock, release it,
  change the data the locks protect.  The locks are Rust's \<open>RwLock\<close>s: any number of readers or
  one writer, and a thread that panics poisons the locks it holds for writing, which makes
  \<open>unwrap\<close> panic in the next thread that takes one.

  The locale \<open>lock_protocol\<close> is the discipline by which such a program is as good as one atomic
  step: it takes its locks in the beginning, the \<open>guard\<close> first, changes data only while it
  holds the guard, and only what its locks protect; or it reads under a single lock.
\<close>

datatype ('l, 'd, 'r) micro =
    Returns 'r
  | Write_Lock 'l "('l, 'd, 'r) micro"
  | Read_Lock 'l "('l, 'd, 'r) micro"
  | Unlock 'l "('l, 'd, 'r) micro"
  | Act "'d \<Rightarrow> 'd" "'d \<Rightarrow> ('l, 'd, 'r) micro"
  | Panics
  | Panicked

text \<open>The state: the data, who holds each lock, which are poisoned, and what each thread that was
  called has left to do.\<close>

record ('c, 'l, 'd, 'r) locking =
  l_data :: 'd
  l_writer :: "'l \<rightharpoonup> nat"
  l_readers :: "'l \<Rightarrow> nat set"
  l_poisoned :: "'l set"
  l_threads :: "nat \<rightharpoonup> 'c \<times> ('l, 'd, 'r) micro"

definition becomes_at ::
  "nat \<Rightarrow> 'c \<Rightarrow> ('l, 'd, 'r) micro \<Rightarrow> ('c, 'l, 'd, 'r) locking \<Rightarrow> ('c, 'l, 'd, 'r) locking" where
  "becomes_at t c m s = s\<lparr>l_threads := (l_threads s)(t \<mapsto> (c, m))\<rparr>"

definition unlocks :: "nat \<Rightarrow> 'l set \<Rightarrow> ('c, 'l, 'd, 'r) locking \<Rightarrow> ('c, 'l, 'd, 'r) locking" where
  "unlocks t L s = s\<lparr>l_writer := (\<lambda>l. if l \<in> L \<and> l_writer s l = Some t then None else l_writer s l),
     l_readers := (\<lambda>l. if l \<in> L then l_readers s l - {t} else l_readers s l)\<rparr>"

definition held_write :: "('c, 'l, 'd, 'r) locking \<Rightarrow> nat \<Rightarrow> 'l set" where
  "held_write s t = {l. l_writer s l = Some t}"

definition held_read :: "('c, 'l, 'd, 'r) locking \<Rightarrow> nat \<Rightarrow> 'l set" where
  "held_read s t = {l. t \<in> l_readers s l}"

text \<open>One action of a thread.\<close>

inductive lock_step ::
  "('c, 'l, 'd, 'r) locking \<Rightarrow> ('c, 'l, 'd, 'r) locking \<Rightarrow> bool" for s where
  writes: "l_threads s t = Some (c, Write_Lock l m) \<Longrightarrow> l_writer s l = None \<Longrightarrow> l_readers s l = {} \<Longrightarrow>
    l \<notin> l_poisoned s \<Longrightarrow>
    lock_step s (becomes_at t c m (s\<lparr>l_writer := (l_writer s)(l \<mapsto> t)\<rparr>))"
| reads: "l_threads s t = Some (c, Read_Lock l m) \<Longrightarrow> l_writer s l = None \<Longrightarrow>
    l \<notin> l_poisoned s \<Longrightarrow>
    lock_step s (becomes_at t c m (s\<lparr>l_readers := (l_readers s)(l := insert t (l_readers s l))\<rparr>))"
| poisoned: "l_threads s t = Some (c, x) \<Longrightarrow>
    x = Write_Lock l m \<and> l_readers s l = {} \<or> x = Read_Lock l m \<Longrightarrow> l_writer s l = None \<Longrightarrow>
    l \<in> l_poisoned s \<Longrightarrow> lock_step s (becomes_at t c Panics s)"
| unlock: "l_threads s t = Some (c, Unlock l m) \<Longrightarrow>
    lock_step s (becomes_at t c m (unlocks t {l} s))"
| acts: "l_threads s t = Some (c, Act u k) \<Longrightarrow>
    lock_step s (becomes_at t c (k (l_data s)) (s\<lparr>l_data := u (l_data s)\<rparr>))"
| panics: "l_threads s t = Some (c, Panics) \<Longrightarrow>
    lock_step s (becomes_at t c Panicked
      (unlocks t UNIV (s\<lparr>l_poisoned := l_poisoned s \<union> held_write s t\<rparr>)))"

text \<open>Another thread calls a method, or a thread goes on.\<close>

inductive locking_step ::
  "('c \<Rightarrow> ('l, 'd, 'r) micro) \<Rightarrow> ('c, 'l, 'd, 'r) locking \<Rightarrow> ('c, 'l, 'd, 'r) locking \<Rightarrow> bool"
  for prog s where
  calls: "l_threads s t = None \<Longrightarrow> locking_step prog s (becomes_at t c (prog c) s)"
| goes_on: "lock_step s s' \<Longrightarrow> locking_step prog s s'"

definition unlocked :: "'d \<Rightarrow> ('c, 'l, 'd, 'r) locking" where
  "unlocked d = \<lparr>l_data = d, l_writer = Map.empty, l_readers = (\<lambda>_. {}), l_poisoned = {},
     l_threads = Map.empty\<rparr>"

text \<open>The specification: a called method happens at one moment.\<close>

record ('c, 'd, 'r) atomic =
  a_data :: 'd
  a_calls :: "nat \<rightharpoonup> 'c \<times> 'r option"

inductive atomic_step ::
  "('c \<Rightarrow> 'd \<Rightarrow> 'r \<times> 'd) \<Rightarrow> ('c, 'd, 'r) atomic \<Rightarrow> ('c, 'd, 'r) atomic \<Rightarrow> bool" for exec a where
  called: "a_calls a t = None \<Longrightarrow>
    atomic_step exec a (a\<lparr>a_calls := (a_calls a)(t \<mapsto> (c, None))\<rparr>)"
| happens: "a_calls a t = Some (c, None) \<Longrightarrow> exec c (a_data a) = (r, d) \<Longrightarrow>
    atomic_step exec a (a\<lparr>a_data := d, a_calls := (a_calls a)(t \<mapsto> (c, Some r))\<rparr>)"

definition quiet :: "'d \<Rightarrow> ('c, 'd, 'r) atomic" where
  "quiet d = \<lparr>a_data = d, a_calls = Map.empty\<rparr>"

subsection \<open>Programs that follow the discipline\<close>

primrec run_alone :: "('l, 'd, 'r) micro \<Rightarrow> 'd \<Rightarrow> ('r \<times> 'd) option" where
  "run_alone (Returns r) = (\<lambda>d. Some (r, d))"
| "run_alone (Write_Lock l m) = run_alone m"
| "run_alone (Read_Lock l m) = run_alone m"
| "run_alone (Unlock l m) = run_alone m"
| "run_alone (Act u k) = (\<lambda>d. run_alone (k d) (u d))"
| "run_alone Panics = (\<lambda>d. None)"
| "run_alone Panicked = (\<lambda>d. None)"

fun lock_all :: "'l list \<Rightarrow> ('l, 'd, 'r) micro \<Rightarrow> ('l, 'd, 'r) micro" where
  "lock_all [] m = m"
| "lock_all (l # ls) m = Write_Lock l (lock_all ls m)"

definition read_locked :: "'l \<Rightarrow> ('d \<Rightarrow> 'r) \<Rightarrow> ('l, 'd, 'r) micro" where
  "read_locked l f = Read_Lock l (Act id (\<lambda>d. Unlock l (Returns (f d))))"

text \<open>What is left of a program that holds the locks \<open>W\<close> for writing and takes no more.\<close>

primrec safe ::
  "('l set \<Rightarrow> 'd \<Rightarrow> 'd \<Rightarrow> bool) \<Rightarrow> 'l \<Rightarrow> ('l, 'd, 'r) micro \<Rightarrow> 'l set \<Rightarrow> bool" where
  "safe agree guard (Returns r) = (\<lambda>W. W = {})"
| "safe agree guard (Write_Lock l m) = (\<lambda>W. False)"
| "safe agree guard (Read_Lock l m) = (\<lambda>W. False)"
| "safe agree guard (Unlock l m) = (\<lambda>W. l \<in> W \<and> safe agree guard m (W - {l}))"
| "safe agree guard (Act u k) =
     (\<lambda>W. guard \<in> W \<and> (\<forall>d. agree (- W) d (u d) \<and> safe agree guard (k d) W))"
| "safe agree guard Panics = (\<lambda>W. True)"
| "safe agree guard Panicked = (\<lambda>W. False)"

text \<open>The number of actions left.\<close>

inductive within :: "nat \<Rightarrow> ('l, 'd, 'r) micro \<Rightarrow> bool" where
  "within n (Returns r)"
| "within n Panicked"
| "within n m \<Longrightarrow> within (Suc n) (Write_Lock l m)"
| "within n m \<Longrightarrow> within (Suc n) (Read_Lock l m)"
| "within n m \<Longrightarrow> within (Suc n) (Unlock l m)"
| "(\<And>d. within n (k d)) \<Longrightarrow> within (Suc n) (Act u k)"
| "within (Suc n) Panics"

inductive_simps within_simps [simp]:
  "within n (Write_Lock l m)" "within n (Read_Lock l m)" "within n (Unlock l m)"
  "within n (Act u k)" "within n Panics" "within n (Returns r)"

locale lock_protocol =
  fixes prog :: "'c \<Rightarrow> ('l, 'd, 'r) micro" and exec :: "'c \<Rightarrow> 'd \<Rightarrow> 'r \<times> 'd"
    and writes :: "'c \<Rightarrow> bool" and guard :: 'l and agree :: "'l set \<Rightarrow> 'd \<Rightarrow> 'd \<Rightarrow> bool"
    and ok :: "'d \<Rightarrow> bool" and bound :: nat
  assumes agree_refl: "agree L d d"
    and agree_trans: "agree L d e \<Longrightarrow> agree L e f \<Longrightarrow> agree L d f"
    and agree_less: "agree L d e \<Longrightarrow> L' \<subseteq> L \<Longrightarrow> agree L' d e"
    and writer: "writes c \<Longrightarrow> \<exists>ls body. prog c = lock_all (guard # ls) body \<and>
      distinct (guard # ls) \<and> safe agree guard body (set (guard # ls)) \<and>
      (\<forall>d. ok d \<longrightarrow> run_alone body d = Some (exec c d))"
    and reader: "\<not> writes c \<Longrightarrow> \<exists>l f. prog c = read_locked l f \<and>
      (\<forall>d. exec c d = (f d, d)) \<and> (\<forall>d e. agree {l} d e \<longrightarrow> f d = f e)"
    and keeps: "ok d \<Longrightarrow> exec c d = (r, d') \<Longrightarrow> ok d'"
    and short: "within bound (prog c)"
begin

lemma safe_agree: "safe agree guard m W \<Longrightarrow> run_alone m d = Some (r, d') \<Longrightarrow> agree (- W) d d'"
proof (induction m arbitrary: W d)
  case (Unlock l m)
  then have "agree (- (W - {l})) d d'" by (metis run_alone.simps(4) safe.simps(4))
  then show ?case by (rule agree_less) auto
next
  case (Act u k)
  then have "agree (- W) (u d) d'" by (metis rangeI run_alone.simps(5) safe.simps(5))
  moreover have "agree (- W) d (u d)" using Act.prems(1) by simp
  ultimately show ?case by (rule agree_trans [rotated])
qed (auto intro: agree_refl)

text \<open>Without the guard nothing more is read or changed.\<close>

lemma safe_unguarded:
  "safe agree guard m W \<Longrightarrow> guard \<notin> W \<Longrightarrow> run_alone m d = Some (r, d') \<Longrightarrow>
     d' = d \<and> run_alone m e = Some (r, e)"
  by (induction m arbitrary: W) auto

inductive waiting :: "'c \<Rightarrow> ('l, 'd, 'r) micro \<Rightarrow> 'l set \<Rightarrow> 'l set \<Rightarrow> bool" where
  locking: "prog c = lock_all (as @ l # bs) body \<Longrightarrow> distinct (as @ l # bs) \<Longrightarrow>
    hd (as @ [l]) = guard \<Longrightarrow> safe agree guard body (set (as @ l # bs)) \<Longrightarrow>
    \<forall>d. ok d \<longrightarrow> run_alone body d = Some (exec c d) \<Longrightarrow>
    waiting c (lock_all (l # bs) body) (set as) {}"
| to_read: "\<forall>d. exec c d = (f d, d) \<Longrightarrow> \<forall>d e. agree {l} d e \<longrightarrow> f d = f e \<Longrightarrow>
    waiting c (read_locked l f) {} {}"
| reading: "\<forall>d. exec c d = (f d, d) \<Longrightarrow> \<forall>d e. agree {l} d e \<longrightarrow> f d = f e \<Longrightarrow>
    waiting c (Act id (\<lambda>d. Unlock l (Returns (f d)))) {} {l}"

inductive finishing :: "'r \<Rightarrow> ('l, 'd, 'r) micro \<Rightarrow> 'l set \<Rightarrow> 'l set \<Rightarrow> bool" where
  writing: "safe agree guard m W \<Longrightarrow> guard \<notin> W \<longrightarrow> (\<forall>d. run_alone m d = Some (r, d)) \<Longrightarrow>
    finishing r m W {}"
| has_read: "finishing r (Unlock l (Returns r)) {} {l}"

fun thread_ok :: "('c, 'l, 'd, 'r) locking \<Rightarrow> ('c, 'd, 'r) atomic \<Rightarrow> nat \<Rightarrow>
    ('c \<times> ('l, 'd, 'r) micro) option \<Rightarrow> ('c \<times> 'r option) option \<Rightarrow> bool" where
  "thread_ok s a t None x \<longleftrightarrow> x = None \<and> held_write s t = {} \<and> held_read s t = {}"
| "thread_ok s a t (Some (c, m)) None \<longleftrightarrow> False"
| "thread_ok s a t (Some (c, m)) (Some (c', None)) \<longleftrightarrow>
     c' = c \<and> waiting c m (held_write s t) (held_read s t)"
| "thread_ok s a t (Some (c, m)) (Some (c', Some r)) \<longleftrightarrow>
     c' = c \<and> finishing r m (held_write s t) (held_read s t) \<and>
     (guard \<in> held_write s t \<longrightarrow> run_alone m (l_data s) = Some (r, a_data a))"

definition decided :: "('c, 'd, 'r) atomic \<Rightarrow> nat \<Rightarrow> bool" where
  "decided a t \<longleftrightarrow> (\<exists>c r. a_calls a t = Some (c, Some r))"

definition simulates :: "('c, 'l, 'd, 'r) locking \<Rightarrow> ('c, 'd, 'r) atomic \<Rightarrow> bool" where
  "simulates s a \<longleftrightarrow> (\<forall>t. thread_ok s a t (l_threads s t) (a_calls a t)) \<and> ok (a_data a) \<and>
     l_poisoned s = {} \<and> (\<forall>l. l_writer s l \<noteq> None \<longrightarrow> l_readers s l = {}) \<and>
     ((\<nexists>t. l_writer s guard = Some t \<and> decided a t) \<longrightarrow> l_data s = a_data a)"

lemma thread_ok_frame:
  assumes "thread_ok s a t x y" "held_write s' t = held_write s t" "held_read s' t = held_read s t"
    and "guard \<in> held_write s t \<Longrightarrow> l_data s' = l_data s \<and> a_data a' = a_data a"
  shows "thread_ok s' a' t x y"
  using assms by (cases "(s, a, t, x, y)" rule: thread_ok.cases) auto

lemma visible:
  assumes sim: "simulates s a" and l: "l_writer s l = None"
  shows "agree {l} (l_data s) (a_data a)"
proof (cases "\<exists>t. l_writer s guard = Some t \<and> decided a t")
  case True
  then obtain t c r where t: "l_writer s guard = Some t" "a_calls a t = Some (c, Some r)"
    by (auto simp: decided_def)
  have "thread_ok s a t (l_threads s t) (Some (c, Some r))" using sim t(2) by (metis simulates_def)
  then obtain m where m: "finishing r m (held_write s t) (held_read s t)"
    "guard \<in> held_write s t \<longrightarrow> run_alone m (l_data s) = Some (r, a_data a)"
    by (cases "l_threads s t") auto
  have g: "guard \<in> held_write s t" using t(1) by (simp add: held_write_def)
  from m(1) g have "safe agree guard m (held_write s t)" by (cases rule: finishing.cases) auto
  from safe_agree [OF this] m(2) g have "agree (- held_write s t) (l_data s) (a_data a)" by blast
  then show ?thesis by (rule agree_less) (use l in \<open>simp add: held_write_def\<close>)
next
  case False
  with sim have "l_data s = a_data a" by (simp add: simulates_def)
  then show ?thesis by (simp add: agree_refl)
qed

lemma simulatesI:
  assumes sim: "simulates s a"
    and t: "thread_ok s' a' t (l_threads s' t) (a_calls a' t)"
    and frame: "\<And>u. u \<noteq> t \<Longrightarrow> l_threads s' u = l_threads s u \<and> a_calls a' u = a_calls a u \<and>
      held_write s' u = held_write s u \<and> held_read s' u = held_read s u \<and>
      (guard \<in> held_write s u \<longrightarrow> l_data s' = l_data s \<and> a_data a' = a_data a)"
    and "ok (a_data a')" "l_poisoned s' = {}" "\<forall>l. l_writer s' l \<noteq> None \<longrightarrow> l_readers s' l = {}"
    and "(\<nexists>u. l_writer s' guard = Some u \<and> decided a' u) \<Longrightarrow> l_data s' = a_data a'"
  shows "simulates s' a'"
proof -
  have "thread_ok s' a' u (l_threads s' u) (a_calls a' u)" for u
  proof (cases "u = t")
    case False
    have "thread_ok s a u (l_threads s u) (a_calls a u)" using sim by (simp add: simulates_def)
    then show ?thesis using frame [OF False] by (auto intro: thread_ok_frame)
  qed (simp add: t)
  with assms(4-7) show ?thesis unfolding simulates_def by blast
qed

lemma held_simps [simp]:
  "held_write (becomes_at t c m s) = held_write s" "held_read (becomes_at t c m s) = held_read s"
  "l_threads (becomes_at t c m s) = (l_threads s)(t \<mapsto> (c, m))"
  "l_data (becomes_at t c m s) = l_data s" "l_writer (becomes_at t c m s) = l_writer s"
  "l_readers (becomes_at t c m s) = l_readers s" "l_poisoned (becomes_at t c m s) = l_poisoned s"
  "l_threads (unlocks t L s) = l_threads s" "l_data (unlocks t L s) = l_data s"
  "l_poisoned (unlocks t L s) = l_poisoned s"
  "held_write (unlocks t L s) u = (if u = t then held_write s t - L else held_write s u)"
  "held_read (unlocks t L s) u = (if u = t then held_read s t - L else held_read s u)"
  by (auto simp: becomes_at_def unlocks_def held_write_def held_read_def fun_eq_iff)

lemma thread_ok_of:
  assumes "simulates s a" "l_threads s t = Some (c, m)"
  obtains (waits) "a_calls a t = Some (c, None)" "waiting c m (held_write s t) (held_read s t)"
  | (decided) r where "a_calls a t = Some (c, Some r)" "finishing r m (held_write s t) (held_read s t)"
    "guard \<in> held_write s t \<longrightarrow> run_alone m (l_data s) = Some (r, a_data a)"
proof -
  have "thread_ok s a t (Some (c, m)) (a_calls a t)" using assms by (metis simulates_def)
  then show thesis
    using that by (cases "(s, a, t, Some (c, m), a_calls a t)" rule: thread_ok.cases) auto
qed

lemma simulates_writes:
  assumes sim: "simulates s a" and t: "l_threads s t = Some (c, Write_Lock l m)"
    and free: "l_writer s l = None" "l_readers s l = {}"
  shows "\<exists>a'. (atomic_step exec)\<^sup>*\<^sup>* a a' \<and>
    simulates (becomes_at t c m (s\<lparr>l_writer := (l_writer s)(l \<mapsto> t)\<rparr>)) a'"
    (is "\<exists>a'. _ \<and> simulates ?s' a'")
  using sim t
proof (cases rule: thread_ok_of)
  case waits
  from waits(2) obtain as bs body where prog: "prog c = lock_all (as @ l # bs) body"
    "distinct (as @ l # bs)" "hd (as @ [l]) = guard" "safe agree guard body (set (as @ l # bs))"
    "\<forall>d. ok d \<longrightarrow> run_alone body d = Some (exec c d)" "m = lock_all bs body"
    and held: "held_write s t = set as" "held_read s t = {}"
    by (cases rule: waiting.cases) (auto simp: read_locked_def)
  have undecided: "\<not> decided a t" using waits(1) by (simp add: decided_def)
  have at: "l_writer s guard = None \<or> l_writer s guard = Some t"
    using prog(3) free(1) held(1) by (cases as) (auto simp: held_write_def)
  have same: "l_data s = a_data a" using sim at undecided by (auto simp: simulates_def)
  have held': "held_write ?s' t = set (as @ [l])" "held_read ?s' t = {}"
    using held free by (auto simp: held_write_def held_read_def)
  have others: "held_write ?s' u = held_write s u \<and> held_read ?s' u = held_read s u" if "u \<noteq> t" for u
    using that free(1) by (auto simp: held_write_def held_read_def)
  have at': "l_writer ?s' guard = Some t \<or> l_writer ?s' guard = l_writer s guard" by simp
  have not_u: "guard \<notin> held_write s u" if "u \<noteq> t" for u using at that by (auto simp: held_write_def)
  show ?thesis
  proof (cases bs)
    case (Cons b bs')
    have "waiting c m (set (as @ [l])) {}"
      unfolding prog(6) Cons using prog(1-5) Cons
      by (intro waiting.locking [where as = "as @ [l]" and body = body]) (auto simp: hd_append)
    then have "simulates ?s' a"
      using sim same waits(1) others free held'
      by (intro simulatesI [OF sim, where t = t]) (auto simp: simulates_def)
    then show ?thesis by blast
  next
    case Nil
    obtain r d where e: "exec c (a_data a) = (r, d)" by fastforce
    let ?a = "a\<lparr>a_data := d, a_calls := (a_calls a)(t \<mapsto> (c, Some r))\<rparr>"
    have "atomic_step exec a ?a" using waits(1) e by (rule atomic_step.happens)
    have okd: "ok (a_data a)" using sim by (simp add: simulates_def)
    have guard: "guard \<in> set (as @ [l])" using prog(3) by (metis hd_in_set append_is_Nil_conv not_Cons_self2)
    have "safe agree guard m (set (as @ [l]))" "run_alone m (l_data s) = Some (r, d)"
      using prog(4-6) okd e same by (simp_all add: Nil)
    then have "finishing r m (set (as @ [l])) {}" using guard by (intro finishing.writing) auto
    moreover have "l_writer ?s' guard = Some t" using guard held'(1) by (auto simp: held_write_def)
    ultimately have "simulates ?s' ?a"
      using sim same \<open>run_alone m (l_data s) = Some (r, d)\<close> others free held' keeps [OF okd e] not_u
      by (intro simulatesI [OF sim, where t = t]) (auto simp: simulates_def decided_def)
    with \<open>atomic_step exec a ?a\<close> show ?thesis by blast
  qed
next
  case (decided r)
  from decided(2) show ?thesis by (cases rule: finishing.cases) auto
qed

lemma simulates_reads:
  assumes sim: "simulates s a" and t: "l_threads s t = Some (c, Read_Lock l m)"
    and free: "l_writer s l = None"
  shows "simulates (becomes_at t c m (s\<lparr>l_readers := (l_readers s)(l := insert t (l_readers s l))\<rparr>)) a"
    (is "simulates ?s' a")
  using sim t
proof (cases rule: thread_ok_of)
  case waits
  from waits(2) obtain f where f: "\<forall>d. exec c d = (f d, d)" "\<forall>d e. agree {l} d e \<longrightarrow> f d = f e"
    "m = Act id (\<lambda>d. Unlock l (Returns (f d)))" and held: "held_write s t = {}" "held_read s t = {}"
    by (cases rule: waiting.cases) (auto simp: read_locked_def)
  have "held_write ?s' t = {}" "held_read ?s' t = {l}"
    using held by (auto simp: held_write_def held_read_def)
  moreover have "held_write ?s' u = held_write s u \<and> held_read ?s' u = held_read s u" if "u \<noteq> t" for u
    using that by (auto simp: held_write_def held_read_def)
  ultimately show ?thesis
    using sim waits(1) waiting.reading [OF f(1,2)] f(3) free
    by (intro simulatesI [OF sim, where t = t]) (auto simp: simulates_def)
next
  case (decided r)
  from decided(2) show ?thesis by (cases rule: finishing.cases) auto
qed

lemma simulates_unlock:
  assumes sim: "simulates s a" and t: "l_threads s t = Some (c, Unlock l m)"
  shows "simulates (becomes_at t c m (unlocks t {l} s)) a" (is "simulates ?s' a")
  using sim t
proof (cases rule: thread_ok_of)
  case waits
  from waits(2) show ?thesis by (cases rule: waiting.cases) (auto simp: read_locked_def)
next
  case (decided r)
  have readers: "\<forall>l. l_writer ?s' l \<noteq> None \<longrightarrow> l_readers ?s' l = {}"
    using sim by (auto simp: simulates_def unlocks_def)
  have same: "l_data s = a_data a" if "l_writer s guard \<noteq> Some t" "\<nexists>u. l_writer ?s' guard = Some u \<and> decided a u"
    using sim that by (auto simp: simulates_def unlocks_def split: if_splits)
  from decided(2) show ?thesis
  proof (cases rule: finishing.cases)
    case writing
    have m: "safe agree guard m (held_write s t - {l})" "l \<in> held_write s t" using writing(2) by simp_all
    show ?thesis
    proof (cases "guard \<in> held_write s t \<and> l = guard")
      case True
      then have run: "run_alone m (l_data s) = Some (r, a_data a)" using decided(3) by simp
      from safe_unguarded [OF m(1) _ run] True
      have "a_data a = l_data s" "\<forall>d. run_alone m d = Some (r, d)" by auto
      with m(1) True writing(1) decided(1) sim readers show ?thesis
        by (intro simulatesI [OF sim, where t = t]) (auto simp: simulates_def intro: finishing.writing)
    next
      case False
      have "finishing r m (held_write s t - {l}) {}"
        using m(1) writing(3) False m(2) by (intro finishing.writing) auto
      moreover have "l_data s = a_data a" if "\<nexists>u. l_writer ?s' guard = Some u \<and> decided a u"
      proof (cases "l_writer s guard = Some t")
        case True
        then have "l_writer ?s' guard = Some t" using False m(2) by (auto simp: unlocks_def held_write_def)
        with that decided(1) show ?thesis by (auto simp: decided_def)
      qed (use same that in blast)
      ultimately show ?thesis
        using decided writing(1) sim readers
        by (intro simulatesI [OF sim, where t = t]) (auto simp: simulates_def)
    qed
  next
    case has_read
    have "finishing r (Returns r) {} {}" by (rule finishing.writing) auto
    moreover have "l_writer s guard \<noteq> Some t" using has_read(2) by (auto simp: held_write_def)
    ultimately show ?thesis
      using decided has_read sim readers same
      by (intro simulatesI [OF sim, where t = t]) (auto simp: simulates_def)
  qed
qed

lemma simulates_acts:
  assumes sim: "simulates s a" and t: "l_threads s t = Some (c, Act u k)"
  shows "\<exists>a'. (atomic_step exec)\<^sup>*\<^sup>* a a' \<and>
    simulates (becomes_at t c (k (l_data s)) (s\<lparr>l_data := u (l_data s)\<rparr>)) a'"
    (is "\<exists>a'. _ \<and> simulates ?s' a'")
proof -
  have held: "held_write ?s' = held_write s" "held_read ?s' = held_read s"
    by (auto simp: held_write_def held_read_def fun_eq_iff)
  from sim t show ?thesis
  proof (cases rule: thread_ok_of)
    case waits
    from waits(2) obtain l f where f: "\<forall>d. exec c d = (f d, d)" "\<forall>d e. agree {l} d e \<longrightarrow> f d = f e"
      "u = id" "k = (\<lambda>d. Unlock l (Returns (f d)))" and h: "held_write s t = {}" "held_read s t = {l}"
      by (cases rule: waiting.cases) (auto simp: read_locked_def)
    have "t \<in> l_readers s l" using h(2) by (auto simp: held_read_def)
    with sim have "l_writer s l = None" unfolding simulates_def by (metis empty_iff)
    from visible [OF sim this] f(2) have r: "f (l_data s) = f (a_data a)" by blast
    let ?a = "a\<lparr>a_calls := (a_calls a)(t \<mapsto> (c, Some (f (a_data a))))\<rparr>"
    have "atomic_step exec a (a\<lparr>a_data := a_data a, a_calls := (a_calls a)(t \<mapsto> (c, Some (f (a_data a))))\<rparr>)"
      by (rule atomic_step.happens [OF waits(1)]) (simp add: f(1))
    then have "atomic_step exec a ?a" by simp
    moreover have "decided ?a v = decided a v" if "l_writer s guard = Some v" for v
      using that h(1) by (auto simp: decided_def held_write_def)
    then have "simulates ?s' ?a"
      using sim h f(3,4) r finishing.has_read [of "f (a_data a)" l] held
      by (intro simulatesI [OF sim, where t = t]) (auto simp: simulates_def)
    ultimately show ?thesis by blast
  next
    case (decided r)
    from decided(2) have safe: "safe agree guard (Act u k) (held_write s t)" and "held_read s t = {}"
      by (auto elim: finishing.cases)
    then have g: "l_writer s guard = Some t" by (simp add: held_write_def)
    have "finishing r (k (l_data s)) (held_write s t) {}"
      using safe by (intro finishing.writing) auto
    then have "simulates ?s' a"
      using sim decided held \<open>held_read s t = {}\<close> g
      by (intro simulatesI [OF sim, where t = t]) (auto simp: simulates_def held_write_def decided_def)
    then show ?thesis by blast
  qed
qed

lemma never_panics:
  assumes "simulates s a" "l_threads s t = Some (c, m)" shows "m \<noteq> Panics" "m \<noteq> Panicked"
proof -
  have "m \<noteq> Panics \<and> m \<noteq> Panicked"
    using assms
  proof (cases rule: thread_ok_of)
    case waits
    from waits(2) show ?thesis by (cases rule: waiting.cases) (auto simp: read_locked_def)
  next
    case (decided r)
    from decided(2,3) show ?thesis by (cases rule: finishing.cases) (cases "guard \<in> held_write s t"; auto)+
  qed
  then show "m \<noteq> Panics" "m \<noteq> Panicked" by simp_all
qed

lemma simulates_calls:
  assumes sim: "simulates s a" and t: "l_threads s t = None"
  shows "\<exists>a'. (atomic_step exec)\<^sup>*\<^sup>* a a' \<and> simulates (becomes_at t c (prog c) s) a'"
proof -
  have "thread_ok s a t None (a_calls a t)" using sim t by (metis simulates_def)
  then have none: "a_calls a t = None" "held_write s t = {}" "held_read s t = {}" by simp_all
  have waits: "waiting c (prog c) {} {}"
  proof (cases "writes c")
    case True
    from writer [OF this] obtain ls body where "prog c = lock_all (guard # ls) body"
      "distinct (guard # ls)" "safe agree guard body (set (guard # ls))"
      "\<forall>d. ok d \<longrightarrow> run_alone body d = Some (exec c d)" by blast
    then show ?thesis using waiting.locking [where as = "[]" and l = guard and bs = ls and body = body]
      by simp
  next
    case False
    from reader [OF this] waiting.to_read show ?thesis by metis
  qed
  have "atomic_step exec a (a\<lparr>a_calls := (a_calls a)(t \<mapsto> (c, None))\<rparr>)" by (rule atomic_step.called [OF none(1)])
  moreover have "decided (a\<lparr>a_calls := (a_calls a)(t \<mapsto> (c, None))\<rparr>) u = decided a u" for u
    using none(1) by (auto simp: decided_def)
  then have "simulates (becomes_at t c (prog c) s) (a\<lparr>a_calls := (a_calls a)(t \<mapsto> (c, None))\<rparr>)"
    using sim none waits by (intro simulatesI [OF sim, where t = t]) (auto simp: simulates_def)
  ultimately show ?thesis by blast
qed

lemma simulates_step:
  assumes sim: "simulates s a" and step: "locking_step prog s s'"
  shows "\<exists>a'. (atomic_step exec)\<^sup>*\<^sup>* a a' \<and> simulates s' a'"
  using step
proof cases
  case goes_on
  then show ?thesis
  proof cases
    case (poisoned t c x l m)
    with sim show ?thesis by (simp add: simulates_def)
  next
    case (panics t c)
    with never_panics(1) [OF sim] show ?thesis by blast
  qed (use sim in \<open>blast intro: simulates_writes simulates_reads simulates_unlock simulates_acts\<close>)+
qed (use sim in \<open>blast intro: simulates_calls\<close>)

lemma simulates_reachable:
  assumes "ok d" "(locking_step prog)\<^sup>*\<^sup>* (unlocked d) s"
  shows "\<exists>a. (atomic_step exec)\<^sup>*\<^sup>* (quiet d) a \<and> simulates s a"
  using assms(2)
proof (induction rule: rtranclp_induct)
  case base
  have "simulates (unlocked d) (quiet d)"
    using assms(1) by (simp add: simulates_def unlocked_def quiet_def held_write_def held_read_def)
  then show ?case by blast
next
  case (step s s')
  then obtain a where "(atomic_step exec)\<^sup>*\<^sup>* (quiet d) a" "simulates s a" by blast
  with simulates_step [OF this(2) step.hyps(2)] show ?case by (meson rtranclp_trans)
qed

text \<open>Suppose no thread can go on.  Then a call that has had its effect has returned, no lock is held
  for reading, and every thread with locks, or not yet done, wants a lock someone else has; if it
  has locks itself, the guard is among them.\<close>

lemma stuck_finished:
  assumes sim: "simulates s a" and stuck: "\<nexists>s'. lock_step s s'"
    and t: "l_threads s u = Some (c, m)" "finishing r m (held_write s u) (held_read s u)"
  shows "m = Returns r"
  using t(2)
proof (cases rule: finishing.cases)
  case writing
  with t stuck never_panics [OF sim t(1)] show ?thesis
    by (cases m) (auto intro: lock_step.unlock lock_step.acts)
next
  case (has_read l)
  with lock_step.unlock [of s u c l] t(1) stuck show ?thesis by auto
qed

lemma holder_is_thread:
  assumes "simulates s a" "held_write s u \<noteq> {} \<or> held_read s u \<noteq> {}"
  shows "\<exists>c m. l_threads s u = Some (c, m)"
proof -
  have "thread_ok s a u (l_threads s u) (a_calls a u)" using assms(1) by (simp add: simulates_def)
  with assms(2) show ?thesis by (cases "l_threads s u") auto
qed

lemma stuck_no_reader:
  assumes sim: "simulates s a" and stuck: "\<nexists>s'. lock_step s s'"
  shows "l_readers s l = {}"
proof (rule ccontr)
  assume "l_readers s l \<noteq> {}"
  then obtain u where u: "l \<in> held_read s u" by (auto simp: held_read_def)
  with holder_is_thread [OF sim] obtain c m where cm: "l_threads s u = Some (c, m)" by blast
  from sim cm show False
  proof (cases rule: thread_ok_of)
    case waits
    from waits(2) show False
    proof (cases rule: waiting.cases)
      case (reading f l)
      then have "l_threads s u = Some (c, Act id (\<lambda>d. Unlock l (Returns (f d))))" using cm by simp
      from lock_step.acts [OF this] stuck show False by blast
    qed (use u in simp_all)
  next
    case (decided r)
    from decided(2) stuck_finished [OF sim stuck cm decided(2)] u show False
      by (auto elim: finishing.cases)
  qed
qed

lemma stuck_wants:
  assumes sim: "simulates s a" and stuck: "\<nexists>s'. lock_step s s'"
    and t: "l_threads s u = Some (c, m)" "held_write s u \<noteq> {} \<or> (\<nexists>r. m = Returns r)"
  shows "\<exists>l v. l_writer s l = Some v \<and>
    (held_write s u = {} \<or> guard \<in> held_write s u \<and> l \<notin> held_write s u)"
  using sim t(1)
proof (cases rule: thread_ok_of)
  case waits
  note no_reader = stuck_no_reader [OF sim stuck]
  have np: "l_poisoned s = {}" using sim by (simp add: simulates_def)
  from waits(2) show ?thesis
  proof (cases rule: waiting.cases)
    case (to_read f l)
    then have "l_writer s l \<noteq> None"
      using stuck lock_step.reads [of s u c l] t(1) np by (auto simp: read_locked_def)
    with to_read show ?thesis by auto
  next
    case (locking as l bs body)
    then have "l_writer s l \<noteq> None"
      using stuck lock_step.writes [of s u c l] t(1) np no_reader by auto
    moreover have "as = [] \<or> guard \<in> set as" using locking by (cases as) auto
    moreover have "l \<notin> set as" using locking by simp
    ultimately show ?thesis using locking by auto
  next
    case (reading f l)
    then have "u \<in> l_readers s l" by (auto simp: held_read_def)
    with no_reader show ?thesis by blast
  qed
next
  case (decided r)
  from stuck_finished [OF sim stuck t(1) decided(2)] t(2) decided(2) show ?thesis
    by (auto elim: finishing.cases)
qed

text \<open>But then two threads have the guard, each waiting for a lock of the other: as long as a thread
  has not returned some thread can go on.\<close>

lemma progress:
  assumes sim: "simulates s a" and t: "l_threads s t = Some (c, m)" "\<nexists>r. m = Returns r"
  shows "\<exists>s'. lock_step s s'"
proof (rule ccontr)
  assume stuck: "\<nexists>s'. lock_step s s'"
  have blocked: "guard \<in> held_write s v \<and> (\<exists>l w. l_writer s l = Some w \<and> l \<notin> held_write s v)"
    if "l_writer s l = Some v" for l v
  proof -
    have v: "held_write s v \<noteq> {}" using that by (auto simp: held_write_def)
    with holder_is_thread [OF sim] obtain c m where "l_threads s v = Some (c, m)" by blast
    with stuck_wants [OF sim stuck] v show ?thesis by blast
  qed
  from stuck_wants [OF sim stuck t(1)] t(2) obtain l v where "l_writer s l = Some v" by blast
  with blocked obtain l' w where "guard \<in> held_write s v" "l_writer s l' = Some w" "l' \<notin> held_write s v"
    by blast
  moreover from blocked [OF this(2)] have "guard \<in> held_write s w" by blast
  ultimately show False by (auto simp: held_write_def)
qed

subsection \<open>The number of steps\<close>

lemma within_more: "within n m \<Longrightarrow> n \<le> n' \<Longrightarrow> within n' m"
proof (induction arbitrary: n' rule: within.induct)
  case (3 n m l) then show ?case by (cases n') auto
next
  case (4 n m l) then show ?case by (cases n') auto
next
  case (5 n m l) then show ?case by (cases n') auto
next
  case (6 n k u) then show ?case by (cases n') auto
next
  case (7 n) then show ?case by (cases n') auto
qed (auto intro: within.intros)

lemma step_within:
  assumes sim: "simulates s a" and step: "lock_step s s'"
    and b: "\<forall>t c m. l_threads s t = Some (c, m) \<longrightarrow> within (b t) m"
  shows "\<exists>t\<in>dom (l_threads s). 0 < b t \<and> dom (l_threads s') = dom (l_threads s) \<and>
    (\<forall>u c m. l_threads s' u = Some (c, m) \<longrightarrow> within ((b(t := b t - 1)) u) m)"
  using step
proof cases
  case (writes t c l m)
  with b have "within (b t) (Write_Lock l m)" by blast
  with writes b show ?thesis by (intro bexI [of _ t]) auto
next
  case (reads t c l m)
  with b have "within (b t) (Read_Lock l m)" by blast
  with reads b show ?thesis by (intro bexI [of _ t]) auto
next
  case (poisoned t c x l m)
  with sim show ?thesis by (simp add: simulates_def)
next
  case (unlock t c l m)
  with b have "within (b t) (Unlock l m)" by blast
  with unlock b show ?thesis by (intro bexI [of _ t]) auto
next
  case (acts t c u k)
  with b have "within (b t) (Act u k)" by blast
  with acts b show ?thesis by (intro bexI [of _ t]) auto
next
  case (panics t c)
  with never_panics(1) [OF sim] show ?thesis by blast
qed

lemma steps_within:
  assumes "(lock_step ^^ k) s s'" "simulates s a" "finite (dom (l_threads s))"
    "\<forall>t c m. l_threads s t = Some (c, m) \<longrightarrow> within (b t) m"
  shows "k \<le> sum b (dom (l_threads s))"
  using assms
proof (induction k arbitrary: s a b)
  case (Suc k)
  from Suc.prems(1) obtain s1 where s1: "lock_step s s1" "(lock_step ^^ k) s1 s'"
    by (meson relpowp_Suc_E2)
  from step_within [OF Suc.prems(2) s1(1) Suc.prems(4)] obtain t where
    t: "t \<in> dom (l_threads s)" "0 < b t" "dom (l_threads s1) = dom (l_threads s)"
    "\<forall>u c m. l_threads s1 u = Some (c, m) \<longrightarrow> within ((b(t := b t - 1)) u) m" by blast
  from simulates_step [OF Suc.prems(2) locking_step.goes_on [OF s1(1)]] obtain a1 where "simulates s1 a1"
    by blast
  from Suc.IH [OF s1(2) this _ t(4)] t(3) Suc.prems(3)
  have "k \<le> sum (b(t := b t - 1)) (dom (l_threads s))" by simp
  also have "\<dots> < sum b (dom (l_threads s))"
    using t(1,2) Suc.prems(3) by (intro sum_strict_mono_ex1) (auto intro: bexI [of _ t])
  finally show ?case by simp
qed simp

lemma reachable_within:
  assumes "ok d" "(locking_step prog)\<^sup>*\<^sup>* (unlocked d) s"
  shows "finite (dom (l_threads s)) \<and> (\<forall>t c m. l_threads s t = Some (c, m) \<longrightarrow> within bound m)"
  using assms(2)
proof (induction rule: rtranclp_induct)
  case (step s s')
  obtain a where sim: "simulates s a" using simulates_reachable [OF assms(1) step.hyps(1)] by blast
  from step.hyps(2) show ?case
  proof cases
    case (calls t c)
    have "dom (l_threads s') = insert t (dom (l_threads s))" by (simp add: calls(1))
    with step.IH have "finite (dom (l_threads s'))" by simp
    moreover have "within bound m" if "l_threads s' u = Some (c', m)" for u c' m
      using that step.IH short by (auto simp: calls(1) split: if_splits)
    ultimately show ?thesis by blast
  next
    case goes_on
    from step_within [OF sim this, of "\<lambda>_. bound"] step.IH obtain t where
      "dom (l_threads s') = dom (l_threads s)"
      "\<forall>u c m. l_threads s' u = Some (c, m) \<longrightarrow> within (((\<lambda>_. bound)(t := bound - 1)) u) m" by blast
    moreover from this(2) have "within bound m" if "l_threads s' u = Some (c, m)" for u c m
      using that within_more [of "((\<lambda>_. bound)(t := bound - 1)) u" m bound] by simp
    ultimately show ?thesis using step.IH by simp
  qed
qed (simp add: unlocked_def)

subsection \<open>What the discipline gives\<close>

lemma methods_are_atomic:
  assumes "ok d" "(locking_step prog)\<^sup>*\<^sup>* (unlocked d) s"
  shows "\<exists>a. (atomic_step exec)\<^sup>*\<^sup>* (quiet d) a \<and>
    (\<forall>t. map_option fst (l_threads s t) = map_option fst (a_calls a t)) \<and>
    (\<forall>t c r. l_threads s t = Some (c, Returns r) \<longrightarrow> a_calls a t = Some (c, Some r)) \<and>
    (\<forall>l. l_writer s l = None \<longrightarrow> agree {l} (l_data s) (a_data a)) \<and>
    ((\<forall>l. l_writer s l = None) \<longrightarrow> l_data s = a_data a) \<and>
    l_poisoned s = {} \<and> (\<nexists>t c. l_threads s t = Some (c, Panics) \<or> l_threads s t = Some (c, Panicked))"
proof -
  obtain a where a: "(atomic_step exec)\<^sup>*\<^sup>* (quiet d) a" and sim: "simulates s a"
    using simulates_reachable [OF assms] by blast
  have same: "map_option fst (l_threads s t) = map_option fst (a_calls a t)" for t
  proof -
    have "thread_ok s a t (l_threads s t) (a_calls a t)" using sim by (simp add: simulates_def)
    then show ?thesis
      by (cases "(s, a, t, l_threads s t, a_calls a t)" rule: thread_ok.cases) auto
  qed
  have answered: "a_calls a t = Some (c, Some r)" if t: "l_threads s t = Some (c, Returns r)" for t c r
    using sim t
  proof (cases rule: thread_ok_of)
    case waits
    from waits(2) show ?thesis by (cases rule: waiting.cases) (auto simp: read_locked_def)
  next
    case (decided r')
    from decided(2) show ?thesis
    proof (cases rule: finishing.cases)
      case writing
      with decided(1) show ?thesis by simp
    qed
  qed
  have "l_data s = a_data a" if "\<forall>l. l_writer s l = None" using sim that by (simp add: simulates_def)
  moreover have "l_poisoned s = {}" using sim by (simp add: simulates_def)
  ultimately show ?thesis
    using a same answered visible [OF sim] never_panics [OF sim] by blast
qed

lemma no_deadlock:
  assumes "ok d" "(locking_step prog)\<^sup>*\<^sup>* (unlocked d) s"
  shows "(\<exists>s'. lock_step s s') \<or> (\<forall>t c m. l_threads s t = Some (c, m) \<longrightarrow> (\<exists>r. m = Returns r))"
    and "(lock_step ^^ k) s s' \<Longrightarrow> k \<le> bound * card (dom (l_threads s))"
proof -
  obtain a where sim: "simulates s a" using simulates_reachable [OF assms] by blast
  from progress [OF sim] show "(\<exists>s'. lock_step s s') \<or>
      (\<forall>t c m. l_threads s t = Some (c, m) \<longrightarrow> (\<exists>r. m = Returns r))" by blast
  from reachable_within [OF assms] steps_within [OF _ sim, of k s' "\<lambda>_. bound"]
  show "(lock_step ^^ k) s s' \<Longrightarrow> k \<le> bound * card (dom (l_threads s))" by (simp add: mult.commute)
qed

end

end
