(* ===== verification/Registry_Locks.thy ===== *)
theory Registry_Locks
  imports Process Lock_Programs
begin

text \<open>
  The message handler registries at the grain of their locks.  A process has one table from
  functions to transports and one set of free functions, each behind a lock, and every
  transport has a registry of its own behind a third.  The methods that change them take all
  three locks, in the same order; \<open>get_message_handler\<close> hands its locks over to the rollback
  steps, and each is released when its step has run or is dropped.

  The other theories let a registry method happen at once.  That is what this one justifies.
\<close>

datatype registry_lock = Table_Lock | Free_Lock | Config_Lock storage_ref

text \<open>What the locks protect: the statics and each transport's two-way map.\<close>

type_synonym 'bm registries = "statics \<times> (storage_ref \<Rightarrow> 'bm)"

datatype registry_call =
    Get_Handler storage_ref listener_config
  | Release_Handler storage_ref listener_config
  | Get_Transport nat
  | Get_Ids storage_ref
  | Get_Config storage_ref nat
  | Get_Listener storage_ref nat

datatype registry_answer =
    Got "(get_message_handler_error, message_handler_fn_ptr) outcome"
  | Released "unit result"
  | Transport "storage_ref option"
  | Ids "nat list"
  | Config "listener_config option"
  | Listener_Of "listener option"

type_synonym 'bm registry_micro = "(registry_lock, 'bm registries, registry_answer) micro"

subsection \<open>The methods at once\<close>

fun performs ::
  "'bm bimap_api \<Rightarrow> (nat set \<Rightarrow> nat) \<Rightarrow> registry_call \<Rightarrow> 'bm registries \<Rightarrow>
     registry_answer \<times> 'bm registries" where
  "performs B pick (Get_Handler me c) (g, ms) =
     (let (r, g, m) = get_message_handler B pick me c (g, ms me) in (Got r, g, ms(me := m)))"
| "performs B pick (Release_Handler me c) (g, ms) =
     (let (r, g, m) = release_message_handler B c (g, ms me) in (Released r, g, ms(me := m)))"
| "performs B pick (Get_Transport i) (g, ms) =
     (Transport (message_handler_id_to_transport_storage g i), g, ms)"
| "performs B pick (Get_Ids me) (g, ms) = (Ids (get_message_handler_ids B (ms me)), g, ms)"
| "performs B pick (Get_Config me i) (g, ms) =
     (Config (get_listener_config_for_message_handler_id B (ms me) i), g, ms)"
| "performs B pick (Get_Listener me i) (g, ms) =
     (Listener_Of (get_listener_for_message_handler_id B (ms me) i), g, ms)"

subsection \<open>The methods under their locks\<close>

abbreviation registry_locks :: "storage_ref \<Rightarrow> registry_lock list" where
  "registry_locks me \<equiv> [Table_Lock, Free_Lock, Config_Lock me]"

fun unlock_all :: "'l list \<Rightarrow> ('l, 'd, 'r) micro \<Rightarrow> ('l, 'd, 'r) micro" where
  "unlock_all [] m = m"
| "unlock_all (l # ls) m = Unlock l (unlock_all ls m)"

text \<open>Filing the listener.  When that fails the rollback steps run in the order they were pushed,
  and each drops the lock it was given; the registry's own lock goes at the end.\<close>

definition insert_config_program ::
  "'bm bimap_api \<Rightarrow> storage_ref \<Rightarrow> listener_config \<Rightarrow> nat \<Rightarrow> 'bm registry_micro" where
  "insert_config_program B me c i =
     Act (\<lambda>(g, ms). (g, ms(me := snd (insert_message_handler_id_and_listener_config B i c (ms me)))))
       (\<lambda>(g, ms).
          case fst (insert_message_handler_id_and_listener_config B i c (ms me)) of
            Ok _ \<Rightarrow>
              (case get_message_extern_fn i of
                 Ok f \<Rightarrow> unlock_all [Free_Lock, Table_Lock, Config_Lock me] (Returns (Got (Ok f)))
               | _ \<Rightarrow> Panics)
          | Err err \<Rightarrow>
              Act (\<lambda>(g, ms). (rollback_free_id i g, ms)) (\<lambda>_. Unlock Free_Lock
             (Act (\<lambda>(g, ms). (rollback_remove_transport i g, ms)) (\<lambda>_. Unlock Table_Lock
               (case err of
                  MessageHandlerIdAlreadyExists j \<Rightarrow>
                    Unlock (Config_Lock me) (Returns (Got (Err (ListenerIdAlreadyExists j))))
                | BothListenerConfigAlreadyExists \<Rightarrow>
                    (case get_message_extern_fn i of
                       Ok f \<Rightarrow> Unlock (Config_Lock me)
                                (Returns (Got (Err (ListenerConfigAlreadyExists f))))
                     | _ \<Rightarrow> Panics)))))
          | Panic \<Rightarrow> Panics)"

definition insert_transport_program ::
  "'bm bimap_api \<Rightarrow> storage_ref \<Rightarrow> listener_config \<Rightarrow> nat \<Rightarrow> 'bm registry_micro" where
  "insert_transport_program B me c i =
     Act (\<lambda>(g, ms). (g\<lparr>message_handler_id_to_transport_storage :=
            snd (insert_message_handler_id_transport i me
              (message_handler_id_to_transport_storage g))\<rparr>, ms))
       (\<lambda>(g, ms).
          case fst (insert_message_handler_id_transport i me
                 (message_handler_id_to_transport_storage g)) of
            Ok _ \<Rightarrow> insert_config_program B me c i
          | Err err \<Rightarrow>
              Act (\<lambda>(g, ms). (rollback_free_id i g, ms)) (\<lambda>_. Unlock Free_Lock
                (unlock_all [Config_Lock me, Table_Lock] (Returns (Got (Err (OtherError err))))))
          | Panic \<Rightarrow> Panics)"

definition get_handler_program ::
  "'bm bimap_api \<Rightarrow> (nat set \<Rightarrow> nat) \<Rightarrow> storage_ref \<Rightarrow> listener_config \<Rightarrow> 'bm registry_micro" where
  "get_handler_program B pick me c =
     Act (\<lambda>(g, ms). (g\<lparr>free_message_handler_ids :=
            snd (find_available_message_handler_id pick (free_message_handler_ids g))\<rparr>, ms))
       (\<lambda>(g, ms).
          case fst (find_available_message_handler_id pick (free_message_handler_ids g)) of
            Ok i \<Rightarrow> insert_transport_program B me c i
          | _ \<Rightarrow> unlock_all (rev (registry_locks me))
                   (Returns (Got (Err (OtherError RESOURCE_EXHAUSTED)))))"

definition release_handler_program ::
  "'bm bimap_api \<Rightarrow> storage_ref \<Rightarrow> listener_config \<Rightarrow> 'bm registry_micro" where
  "release_handler_program B me c =
     Act id (\<lambda>(g, ms).
       case get_message_handler_id_for_listener_config B (ms me) c of
         None \<Rightarrow> unlock_all (rev (registry_locks me)) (Returns (Released (Err NOT_FOUND)))
       | Some i \<Rightarrow>
           Act (\<lambda>(g, ms). (g\<lparr>free_message_handler_ids :=
               snd (free_message_handler_id i (free_message_handler_ids g))\<rparr>, ms)) (\<lambda>_.
           Act (\<lambda>(g, ms). (g\<lparr>message_handler_id_to_transport_storage :=
               snd (remove_message_handler_id_transport i
                 (message_handler_id_to_transport_storage g))\<rparr>, ms)) (\<lambda>_.
           Act (\<lambda>(g, ms). (g, ms(me := snd (remove_based_on_message_handler_id B i (ms me))))) (\<lambda>_.
             unlock_all (rev (registry_locks me)) (Returns (Released (Ok ())))))))"

fun registry_program ::
  "'bm bimap_api \<Rightarrow> (nat set \<Rightarrow> nat) \<Rightarrow> registry_call \<Rightarrow> 'bm registry_micro" where
  "registry_program B pick (Get_Handler me c) =
     lock_all (registry_locks me) (get_handler_program B pick me c)"
| "registry_program B pick (Release_Handler me c) =
     lock_all (registry_locks me) (release_handler_program B me c)"
| "registry_program B pick (Get_Transport i) =
     read_locked Table_Lock (\<lambda>(g, ms). Transport (message_handler_id_to_transport_storage g i))"
| "registry_program B pick (Get_Ids me) =
     read_locked (Config_Lock me) (\<lambda>(g, ms). Ids (get_message_handler_ids B (ms me)))"
| "registry_program B pick (Get_Config me i) =
     read_locked (Config_Lock me)
       (\<lambda>(g, ms). Config (get_listener_config_for_message_handler_id B (ms me) i))"
| "registry_program B pick (Get_Listener me i) =
     read_locked (Config_Lock me)
       (\<lambda>(g, ms). Listener_Of (get_listener_for_message_handler_id B (ms me) i))"

subsection \<open>They follow the discipline\<close>

definition registries_agree :: "registry_lock set \<Rightarrow> 'bm registries \<Rightarrow> 'bm registries \<Rightarrow> bool" where
  "registries_agree L d e \<longleftrightarrow>
     (Table_Lock \<in> L \<longrightarrow> message_handler_id_to_transport_storage (fst d) =
        message_handler_id_to_transport_storage (fst e)) \<and>
     (Free_Lock \<in> L \<longrightarrow> free_message_handler_ids (fst d) = free_message_handler_ids (fst e)) \<and>
     (\<forall>me. Config_Lock me \<in> L \<longrightarrow> snd d me = snd e me) \<and>
     (fst d)\<lparr>message_handler_id_to_transport_storage := Map.empty, free_message_handler_ids := {}\<rparr> =
     (fst e)\<lparr>message_handler_id_to_transport_storage := Map.empty, free_message_handler_ids := {}\<rparr>"

definition registries_ok :: "'bm bimap_api \<Rightarrow> ('bm \<Rightarrow> bool) \<Rightarrow> 'bm registries \<Rightarrow> bool" where
  "registries_ok B bm_ok d \<longleftrightarrow> (\<forall>me. registry_inv B bm_ok me (fst d, snd d me))"

fun changes_registry :: "registry_call \<Rightarrow> bool" where
  "changes_registry (Get_Handler me c) = True"
| "changes_registry (Release_Handler me c) = True"
| "changes_registry _ = False"

lemma get_handler_safe:
  "safe registries_agree Table_Lock (get_handler_program B pick me c) (set (registry_locks me))"
  by (auto simp: get_handler_program_def insert_transport_program_def insert_config_program_def
      registries_agree_def rollback_free_id_def rollback_remove_transport_def
      split: outcome.split message_handler_id_and_listener_config_error.split)

lemma release_handler_safe:
  "safe registries_agree Table_Lock (release_handler_program B me c) (set (registry_locks me))"
  by (auto simp: release_handler_program_def registries_agree_def split: option.split)

lemma insert_config_no_panic:
  "fst (insert_message_handler_id_and_listener_config B i c m) \<noteq> Panic"
  by (simp add: insert_message_handler_id_and_listener_config_def split: option.split)

lemma get_handler_runs:
  assumes ok: "registries_ok B bm_ok d" and pick: "iterates_members pick"
  shows "run_alone (get_handler_program B pick me c) d = Some (performs B pick (Get_Handler me c) d)"
proof -
  obtain g ms where d: "d = (g, ms)" by (cases d)
  have inv: "statics_ok g" using ok by (simp add: d registries_ok_def registry_inv_def)
  show ?thesis
  proof (cases "free_message_handler_ids g = {}")
    case True
    then show ?thesis
      by (simp add: d get_handler_program_def get_message_handler_def find_available_message_handler_id_def)
  next
    case False
    let ?i = "pick (free_message_handler_ids g)"
    have "?i \<in> free_message_handler_ids g"
      using pick statics_ok_finite [OF inv] False by (simp add: iterates_members_def)
    then have "get_message_extern_fn ?i = Ok (Extern_fn_message_handler ?i)"
      using statics_ok_free [OF inv] by (simp add: get_message_extern_fn_eq)
    with False show ?thesis
      by (auto simp: d get_handler_program_def insert_transport_program_def insert_config_program_def
          get_message_handler_def find_available_message_handler_id_def run_rollback_def Let_def
          case_prod_unfold insert_message_handler_id_transport_def insert_config_no_panic
          split: outcome.split message_handler_id_and_listener_config_error.split option.split)
  qed
qed

lemma release_handler_runs:
  "run_alone (release_handler_program B me c) d = Some (performs B pick (Release_Handler me c) d)"
  by (cases d) (auto simp: release_handler_program_def release_message_handler_def Let_def
      case_prod_unfold split: option.split)

lemma registries_ok_upd:
  assumes ok: "registries_ok B bm_ok (g, ms)" and me: "registry_inv B bm_ok me (g', m')"
    and others: "\<And>other i. other \<noteq> me \<Longrightarrow> message_handler_id_to_transport_storage g' i = Some other \<longleftrightarrow>
      message_handler_id_to_transport_storage g i = Some other"
  shows "registries_ok B bm_ok (g', ms(me := m'))"
proof -
  have "registry_inv B bm_ok other (g', ms other)" if "other \<noteq> me" for other
    using ok me others [OF that] by (simp add: registries_ok_def registry_inv_def)
  with me show ?thesis by (simp add: registries_ok_def)
qed

context bimap_spec
begin

lemma registries_ok_get:
  assumes ok: "registries_ok B bm_ok (g, ms)" and pick: "iterates_members pick"
    and get: "get_message_handler B pick me c (g, ms me) = (r, g', m')"
  shows "registries_ok B bm_ok (g', ms(me := m'))"
proof -
  have "registry_inv B bm_ok me (g, ms me)" using ok by (simp add: registries_ok_def)
  from handlers.get_inv [OF this pick, of c] get have "registry_inv B bm_ok me (g', m')" by simp
  then show ?thesis
    using get_message_handler_others [OF get] by (intro registries_ok_upd [OF ok]) auto
qed

lemma registries_ok_release:
  assumes ok: "registries_ok B bm_ok (g, ms)"
    and release: "release_message_handler B c (g, ms me) = (r, g', m')"
  shows "registries_ok B bm_ok (g', ms(me := m'))"
proof -
  have inv: "registry_inv B bm_ok me (g, ms me)" using ok by (simp add: registries_ok_def)
  show ?thesis
  proof (cases "c \<in> ran (bm_get_by_left B (ms me))")
    case True
    then obtain i where i: "bm_get_by_left B (ms me) i = Some c" by (auto simp: ran_def)
    have "message_handler_id_to_transport_storage g i = Some me"
      using registry_inv_dom [OF inv, of i] i by simp
    moreover from release_known [OF inv i] release
    have "message_handler_id_to_transport_storage g' = (message_handler_id_to_transport_storage g)(i := None)"
      by auto
    ultimately show ?thesis
      using handlers.release_inv [OF inv, of c] release by (intro registries_ok_upd [OF ok]) auto
  next
    case False
    with release_unknown [OF _ False, of g] release inv have "g' = g" "m' = ms me"
      by (auto simp: registry_inv_def)
    with ok show ?thesis by simp
  qed
qed

end

lemma registry_program_within: "within 11 (registry_program B pick c)"
  by (cases c) (auto simp: get_handler_program_def insert_transport_program_def insert_config_program_def
      release_handler_program_def read_locked_def eval_nat_numeral
      split: outcome.split message_handler_id_and_listener_config_error.split option.split)

lemma registry_lock_protocol:
  assumes spec: "bimap_spec B bm_ok" and pick: "iterates_members pick"
  shows "lock_protocol (registry_program B pick) (performs B pick) changes_registry Table_Lock
    registries_agree (registries_ok B bm_ok) 11"
proof (unfold_locales, goal_cases)
  case (4 c)
  show ?case
  proof (cases c)
    case (Get_Handler me lc)
    then show ?thesis
      using get_handler_safe [of B pick me lc] get_handler_runs [OF _ pick, of B bm_ok _ me lc]
      by (intro exI [of _ "[Free_Lock, Config_Lock me]"] exI [of _ "get_handler_program B pick me lc"])
        (simp del: performs.simps)
  next
    case (Release_Handler me lc)
    then show ?thesis
      using release_handler_safe [of B me lc] release_handler_runs [of B me lc _ pick]
      by (intro exI [of _ "[Free_Lock, Config_Lock me]"] exI [of _ "release_handler_program B me lc"])
        (simp del: performs.simps)
  qed (use 4 in simp_all)
next
  case (5 c)
  show ?case
  proof (cases c)
    case (Get_Transport i)
    show ?thesis unfolding Get_Transport
      by (intro exI conjI, rule registry_program.simps(3)) (auto simp: registries_agree_def)
  next
    case (Get_Ids me)
    show ?thesis unfolding Get_Ids
      by (intro exI conjI, rule registry_program.simps(4)) (auto simp: registries_agree_def)
  next
    case (Get_Config me i)
    show ?thesis unfolding Get_Config
      by (intro exI conjI, rule registry_program.simps(5)) (auto simp: registries_agree_def)
  next
    case (Get_Listener me i)
    show ?thesis unfolding Get_Listener
      by (intro exI conjI, rule registry_program.simps(6)) (auto simp: registries_agree_def)
  qed (use 5 in simp_all)
next
  case (6 d c r d')
  then show ?case
    using bimap_spec.registries_ok_get [OF spec _ pick] bimap_spec.registries_ok_release [OF spec]
    by (cases d; cases c) (auto split: prod.splits)
next
  case (7 c)
  show ?case by (rule registry_program_within)
qed (auto simp: registries_agree_def)

interpretation pair_registries: lock_protocol "registry_program pair_bimap Min" "performs pair_bimap Min"
  changes_registry Table_Lock registries_agree "registries_ok pair_bimap pairs_ok" 11
  by (rule registry_lock_protocol [OF pairs.bimap_spec_axioms iterates_members_Min])

lemma registries_ok_init: "registries_ok pair_bimap pairs_ok (statics_init, \<lambda>_. bm_new pair_bimap)"
proof -
  have "message_handler_id_to_transport_storage statics_init = Map.empty" by (simp add: statics_init_def)
  then show ?thesis
    by (simp add: registries_ok_def registry_inv_def statics_ok_init pairs.new_ok dom_def)
qed

text \<open>A process in which one thread has taken the first lock of \<open>get_message_handler\<close>, and another
  has meanwhile looked a listener up.\<close>

lemma demo_locking:
  obtains s where "(locking_step (registry_program pair_bimap Min))\<^sup>*\<^sup>*
      (unlocked (statics_init, \<lambda>_. bm_new pair_bimap)) s"
    "\<exists>m. l_threads s 0 = Some (Get_Handler 0 (demo_uri 1 0x8001, None, Listener 3), Write_Lock Free_Lock m)"
    "l_threads s 1 = Some (Get_Listener 0 5, Returns (Listener_Of None))" "card (dom (l_threads s)) = 2"
    "l_writer s Table_Lock = Some 0"
proof -
  let ?d = "(statics_init, \<lambda>_. bm_new pair_bimap)" and ?P = "registry_program pair_bimap Min"
  let ?c = "Get_Handler 0 (demo_uri 1 0x8001, None, Listener 3)" and ?e = "Get_Listener 0 5"
  let ?f = "\<lambda>(g, ms). Listener_Of (get_listener_for_message_handler_id pair_bimap (ms 0) 5)"
  let ?s0 = "unlocked ?d"
  let ?s1 = "becomes_at 0 ?c (?P ?c) ?s0"
  let ?m = "lock_all [Free_Lock, Config_Lock 0] (get_handler_program pair_bimap Min 0
    (demo_uri 1 0x8001, None, Listener 3))"
  let ?s2 = "becomes_at 0 ?c ?m (?s1\<lparr>l_writer := (l_writer ?s1)(Table_Lock \<mapsto> 0)\<rparr>)"
  let ?s3 = "becomes_at 1 ?e (?P ?e) ?s2"
  let ?n = "Act id (\<lambda>d. Unlock (Config_Lock 0) (Returns (?f d)))"
  let ?s4 = "becomes_at 1 ?e ?n (?s3\<lparr>l_readers := (l_readers ?s3)(Config_Lock 0 := insert 1 (l_readers ?s3 (Config_Lock 0)))\<rparr>)"
  let ?s5 = "becomes_at 1 ?e (Unlock (Config_Lock 0) (Returns (?f (l_data ?s4)))) (?s4\<lparr>l_data := id (l_data ?s4)\<rparr>)"
  let ?s6 = "becomes_at 1 ?e (Returns (?f (l_data ?s4))) (unlocks 1 {Config_Lock 0} ?s5)"
  have "locking_step ?P ?s0 ?s1" by (rule locking_step.calls) (simp add: unlocked_def)
  moreover have "locking_step ?P ?s1 ?s2"
    by (intro locking_step.goes_on lock_step.writes) (simp_all add: unlocked_def)
  moreover have "locking_step ?P ?s2 ?s3" by (rule locking_step.calls) (simp add: unlocked_def)
  moreover have "locking_step ?P ?s3 ?s4"
    by (intro locking_step.goes_on lock_step.reads) (simp_all add: unlocked_def read_locked_def)
  moreover have "locking_step ?P ?s4 ?s5"
    by (intro locking_step.goes_on lock_step.acts) (simp add: id_def)
  moreover have "locking_step ?P ?s5 ?s6"
    by (intro locking_step.goes_on lock_step.unlock) simp
  ultimately have "(locking_step ?P)\<^sup>*\<^sup>* ?s0 ?s6" by (meson rtranclp.rtrancl_refl rtranclp.rtrancl_into_rtrancl)
  moreover have "?f (l_data ?s4) = Listener_Of None"
    by (simp add: unlocked_def get_listener_for_message_handler_id_def pairs.new_ok)
  moreover have "dom (l_threads ?s6) = {0, 1}" by (auto simp: unlocked_def)
  moreover have "l_writer ?s6 Table_Lock = Some 0" by (simp add: unlocks_def)
  ultimately show thesis using that [of ?s6] by simp
qed

text \<open>C8. A method of a message handler registry is as good as one atomic step.  However the
  lock acquisitions, changes and releases of any number of threads that use the registries of a
  process interleave, there is an order in which the same calls happen one at a time and give
  each thread that has returned its answer; whoever takes a lock sees what it protects as that
  order left it; and when no lock is held the registries are as it left them.  No thread panics
  under a lock, so none is ever poisoned.\<close>

theorem registry_methods_are_atomic:
  assumes "bimap_spec B bm_ok" "iterates_members pick" "registries_ok B bm_ok d"
    and "(locking_step (registry_program B pick))\<^sup>*\<^sup>* (unlocked d) s"
  shows "\<exists>a. (atomic_step (performs B pick))\<^sup>*\<^sup>* (quiet d) a \<and>
    (\<forall>t. map_option fst (l_threads s t) = map_option fst (a_calls a t)) \<and>
    (\<forall>t c r. l_threads s t = Some (c, Returns r) \<longrightarrow> a_calls a t = Some (c, Some r)) \<and>
    (\<forall>l. l_writer s l = None \<longrightarrow> registries_agree {l} (l_data s) (a_data a)) \<and>
    ((\<forall>l. l_writer s l = None) \<longrightarrow> l_data s = a_data a) \<and>
    l_poisoned s = {} \<and> (\<nexists>t c. l_threads s t = Some (c, Panics) \<or> l_threads s t = Some (c, Panicked))"
  by (rule lock_protocol.methods_are_atomic [OF registry_lock_protocol [OF assms(1,2)] assms(3,4)])

theorem registry_methods_are_atomic_witness:
  "\<exists>s a. (locking_step (registry_program pair_bimap Min))\<^sup>*\<^sup>*
      (unlocked (statics_init, \<lambda>_. bm_new pair_bimap)) s \<and>
    (atomic_step (performs pair_bimap Min))\<^sup>*\<^sup>* (quiet (statics_init, \<lambda>_. bm_new pair_bimap)) a \<and>
    (\<exists>m. l_threads s 0 = Some (Get_Handler 0 (demo_uri 1 0x8001, None, Listener 3),
       Write_Lock Free_Lock m)) \<and>
    a_calls a 1 = Some (Get_Listener 0 5, Some (Listener_Of None))"
proof -
  obtain s where s: "(locking_step (registry_program pair_bimap Min))\<^sup>*\<^sup>*
      (unlocked (statics_init, \<lambda>_. bm_new pair_bimap)) s"
    "\<exists>m. l_threads s 0 = Some (Get_Handler 0 (demo_uri 1 0x8001, None, Listener 3), Write_Lock Free_Lock m)"
    "l_threads s 1 = Some (Get_Listener 0 5, Returns (Listener_Of None))"
    by (rule demo_locking)
  from registry_methods_are_atomic [OF pairs.bimap_spec_axioms iterates_members_Min registries_ok_init s(1)]
  show ?thesis using s by blast
qed

text \<open>C9. The registries never deadlock.  In every state the threads can reach, if a thread has
  not returned, some thread can go on; and however they are scheduled, after at most eleven
  actions for each thread that has called all have returned.\<close>

theorem registry_locks_never_deadlock:
  assumes "bimap_spec B bm_ok" "iterates_members pick" "registries_ok B bm_ok d"
    and "(locking_step (registry_program B pick))\<^sup>*\<^sup>* (unlocked d) s"
  shows "((\<exists>s'. lock_step s s') \<or> (\<forall>t c m. l_threads s t = Some (c, m) \<longrightarrow> (\<exists>r. m = Returns r))) \<and>
    (\<forall>k s'. (lock_step ^^ k) s s' \<longrightarrow> k \<le> 11 * card (dom (l_threads s)))"
  using lock_protocol.no_deadlock [OF registry_lock_protocol [OF assms(1,2)] assms(3,4)] by blast

theorem registry_locks_never_deadlock_witness:
  "\<exists>s. (locking_step (registry_program pair_bimap Min))\<^sup>*\<^sup>*
      (unlocked (statics_init, \<lambda>_. bm_new pair_bimap)) s \<and> l_writer s Table_Lock = Some 0 \<and>
    (\<exists>s'. lock_step s s') \<and> (\<forall>k s'. (lock_step ^^ k) s s' \<longrightarrow> k \<le> 22)"
proof -
  obtain s where s: "(locking_step (registry_program pair_bimap Min))\<^sup>*\<^sup>*
      (unlocked (statics_init, \<lambda>_. bm_new pair_bimap)) s"
    "\<exists>m. l_threads s 0 = Some (Get_Handler 0 (demo_uri 1 0x8001, None, Listener 3), Write_Lock Free_Lock m)"
    "card (dom (l_threads s)) = 2" "l_writer s Table_Lock = Some 0"
    by (rule demo_locking)
  from registry_locks_never_deadlock [OF pairs.bimap_spec_axioms iterates_members_Min registries_ok_init s(1)]
    s(2,3) have "\<exists>s'. lock_step s s'" "\<forall>k s'. (lock_step ^^ k) s s' \<longrightarrow> k \<le> 22" by fastforce+
  with s(1,4) show ?thesis by blast
qed

end
