(* ===== verification/Build_Script.thy ===== *)
theory Build_Script
  imports Prelude "HOL-Library.Sublist"
begin

text \<open>
  What the build script of vsomeip-sys (\<^verbatim>\<open>vsomeip-sys/build.rs\<close>) does with text and files.  Strings are
  the bytes of their UTF-8 encoding.  A path is the list of its components; the file system
  lists every path with what is there, in the order in which a directory is read.
\<close>

subsection \<open>Text\<close>

text \<open>\<open>str::replace\<close>: every occurrence from the left, none overlapping another.  An empty pattern
  occurs between any two characters and at both ends.\<close>

function replace_all :: "string \<Rightarrow> string \<Rightarrow> string \<Rightarrow> string" where
  "replace_all pat new s =
     (if pat = [] then new @ concat (map (\<lambda>c. c # new) s)
      else case s of
        [] \<Rightarrow> []
      | c # s' \<Rightarrow>
          if prefix pat s then new @ replace_all pat new (drop (length pat) s)
          else c # replace_all pat new s')"
  by pat_completeness auto
termination by (relation "measure (\<lambda>(_, _, s). length s)") auto

declare replace_all.simps [simp del]

definition newline :: char where "newline = CHR 0x0A"
definition carriage_return :: char where "carriage_return = CHR 0x0D"

text \<open>\<open>BufRead::lines\<close>: a line ends at a newline, which is removed with a carriage return before
  it; what follows the last newline is a line unless it is empty.\<close>

function lines_of :: "string \<Rightarrow> string list" where
  "lines_of s =
     (case s of
        [] \<Rightarrow> []
      | _ # _ \<Rightarrow>
          let line = takeWhile (\<lambda>c. c \<noteq> newline) s;
              rest = dropWhile (\<lambda>c. c \<noteq> newline) s
          in case rest of
               [] \<Rightarrow> [line]
             | _ # rest \<Rightarrow>
                 (if line \<noteq> [] \<and> last line = carriage_return then butlast line else line)
                 # lines_of rest)"
  by pat_completeness auto
termination
proof (relation "measure length", goal_cases)
  case (2 s c cs line rest d ds)
  have "dropWhile (\<lambda>c. c \<noteq> newline) s = d # ds" using 2 by metis
  then have "length (d # ds) \<le> length s" by (metis length_dropWhile_le)
  then show ?case by simp
qed simp

declare lines_of.simps [simp del]

definition continuation :: "char \<Rightarrow> bool" where
  "continuation c \<longleftrightarrow> 0x80 \<le> (of_char c :: nat) \<and> (of_char c :: nat) \<le> 0xBF"

text \<open>Whether a line is the encoding of a Rust string; reading one that is not is an error.\<close>

fun utf8_valid :: "string \<Rightarrow> bool" where
  "utf8_valid [] = True"
| "utf8_valid (a # s) =
     (let n = (of_char a :: nat) in
      if n < 0x80 then utf8_valid s
      else if 0xC2 \<le> n \<and> n \<le> 0xDF then
        (case s of b # s \<Rightarrow> continuation b \<and> utf8_valid s | _ \<Rightarrow> False)
      else if 0xE0 \<le> n \<and> n \<le> 0xEF then
        (case s of b # c # s \<Rightarrow>
           continuation b \<and> continuation c \<and> (n = 0xE0 \<longrightarrow> 0xA0 \<le> (of_char b :: nat)) \<and>
           (n = 0xED \<longrightarrow> (of_char b :: nat) \<le> 0x9F) \<and> utf8_valid s
         | _ \<Rightarrow> False)
      else if 0xF0 \<le> n \<and> n \<le> 0xF4 then
        (case s of b # c # d # s \<Rightarrow>
           continuation b \<and> continuation c \<and> continuation d \<and>
           (n = 0xF0 \<longrightarrow> 0x90 \<le> (of_char b :: nat)) \<and>
           (n = 0xF4 \<longrightarrow> (of_char b :: nat) \<le> 0x8F) \<and> utf8_valid s
         | _ \<Rightarrow> False)
      else False)"

subsection \<open>The rewriting of a line\<close>

definition fix_unused_imports :: "string \<Rightarrow> string" where
  "fix_unused_imports line =
     (let fixed_line = replace_all
            ''pub use bindgen::root::std_chrono_duration_long_AutocxxConcrete;'' '''' line;
          fixed_line = replace_all
            ''pub use bindgen::root::std_chrono_duration_int64_t_AutocxxConcrete;'' '''' fixed_line
      in replace_all ''pub use super::super::bindgen::root::std::chrono::seconds;'' '''' fixed_line)"

definition fix_unsafe_fn_unused :: "string \<Rightarrow> string" where
  "fix_unsafe_fn_unused line =
     (let fixed_line = replace_all ''pub unsafe fn create_payload1'' ''unsafe fn create_payload1'' line
      in replace_all
           ''pub unsafe fn set_data(self: Pin<&mut payload>, _data: *const u8, _length: u32);''
           ''pub(crate) unsafe fn set_data(self: Pin<&mut payload>, _data: *const u8, _length: u32);''
           fixed_line)"

definition fix_doc_build :: "string \<Rightarrow> string" where
  "fix_doc_build line =
     replace_all ''successfully [de]registered'' ''successfully de/registered'' line"

definition add_enum_debug :: "string \<Rightarrow> string" where
  "add_enum_debug line =
     replace_all ''#[derive(Clone, Hash, PartialEq, Eq)]''
       ''#[derive(Clone, Hash, PartialEq, Eq, Debug)]'' line"

definition rewrite_line :: "string \<Rightarrow> string" where
  "rewrite_line line = add_enum_debug (fix_doc_build (fix_unsafe_fn_unused (fix_unused_imports line)))"

text \<open>The loop over the lines: what was written when a line cannot be read, and whether one
  could not.\<close>

fun rewrite_lines :: "string list \<Rightarrow> string \<times> bool" where
  "rewrite_lines [] = ([], True)"
| "rewrite_lines (line # lines) =
     (if \<not> utf8_valid line then ([], False)
      else let (rest, all_read) = rewrite_lines lines
           in (rewrite_line line @ [newline] @ rest, all_read))"

subsection \<open>Files\<close>

text \<open>A \<open>PathBuf\<close> is its text; the file system is listed under the components of a path.  An absolute
  argument of \<open>join\<close> replaces the path.\<close>

definition slash :: char where "slash = CHR 0x2F"

definition path_join :: "string \<Rightarrow> string \<Rightarrow> string" where
  "path_join p s =
     (if s \<noteq> [] \<and> hd s = slash then s
      else if p = [] \<or> last p = slash then p @ s
      else p @ [slash] @ s)"

fun split_at :: "char \<Rightarrow> string \<Rightarrow> string list" where
  "split_at d [] = [[]]"
| "split_at d (c # s) =
     (case split_at d s of
        [] \<Rightarrow> []
      | part # parts \<Rightarrow> if c = d then [] # part # parts else (c # part) # parts)"

definition components :: "string \<Rightarrow> string list" where
  "components p = filter (\<lambda>c. c \<notin> {[], ''.''}) (split_at slash p)"

text \<open>\<open>Path::with_extension\<close> on a path that ends in a file name: the text after the last full stop
  of the name is replaced, one is added if the name has none (or only a leading one).\<close>

definition with_extension :: "string \<Rightarrow> string \<Rightarrow> string" where
  "with_extension p ext =
     (let name = rev (takeWhile (\<lambda>c. c \<noteq> slash) (rev p));
          folder = rev (dropWhile (\<lambda>c. c \<noteq> slash) (rev p));
          stem = rev (drop 1 (dropWhile (\<lambda>c. c \<noteq> CHR ''.'') (rev name)))
      in folder @ (if stem = [] then name else stem) @ ''.'' @ ext)"

type_synonym path = "string list"

datatype node = Directory | Contents string

type_synonym files = "(path \<times> node) list"

definition node_at :: "files \<Rightarrow> path \<Rightarrow> node option" where
  "node_at fs p = (if p = [] then Some Directory else map_of fs p)"

datatype io_call = Create_Dir path | Read_Dir path | Copy path path | Open path | Create path | Rename path path

text \<open>What can go wrong on the disk: a call the operating system refuses, and a file that takes
  only so many bytes of what is written to it.\<close>

record disk =
  refuses :: "io_call \<Rightarrow> bool"
  short_write :: "path \<Rightarrow> nat option"

text \<open>\<open>create_dir_all\<close> makes the path and all its ancestors, from the top; it stops at the first
  that is a file or that the operating system refuses.\<close>

fun create_dirs :: "'a disk_scheme \<Rightarrow> path list \<Rightarrow> files \<Rightarrow> (unit, unit) outcome \<times> files" where
  "create_dirs d [] fs = (Ok (), fs)"
| "create_dirs d (p # ps) fs =
     (case node_at fs p of
        Some Directory \<Rightarrow> create_dirs d ps fs
      | Some (Contents _) \<Rightarrow> (Err (), fs)
      | None \<Rightarrow> if refuses d (Create_Dir p) then (Err (), fs)
                else create_dirs d ps (fs @ [(p, Directory)]))"

definition create_dir_all :: "'a disk_scheme \<Rightarrow> path \<Rightarrow> files \<Rightarrow> (unit, unit) outcome \<times> files" where
  "create_dir_all d p = create_dirs d (prefixes p)"

definition read_dir :: "'a disk_scheme \<Rightarrow> path \<Rightarrow> files \<Rightarrow> string list option" where
  "read_dir d p fs =
     (if node_at fs p = Some Directory \<and> \<not> refuses d (Read_Dir p)
      then Some (map last (filter (\<lambda>q. q \<noteq> [] \<and> butlast q = p) (map fst fs)))
      else None)"

definition set_file :: "path \<Rightarrow> string \<Rightarrow> files \<Rightarrow> files" where
  "set_file p c fs =
     (if map_of fs p = None then fs @ [(p, Contents c)]
      else map (\<lambda>(q, x). (q, if q = p then Contents c else x)) fs)"

text \<open>A file that is opened for writing is empty first; its directory has to exist.\<close>

definition can_create :: "path \<Rightarrow> files \<Rightarrow> bool" where
  "can_create p fs \<longleftrightarrow>
     node_at fs p \<noteq> Some Directory \<and> node_at fs (butlast p) = Some Directory"

definition write_file ::
  "'a disk_scheme \<Rightarrow> path \<Rightarrow> string \<Rightarrow> files \<Rightarrow> (unit, unit) outcome \<times> files" where
  "write_file d p c fs =
     (case short_write d p of
        None \<Rightarrow> (Ok (), set_file p c fs)
      | Some n \<Rightarrow> (if length c \<le> n then Ok () else Err (), set_file p (take n c) fs))"

definition copy_file ::
  "'a disk_scheme \<Rightarrow> path \<Rightarrow> path \<Rightarrow> files \<Rightarrow> (unit, unit) outcome \<times> files" where
  "copy_file d a b fs =
     (case node_at fs a of
        Some (Contents c) \<Rightarrow>
          if refuses d (Copy a b) \<or> \<not> can_create b fs then (Err (), fs) else write_file d b c fs
      | _ \<Rightarrow> (Err (), fs))"

definition rename_file ::
  "'a disk_scheme \<Rightarrow> path \<Rightarrow> path \<Rightarrow> files \<Rightarrow> (unit, unit) outcome \<times> files" where
  "rename_file d a b fs =
     (case node_at fs a of
        Some (Contents c) \<Rightarrow>
          if refuses d (Rename a b) \<or> \<not> can_create b fs then (Err (), fs)
          else (Ok (), set_file b c (filter (\<lambda>(q, _). q \<noteq> a) fs))
      | _ \<Rightarrow> (Err (), fs))"

text \<open>The recursion goes down the source tree; copying a directory into itself would not end, so
  the depth is bounded by fuel and \<open>None\<close> stands for running out of it.\<close>

function copy_dir_all ::
  "'a disk_scheme \<Rightarrow> nat \<Rightarrow> path \<Rightarrow> path \<Rightarrow> files \<Rightarrow> ((unit, unit) outcome \<times> files) option"
and copy_entries ::
  "'a disk_scheme \<Rightarrow> nat \<Rightarrow> path \<Rightarrow> path \<Rightarrow> string list \<Rightarrow> files \<Rightarrow>
     ((unit, unit) outcome \<times> files) option" where
  "copy_dir_all d 0 src dst fs = None"
| "copy_dir_all d (Suc n) src dst fs =
     (case create_dir_all d dst fs of
        (Ok _, fs) \<Rightarrow>
          (case read_dir d src fs of
             None \<Rightarrow> Some (Err (), fs)
           | Some entries \<Rightarrow> copy_entries d n src dst entries fs)
      | (e, fs) \<Rightarrow> Some (e, fs))"
| "copy_entries d n src dst [] fs = Some (Ok (), fs)"
| "copy_entries d n src dst (name # names) fs =
     (case if node_at fs (src @ [name]) = Some Directory
           then copy_dir_all d n (src @ [name]) (dst @ [name]) fs
           else Some (copy_file d (src @ [name]) (dst @ [name]) fs) of
        None \<Rightarrow> None
      | Some (Ok _, fs) \<Rightarrow> copy_entries d n src dst names fs
      | Some (e, fs) \<Rightarrow> Some (e, fs))"
  by pat_completeness auto
termination
  by (relation "measures [\<lambda>x. case x of Inl (_, n, _) \<Rightarrow> n | Inr (_, n, _) \<Rightarrow> n,
      \<lambda>x. case x of Inl _ \<Rightarrow> 0 | Inr (_, _, _, _, names, _) \<Rightarrow> Suc (length names)]") auto

subsection \<open>The script\<close>

text \<open>What the script runs is a parameter: the environment variables, programs it starts (\<open>None\<close>
  when one cannot be started, else whether it succeeded), and the libraries autocxx, cxx and
  cmake, which end as a call does and may change files.\<close>

record tools = disk +
  env_var :: "string \<Rightarrow> string option"
  run_command :: "string list \<Rightarrow> files \<Rightarrow> bool option \<times> files"
  autocxx_build :: "string \<Rightarrow> string list \<Rightarrow> string list \<Rightarrow> files \<Rightarrow> (unit, unit) outcome \<times> files"
  autocxx_compile :: "string list \<Rightarrow> string \<Rightarrow> files \<Rightarrow> (unit, unit) outcome \<times> files"
  cxx_compile :: "string \<Rightarrow> string list \<Rightarrow> string list \<Rightarrow> string list \<Rightarrow> bool \<Rightarrow> string \<Rightarrow>
    files \<Rightarrow> (unit, unit) outcome \<times> files"
  cmake_build :: "string \<Rightarrow> (string \<times> string) list \<Rightarrow> string \<Rightarrow> files \<Rightarrow> (unit, unit) outcome \<times> files"

text \<open>The state: the files, and the lines for Cargo the script has printed.\<close>

record build_state =
  build_files :: files
  cargo_lines :: "string list"

definition on_files ::
  "(files \<Rightarrow> ('e, 'a) outcome \<times> files) \<Rightarrow> build_state \<Rightarrow> ('e, 'a) outcome \<times> build_state" where
  "on_files f s = (let (r, fs) = f (build_files s) in (r, s\<lparr>build_files := fs\<rparr>))"

definition print_cargo :: "string \<Rightarrow> build_state \<Rightarrow> build_state" where
  "print_cargo line s = s\<lparr>cargo_lines := cargo_lines s @ [line]\<rparr>"

fun expect_ok :: "('e, 'a) outcome \<times> 's \<Rightarrow> ('e, 'a) outcome \<times> 's" where
  "expect_ok (Err _, s) = (Panic, s)"
| "expect_ok (Ok a, s) = (Ok a, s)"
| "expect_ok (Panic, s) = (Panic, s)"

definition expect_var :: "tools \<Rightarrow> string \<Rightarrow> (unit, string) outcome" where
  "expect_var t name = (case env_var t name of None \<Rightarrow> Panic | Some v \<Rightarrow> Ok v)"

definition vsomeip_includes :: "bool \<Rightarrow> tools \<Rightarrow> (unit, string) outcome" where
  "vsomeip_includes bundled t =
     (if bundled
      then (case expect_var t ''CARGO_MANIFEST_DIR'' of
              Ok crate_root \<Rightarrow> Ok (path_join (path_join crate_root ''vsomeip'') ''interface'')
            | e \<Rightarrow> e)
      else (case expect_var t ''VSOMEIP_INSTALL_PATH'' of
              Ok vsomeip_install_path \<Rightarrow> Ok (path_join vsomeip_install_path ''include'')
            | e \<Rightarrow> e))"

definition vsomeip_install_path :: "tools \<Rightarrow> (unit, string) outcome" where
  "vsomeip_install_path t =
     (case expect_var t ''OUT_DIR'' of
        Ok out_dir \<Rightarrow>
          Ok (case env_var t ''VSOMEIP_INSTALL_PATH'' of
                Some p \<Rightarrow> p
              | None \<Rightarrow> path_join (path_join out_dir ''vsomeip'') ''vsomeip-install'')
      | e \<Rightarrow> e)"

definition vsomeip_lib_path :: "bool \<Rightarrow> tools \<Rightarrow> (unit, string) outcome" where
  "vsomeip_lib_path bundled t =
     (case if bundled then vsomeip_install_path t else expect_var t ''VSOMEIP_INSTALL_PATH'' of
        Ok p \<Rightarrow> Ok (path_join p ''lib'')
      | e \<Rightarrow> e)"

text \<open>\<open>build::build\<close>.  The result of copying vsomeip's sources is printed only, and so is the exit
  status of patch.\<close>

definition patch_step :: "tools \<Rightarrow> string \<Rightarrow> string \<Rightarrow> files \<Rightarrow> (unit, unit) outcome \<times> files" where
  "patch_step t crate_root build_dir fs =
     (case run_command t
             [''patch'', ''-d'', build_dir, ''-p1'', ''-i'',
              path_join (path_join crate_root ''patches'') ''disable_tests.patch''] fs of
        (None, fs) \<Rightarrow> (Panic, fs)
      | (Some _, fs) \<Rightarrow> (Ok (), fs))"

definition checkout_step :: "tools \<Rightarrow> string \<Rightarrow> files \<Rightarrow> files" where
  "checkout_step t crate_root fs =
     (if node_at fs (components (path_join crate_root ''vsomeip/.git'')) \<noteq> None then fs
      else snd (run_command t [''git'', ''-C'', ''vsomeip'', ''submodule'', ''update'', ''--init''] fs))"

definition build :: "nat \<Rightarrow> tools \<Rightarrow> files \<Rightarrow> ((unit, unit) outcome \<times> files) option" where
  "build fuel t fs =
     (case expect_var t ''CARGO_MANIFEST_DIR'' of
        Ok crate_root \<Rightarrow>
          (let fs = checkout_step t crate_root fs
           in case expect_var t ''OUT_DIR'' of
                Ok out_dir \<Rightarrow>
                  (let submodule_to_patch = path_join crate_root ''vsomeip'';
                       vsomeip_build_dir = path_join (path_join out_dir ''vsomeip'') ''vsomeip_build''
                   in case copy_dir_all t fuel (components submodule_to_patch)
                             (components vsomeip_build_dir) fs of
                        None \<Rightarrow> None
                      | Some (copy_res, fs) \<Rightarrow>
                          Some (and_then (patch_step t crate_root vsomeip_build_dir fs) (\<lambda>_ fs.
                            and_then (vsomeip_install_path t, fs) (\<lambda>install_path fs.
                            cmake_build t vsomeip_build_dir
                              [(''CMAKE_INSTALL_PREFIX'', install_path),
                               (''ENABLE_SIGNAL_HANDLING'', ''1'')] ''install'' fs))))
              | _ \<Rightarrow> Some (Panic, fs))
      | _ \<Rightarrow> Some (Panic, fs))"

text \<open>\<open>bindings::generate_bindings\<close>.  A line that cannot be read panics; what the loop has written
  by then is in the temporary file, whose writer flushes when it is dropped.\<close>

definition rewrite_opened :: "tools \<Rightarrow> path \<Rightarrow> path \<Rightarrow> string \<Rightarrow> files \<Rightarrow> (unit, unit) outcome \<times> files" where
  "rewrite_opened t file_path temp_file_path input fs =
     (if refuses t (Create temp_file_path) \<or> \<not> can_create temp_file_path fs then (Panic, fs)
      else let (written, all_read) = rewrite_lines (lines_of input) in
           case expect_ok (write_file t temp_file_path written fs) of
             (Ok _, fs) \<Rightarrow>
               if all_read then expect_ok (rename_file t temp_file_path file_path fs) else (Panic, fs)
           | (e, fs) \<Rightarrow> (e, fs))"

definition rewrite_bindings :: "tools \<Rightarrow> string \<Rightarrow> files \<Rightarrow> (unit, unit) outcome \<times> files" where
  "rewrite_bindings t file_path fs =
     (if node_at fs (components file_path) = None then (Panic, fs)
      else case run_command t [''rustfmt'', file_path] fs of
        (Some True, fs) \<Rightarrow>
          (case node_at fs (components file_path) of
             Some (Contents input) \<Rightarrow>
               if refuses t (Open (components file_path)) then (Panic, fs)
               else rewrite_opened t (components file_path)
                      (components (with_extension file_path ''tmp'')) input fs
           | _ \<Rightarrow> (Panic, fs))
      | (_, fs) \<Rightarrow> (Panic, fs))"

definition bindings_file :: "string \<Rightarrow> string" where
  "bindings_file out_dir =
     path_join (path_join (path_join out_dir ''autocxx-build-dir'') ''rs'') ''autocxx-ffi-default-gen.rs''"

definition generate_bindings ::
  "bool \<Rightarrow> tools \<Rightarrow> string \<Rightarrow> string \<Rightarrow> string \<Rightarrow> string \<Rightarrow> string \<Rightarrow> string \<Rightarrow>
     build_state \<Rightarrow> (unit, unit) outcome \<times> build_state" where
  "generate_bindings bundled t out_dir interface generic_stdlib arch_stdlib project_root wrapper_dir s =
     and_then (on_files (autocxx_build t ''src/lib.rs'' [interface, wrapper_dir]
       [''-I'' @ generic_stdlib, ''-I'' @ arch_stdlib, ''-I'' @ interface]) s) (\<lambda>_ s.
     and_then (on_files (autocxx_compile t
       [''-std=c++17'', ''-Wno-deprecated-declarations'', ''-Wno-unused-function''] ''autocxx-portion'') s) (\<lambda>_ s.
     let s = print_cargo ''cargo:rerun-if-changed=src/lib.rs'' s;
         s = print_cargo ''cargo:rustc-link-lib=vsomeip3'' s in
     and_then (vsomeip_lib_path bundled t, s) (\<lambda>lib_path s.
     let s = print_cargo (''cargo:rustc-link-search=native='' @ lib_path) s;
         include_dir = path_join project_root ''src/glue'' in
     and_then (on_files (cxx_compile t ''src/cxx_bridge.rs''
       [''src/glue/application_registrations.cpp'', ''src/glue/src/application_wrapper.cpp'']
       [include_dir, interface, wrapper_dir]
       [''-Wno-deprecated-declarations'', ''-Wno-unused-function'', ''-std=c++17''] True ''cxx-portion'') s) (\<lambda>_ s.
     let s = print_cargo ''cargo:rerun-if-changed=src/cxx_bridge.rs'' s in
     on_files (rewrite_bindings t (bindings_file out_dir)) s))))"

definition main :: "bool \<Rightarrow> nat \<Rightarrow> tools \<Rightarrow> build_state \<Rightarrow> ((unit, unit) outcome \<times> build_state) option" where
  "main bundled fuel t s =
     (case if bundled then build fuel t (build_files s) else Some (Ok (), build_files s) of
        None \<Rightarrow> None
      | Some (r, fs) \<Rightarrow>
          Some (and_then (r, s\<lparr>build_files := fs\<rparr>) (\<lambda>_ s.
            and_then (vsomeip_includes bundled t, s) (\<lambda>interface s.
            and_then (expect_var t ''OUT_DIR'', s) (\<lambda>out_dir s.
            and_then (expect_var t ''GENERIC_CPP_STDLIB_PATH'', s) (\<lambda>generic_stdlib s.
            and_then (expect_var t ''ARCH_SPECIFIC_CPP_STDLIB_PATH'', s) (\<lambda>arch_stdlib s.
            and_then (expect_var t ''CARGO_MANIFEST_DIR'', s) (\<lambda>project_root s.
            generate_bindings bundled t out_dir interface generic_stdlib arch_stdlib project_root
              (path_join project_root ''src/glue/include'') s))))))))"

subsection \<open>The protobuf definitions of the examples\<close>

text \<open>The build script of the examples' messages (\<^verbatim>\<open>example-utils/hello-world-protos/build.rs\<close>) downloads
  protobuf files and generates code for them.  Parameters are what a request for a URL gives
  (\<open>None\<close> for none, else the body and whether it came completely: a response with an error status
  is a response), the code generator and whether a vendored protoc exists.\<close>

record proto_tools = disk +
  proto_env :: "string \<Rightarrow> string option"
  http_get :: "string \<Rightarrow> (string \<times> bool) option"
  protoc_vendored :: bool
  codegen :: "string \<Rightarrow> string list \<Rightarrow> string \<Rightarrow> files \<Rightarrow> (unit, unit) outcome \<times> files"

definition proto_path :: "string \<Rightarrow> string \<Rightarrow> string" where
  "proto_path proto_folder url =
     (let file_name = last (split_at slash url);
          p = proto_folder;
          p = (if sublist ''googleapis/googleapis'' url then path_join p ''google/type'' else p);
          p = (if sublist ''protocolbuffers/protobuf'' url then path_join p ''google/protobuf'' else p);
          p = (if sublist ''example/hello_world/v1'' url then path_join p ''example/hello_world/v1'' else p);
          p = (if sublist ''uprotocol/uoptions.proto'' url then path_join p ''uprotocol'' else p)
      in path_join p file_name)"

definition download_and_write_file ::
  "proto_tools \<Rightarrow> string \<Rightarrow> path \<Rightarrow> files \<Rightarrow> (unit, unit) outcome \<times> files" where
  "download_and_write_file t url dest fs =
     (case http_get t url of
        None \<Rightarrow> (Err (), fs)
      | Some (body, complete) \<Rightarrow>
          and_then (create_dir_all t (butlast dest) fs) (\<lambda>_ fs.
            if refuses t (Create dest) \<or> \<not> can_create dest fs then (Err (), fs)
            else and_then (write_file t dest body fs) (\<lambda>_ fs.
              (if complete then Ok () else Err (), fs))))"

fun fetch_protos ::
  "proto_tools \<Rightarrow> string \<Rightarrow> string list \<Rightarrow> files \<Rightarrow> (unit, string list) outcome \<times> files" where
  "fetch_protos t proto_folder [] fs = (Ok [], fs)"
| "fetch_protos t proto_folder (url # urls) fs =
     (let p = proto_path proto_folder url in
      and_then (create_dir_all t (butlast (components p)) fs) (\<lambda>_ fs.
      and_then (expect_ok (download_and_write_file t url (components p) fs)) (\<lambda>_ fs.
      and_then (fetch_protos t proto_folder urls fs) (\<lambda>proto_files fs.
        (Ok (p # proto_files), fs)))))"

definition get_and_build_protos ::
  "proto_tools \<Rightarrow> string list \<Rightarrow> string \<Rightarrow> files \<Rightarrow> (unit, unit) outcome \<times> files" where
  "get_and_build_protos t urls output_folder fs =
     (case proto_env t ''OUT_DIR'' of
        None \<Rightarrow> (Panic, fs)
      | Some out_dir \<Rightarrow>
          (let proto_folder = path_join out_dir ''proto'' in
           and_then (fetch_protos t proto_folder urls fs) (\<lambda>proto_files fs.
             if protoc_vendored t then codegen t proto_folder proto_files output_folder fs
             else (Panic, fs))))"

definition hello_world_protos :: "string list" where
  "hello_world_protos =
     [''https://raw.githubusercontent.com/protocolbuffers/protobuf/main/src/google/protobuf/descriptor.proto'',
      ''https://raw.githubusercontent.com/googleapis/googleapis/master/google/type/timeofday.proto'',
      ''https://raw.githubusercontent.com/eclipse-uprotocol/up-spec/main/up-core-api/uprotocol/uoptions.proto'',
      ''https://raw.githubusercontent.com/COVESA/uservices/main/src/main/proto/example/hello_world/v1/hello_world_topics.proto'',
      ''https://raw.githubusercontent.com/PLeVasseur/uservices/feature/update-uprotocol-options-path/src/main/proto/example/hello_world/v1/hello_world_service.proto'']"

definition build_hello_world_protos :: "proto_tools \<Rightarrow> files \<Rightarrow> (unit, unit) outcome \<times> files" where
  "build_hello_world_protos t fs =
     (if protoc_vendored t then get_and_build_protos t hello_world_protos ''helloworld'' fs
      else (Panic, fs))"

end
