(* ===== verification/Build_Properties.thy ===== *)
theory Build_Properties
  imports Build_Script
begin

text \<open>What the build script's work on files comes to (Build_Script.thy).\<close>

subsection \<open>The directory tree\<close>

text \<open>Every path is listed once, and what lies in something lies in a directory.\<close>

definition files_ok :: "files \<Rightarrow> bool" where
  "files_ok fs \<longleftrightarrow> distinct (map fst fs) \<and> [] \<notin> fst ` set fs \<and>
     (\<forall>p\<in>fst ` set fs. node_at fs (butlast p) = Some Directory)"

lemma node_at_set: "p \<noteq> [] \<Longrightarrow> node_at fs p \<noteq> None \<longleftrightarrow> p \<in> fst ` set fs"
  by (simp add: node_at_def map_of_eq_None_iff)

lemma files_ok_parent: "files_ok fs \<Longrightarrow> node_at fs (p @ [c]) \<noteq> None \<Longrightarrow> node_at fs p = Some Directory"
  using node_at_set [of "p @ [c]" fs] by (fastforce simp: files_ok_def)

lemma files_ok_ancestor:
  assumes "files_ok fs" "node_at fs (p @ q) \<noteq> None" "q \<noteq> []" shows "node_at fs p = Some Directory"
  using assms(2,3)
proof (induction q rule: rev_induct)
  case (snoc c q)
  from files_ok_parent [OF assms(1), of "p @ q" c] snoc have "node_at fs (p @ q) = Some Directory" by simp
  with snoc.IH show ?case by (cases "q = []") auto
qed simp

lemma read_dir_set:
  assumes "files_ok fs" "read_dir r p fs = Some names"
  shows "distinct names" "set names = {c. node_at fs (p @ [c]) \<noteq> None}"
proof -
  let ?qs = "filter (\<lambda>q. q \<noteq> [] \<and> butlast q = p) (map fst fs)"
  have names: "names = map last ?qs" using assms(2) by (auto simp: read_dir_def split: if_splits)
  have "inj_on last (set ?qs)"
    by (rule inj_onI, clarsimp) (metis append_butlast_last_id)
  then show "distinct names" using assms(1) by (simp add: names distinct_map files_ok_def)
  have "c \<in> set names \<longleftrightarrow> p @ [c] \<in> fst ` set fs" for c
  proof
    assume "c \<in> set names"
    then obtain q where q: "q \<in> fst ` set fs" "q \<noteq> []" "butlast q = p" "last q = c"
      by (auto simp: names)
    then have "q = p @ [c]" by (metis append_butlast_last_id)
    with q(1) show "p @ [c] \<in> fst ` set fs" by simp
  next
    assume "p @ [c] \<in> fst ` set fs"
    then have "p @ [c] \<in> set ?qs" by simp
    then have "last (p @ [c]) \<in> last ` set ?qs" by (rule imageI)
    then show "c \<in> set names" by (simp add: names)
  qed
  moreover have "node_at fs (p @ [c]) \<noteq> None \<longleftrightarrow> p @ [c] \<in> fst ` set fs" for c
    by (rule node_at_set) simp
  ultimately show "set names = {c. node_at fs (p @ [c]) \<noteq> None}" by blast
qed

lemma node_at_append:
  "p \<noteq> [] \<Longrightarrow> node_at fs p = None \<Longrightarrow> node_at (fs @ [(p, x)]) = (node_at fs)(p \<mapsto> x)"
  by (auto simp: node_at_def fun_eq_iff map_add_def split: option.splits)

lemma files_ok_append:
  assumes "files_ok fs" "p \<noteq> []" "node_at fs p = None" "node_at fs (butlast p) = Some Directory"
  shows "files_ok (fs @ [(p, x)])"
  using assms node_at_append [OF assms(2,3), of x] node_at_set [OF assms(2), of fs]
  unfolding files_ok_def by (auto simp: fun_upd_def) 

lemma create_dirs_run:
  assumes "files_ok fs" "b = [] \<or> node_at fs (butlast b) = Some Directory"
    and "\<forall>p. prefix b p \<and> prefix p (b @ w) \<longrightarrow> \<not> refuses d (Create_Dir p) \<and> node_at fs p \<in> {None, Some Directory}"
  shows "\<exists>fs'. create_dirs d (map ((@) b) (prefixes w)) fs = (Ok (), fs') \<and> files_ok fs' \<and>
    node_at fs' = (\<lambda>p. if prefix b p \<and> prefix p (b @ w) then Some Directory else node_at fs p)"
  using assms
proof (induction w arbitrary: b fs)
  have first: "\<exists>fs1. files_ok fs1 \<and> node_at fs1 = (node_at fs)(b \<mapsto> Directory) \<and>
      create_dirs d (b # ps) fs = create_dirs d ps fs1"
    if "files_ok fs" "b = [] \<or> node_at fs (butlast b) = Some Directory"
      "\<not> refuses d (Create_Dir b)" "node_at fs b \<in> {None, Some Directory}" for fs b ps
  proof (cases "node_at fs b = None")
    case True
    then have b: "b \<noteq> []" by (auto simp: node_at_def)
    with True that show ?thesis
      using node_at_append [OF b True, of Directory] files_ok_append [OF that(1) b True, of Directory]
      by (intro exI [of _ "fs @ [(b, Directory)]"]) auto
  next
    case False
    with that show ?thesis by (intro exI [of _ fs]) auto
  qed
  {
    case Nil
    from first [OF Nil(1,2), of "[]"] Nil(3) obtain fs1 where
      "files_ok fs1" "node_at fs1 = (node_at fs)(b \<mapsto> Directory)" "create_dirs d [b] fs = (Ok (), fs1)"
      by auto
    then show ?case by (intro exI [of _ fs1]) (auto simp: fun_eq_iff)
  next
    case (Cons c w)
    from first [OF Cons.prems(1,2), of "map ((@) (b @ [c])) (prefixes w)"] Cons.prems(3) obtain fs1 where
      fs1: "files_ok fs1" "node_at fs1 = (node_at fs)(b \<mapsto> Directory)"
        "create_dirs d (b # map ((@) (b @ [c])) (prefixes w)) fs =
           create_dirs d (map ((@) (b @ [c])) (prefixes w)) fs1"
      by auto
    have "prefix p (b @ c # w) \<and> prefix b p \<longleftrightarrow> p = b \<or> prefix (b @ [c]) p \<and> prefix p ((b @ [c]) @ w)" for p
      by (auto simp: prefix_def append_eq_append_conv2 Cons_eq_append_conv)
    note split = this
    have "\<forall>p. prefix (b @ [c]) p \<and> prefix p ((b @ [c]) @ w) \<longrightarrow>
        \<not> refuses d (Create_Dir p) \<and> node_at fs1 p \<in> {None, Some Directory}"
      using Cons.prems(3) split by (auto simp: fs1(2))
    note step = this
    have "b @ [c] = [] \<or> node_at fs1 (butlast (b @ [c])) = Some Directory" by (simp add: fs1(2))
    from Cons.IH [OF fs1(1) this step] obtain fs' where fs':
      "create_dirs d (map ((@) (b @ [c])) (prefixes w)) fs1 = (Ok (), fs')" "files_ok fs'"
      "node_at fs' = (\<lambda>p. if prefix (b @ [c]) p \<and> prefix p ((b @ [c]) @ w) then Some Directory else node_at fs1 p)"
      by blast
    have "map ((@) b) (prefixes (c # w)) = b # map ((@) (b @ [c])) (prefixes w)" by simp
    then have "create_dirs d (map ((@) b) (prefixes (c # w))) fs = (Ok (), fs')"
      by (simp only: fs1(3) fs'(1))
    moreover have "node_at fs' =
        (\<lambda>p. if prefix b p \<and> prefix p (b @ c # w) then Some Directory else node_at fs p)"
      using split by (auto simp: fun_eq_iff fs'(3) fs1(2))
    ultimately show ?case using fs'(2) by (intro exI [of _ fs'] conjI)
  }
qed

lemma create_dir_all_run:
  assumes "files_ok fs"
    and "\<And>p. prefix p w \<Longrightarrow> \<not> refuses d (Create_Dir p) \<and> node_at fs p \<in> {None, Some Directory}"
  shows "\<exists>fs'. create_dir_all d w fs = (Ok (), fs') \<and> files_ok fs' \<and>
    node_at fs' = (\<lambda>p. if prefix p w then Some Directory else node_at fs p)"
  using create_dirs_run [of fs "[]" w d] assms map_idI [of "prefixes w" "(@) []"]
  by (simp add: create_dir_all_def)

lemma node_at_set_file:
  "p \<noteq> [] \<Longrightarrow> node_at (set_file p c fs) = (node_at fs)(p \<mapsto> Contents c)"
proof -
  assume p: "p \<noteq> []"
  have "map_of (map (\<lambda>(q, x). (q, if q = p then Contents c else x)) fs) =
      (\<lambda>q. if q = p \<and> map_of fs p \<noteq> None then Some (Contents c) else map_of fs q)" for fs
    by (induction fs) (auto simp: fun_eq_iff)
  then show ?thesis
    using p by (auto simp: set_file_def node_at_def fun_eq_iff map_add_def split: option.split)
qed

lemma set_file_paths: "fst ` set (set_file p c fs) = insert p (fst ` set fs)"
  by (auto simp: set_file_def map_of_eq_None_iff image_iff split: prod.splits)
    (metis (no_types, lifting) domI fst_conv map_of_SomeD domIff not_None_eq)+

lemma set_file_distinct: "distinct (map fst fs) \<Longrightarrow> distinct (map fst (set_file p c fs))"
  by (auto simp: set_file_def map_of_eq_None_iff comp_def case_prod_beta)

lemma files_ok_set_file:
  assumes "files_ok fs" "p \<noteq> []" "can_create p fs"
  shows "files_ok (set_file p c fs)"
proof -
  have "node_at (set_file p c fs) (butlast q) = Some Directory"
    if "q \<in> insert p (fst ` set fs)" for q
    using that assms by (auto simp: node_at_set_file files_ok_def can_create_def)
  then show ?thesis
    using assms set_file_distinct [of fs p c] by (auto simp: files_ok_def set_file_paths)
qed



subsection \<open>Copying a tree\<close>

text \<open>What is below \<open>dst\<close> when the tree at \<open>src\<close> was copied over it: everything in the source, and
  what was there and has nothing in its place.  No directory may stand where a file goes, nor
  the other way round.\<close>

definition copied :: "path \<Rightarrow> path \<Rightarrow> (path \<Rightarrow> node option) \<Rightarrow> path \<Rightarrow> node option" where
  "copied src dst f p =
     (if prefix dst p \<and> f (src @ drop (length dst) p) \<noteq> None then f (src @ drop (length dst) p)
      else if prefix p dst then Some Directory
      else f p)"

definition no_clash :: "path \<Rightarrow> path \<Rightarrow> (path \<Rightarrow> node option) \<Rightarrow> bool" where
  "no_clash src dst f \<longleftrightarrow>
     (\<forall>q x y. f (src @ q) = Some x \<longrightarrow> f (dst @ q) = Some y \<longrightarrow> (x = Directory \<longleftrightarrow> y = Directory))"

lemma no_clash_directory:
  assumes "no_clash src dst f" "f (src @ q) = Some Directory" shows "f (dst @ q) \<in> {None, Some Directory}"
  using assms by (cases "f (dst @ q)") (auto simp: no_clash_def)

definition beneath :: "path \<Rightarrow> nat \<Rightarrow> (path \<Rightarrow> node option) \<Rightarrow> bool" where
  "beneath src n f \<longleftrightarrow> (\<forall>q. f (src @ q) = Some Directory \<longrightarrow> length q < n)"

text \<open>The state after some of the entries of \<open>src\<close> were copied.\<close>

definition copied_entries ::
  "path \<Rightarrow> path \<Rightarrow> string list \<Rightarrow> (path \<Rightarrow> node option) \<Rightarrow> path \<Rightarrow> node option" where
  "copied_entries src dst names f p =
     (if strict_prefix dst p \<and> p ! length dst \<in> set names \<and> f (src @ drop (length dst) p) \<noteq> None
      then f (src @ drop (length dst) p) else f p)"

lemma parallel_not_prefix:
  assumes "src \<parallel> dst" shows "\<not> prefix dst (src @ q)" "\<not> prefix (src @ q) dst"
    "\<not> prefix (src @ q) (dst @ r)" "\<not> prefix (dst @ r) (src @ q)"
  using assms
  by (metis append_prefixD parallel_def prefix_append prefix_same_cases prefixI parallelE)+

lemma copied_source:
  assumes "src \<parallel> dst" shows "copied src dst f (src @ q) = f (src @ q)"
  using parallel_not_prefix [OF assms] by (simp add: copied_def)

lemma strict_prefix_split:
  "strict_prefix dst p \<longleftrightarrow> (\<exists>c q. p = dst @ c # q)"
  by (auto simp: strict_prefix_def prefix_def) (metis neq_Nil_conv)

lemma copied_entries_below [simp]:
  "copied_entries src dst names f (dst @ c # q) =
     (if c \<in> set names \<and> f (src @ c # q) \<noteq> None then f (src @ c # q) else f (dst @ c # q))"
  by (auto simp: copied_entries_def strict_prefix_def prefix_def)

lemma copied_entries_elsewhere:
  "\<not> strict_prefix dst p \<Longrightarrow> copied_entries src dst names f p = f p"
  by (simp add: copied_entries_def)

lemma copied_entries_dst [simp]: "copied_entries src dst names f dst = f dst"
  by (simp add: copied_entries_def)

lemma copied_entries_source [simp]:
  assumes "src \<parallel> dst" shows "copied_entries src dst names f (src @ q) = f (src @ q)"
  using parallel_not_prefix(1) [OF assms] by (simp add: copied_entries_def strict_prefix_def)

lemma copied_entries_Cons:
  assumes "src \<parallel> dst"
  shows "copied_entries src dst names (copied_entries src dst [c] f) = copied_entries src dst (c # names) f"
proof
  fix p
  show "copied_entries src dst names (copied_entries src dst [c] f) p = copied_entries src dst (c # names) f p"
    by (cases "strict_prefix dst p")
      (auto simp: strict_prefix_split copied_entries_source [OF assms] copied_entries_elsewhere)
qed

lemma copied_entries_no_clash:
  assumes "src \<parallel> dst" "no_clash src dst f" shows "no_clash src dst (copied_entries src dst names f)"
proof -
  have "copied_entries src dst names f (dst @ q) \<in> {f (dst @ q), f (src @ q)}" for q
    by (cases q) auto
  then show ?thesis
    using assms unfolding no_clash_def copied_entries_source [OF assms(1)]
    by (metis insert_iff option.inject singletonD)
qed

lemma copied_subtree:
  assumes "f (src @ [c]) = Some Directory" "\<And>p. prefix p dst \<Longrightarrow> f p = Some Directory"
  shows "copied (src @ [c]) (dst @ [c]) f = copied_entries src dst [c] f"
proof
  fix p
  show "copied (src @ [c]) (dst @ [c]) f p = copied_entries src dst [c] f p"
  proof (cases "strict_prefix dst p")
    case True
    then obtain e q where "p = dst @ e # q" by (auto simp: strict_prefix_split)
    then show ?thesis using assms by (auto simp: copied_def)
  next
    case False
    then have "\<not> prefix (dst @ [c]) p"
      by (meson prefix_order.less_le_trans prefix_snoc strict_prefixI' prefix_def
          append_Nil2 strict_prefix_split prefix_order.le_less_trans)
    with False assms show ?thesis
      by (auto simp: copied_def copied_entries_elsewhere)
  qed
qed

lemma copied_file:
  assumes "f (src @ [c]) = Some x" "\<And>q. q \<noteq> [] \<Longrightarrow> f (src @ c # q) = None"
  shows "f(dst @ [c] \<mapsto> x) = copied_entries src dst [c] f"
proof
  fix p
  show "(f(dst @ [c] \<mapsto> x)) p = copied_entries src dst [c] f p"
  proof (cases "strict_prefix dst p")
    case True
    then obtain e q where "p = dst @ e # q" by (auto simp: strict_prefix_split)
    then show ?thesis using assms by (cases "e = c"; cases q) auto
  next
    case False
    then have "p \<noteq> dst @ [c]" by (auto simp: strict_prefix_split)
    with False show ?thesis by (simp add: copied_entries_elsewhere)
  qed
qed

lemma copied_below [simp]:
  "copied src dst f (dst @ c # q) =
     (if f (src @ c # q) \<noteq> None then f (src @ c # q) else f (dst @ c # q))"
  by (auto simp: copied_def)

lemma copied_elsewhere:
  assumes "\<not> strict_prefix dst p" "f src = Some Directory"
  shows "copied src dst f p = (if prefix p dst then Some Directory else f p)"
proof (cases "p = dst")
  case False
  with assms have "\<not> prefix dst p" by (auto simp: strict_prefix_def)
  then show ?thesis by (simp add: copied_def)
qed (use assms in \<open>simp add: copied_def\<close>)

lemma copied_all:
  assumes "src \<parallel> dst" "f src = Some Directory" "set names = {c. f (src @ [c]) \<noteq> None}"
    and up: "\<And>c q. f (src @ c # q) \<noteq> None \<Longrightarrow> f (src @ [c]) \<noteq> None"
  shows "copied_entries src dst names (\<lambda>p. if prefix p dst then Some Directory else f p) = copied src dst f"
proof
  fix p
  show "copied_entries src dst names (\<lambda>p. if prefix p dst then Some Directory else f p) p =
      copied src dst f p"
  proof (cases "strict_prefix dst p")
    case True
    then obtain e q where "p = dst @ e # q" by (auto simp: strict_prefix_split)
    then show ?thesis using assms(3) up [of e q] parallel_not_prefix(2) [OF assms(1)] by auto
  next
    case False
    then show ?thesis by (simp add: copied_elsewhere [where f = f and src = src] assms(2) copied_entries_elsewhere)
  qed
qed

text \<open>A disk that refuses nothing and has room.\<close>

definition works :: "'a disk_scheme \<Rightarrow> bool" where
  "works d \<longleftrightarrow> refuses d = (\<lambda>_. False) \<and> short_write d = (\<lambda>_. None)"

definition copyable :: "path \<Rightarrow> path \<Rightarrow> files \<Rightarrow> bool" where
  "copyable src dst fs \<longleftrightarrow>
     files_ok fs \<and> src \<parallel> dst \<and> node_at fs src = Some Directory \<and> no_clash src dst (node_at fs)"

lemma copy_file_run:
  assumes "works d" "files_ok fs" "a \<noteq> []" "b \<noteq> []" "node_at fs a = Some (Contents c)" "can_create b fs"
  shows "\<exists>fs'. copy_file d a b fs = (Ok (), fs') \<and> files_ok fs' \<and>
    node_at fs' = (node_at fs)(b \<mapsto> Contents c)"
  using assms files_ok_set_file [of fs b c]
  by (intro exI [of _ "set_file b c fs"])
    (simp add: works_def copy_file_def write_file_def node_at_set_file)

text \<open>One entry: a file is copied, a directory copied as a tree (given that the recursive call
  does what it should).\<close>

lemma copy_entry_run:
  assumes "works d" "copyable src dst fs" "node_at fs dst = Some Directory" "node_at fs (src @ [c]) \<noteq> None"
    and rec: "copyable (src @ [c]) (dst @ [c]) fs \<Longrightarrow>
      \<forall>p. prefix p (dst @ [c]) \<longrightarrow> node_at fs p \<in> {None, Some Directory} \<Longrightarrow>
      \<exists>fs'. copy_dir_all d n (src @ [c]) (dst @ [c]) fs = Some (Ok (), fs') \<and> files_ok fs' \<and>
        node_at fs' = copied (src @ [c]) (dst @ [c]) (node_at fs)"
  shows "\<exists>fs'. (if node_at fs (src @ [c]) = Some Directory
      then copy_dir_all d n (src @ [c]) (dst @ [c]) fs
      else Some (copy_file d (src @ [c]) (dst @ [c]) fs)) = Some (Ok (), fs') \<and> files_ok fs' \<and>
    node_at fs' = copied_entries src dst [c] (node_at fs)"
proof -
  let ?f = "node_at fs"
  note ok = assms(2)[unfolded copyable_def]
  have above: "?f p = Some Directory" if "prefix p dst" for p
    using that files_ok_ancestor [of fs p] ok assms(3) by (cases "p = dst") (auto simp: prefix_def)
  show ?thesis
  proof (cases "?f (src @ [c]) = Some Directory")
    case True
    then have c: "?f (dst @ [c]) \<in> {None, Some Directory}"
      using ok no_clash_directory [of src dst ?f "[c]"] by blast
    have "?f p \<in> {None, Some Directory}" if "prefix p (dst @ [c])" for p
      using that above [of p] c by auto
    moreover have "copyable (src @ [c]) (dst @ [c]) fs"
      using ok True by (auto simp: copyable_def no_clash_def intro: parallel_append)
    ultimately obtain fs' where
      "copy_dir_all d n (src @ [c]) (dst @ [c]) fs = Some (Ok (), fs')" "files_ok fs'"
      "node_at fs' = copied (src @ [c]) (dst @ [c]) ?f"
      using rec by blast
    with True show ?thesis by (simp add: copied_subtree above)
  next
    case False
    with assms(4) obtain x where x: "?f (src @ [c]) = Some (Contents x)"
      by (metis node.exhaust not_None_eq)
    have "?f (dst @ [c]) \<noteq> Some Directory" using x ok unfolding no_clash_def by (metis node.distinct(1))
    with assms(3) have "can_create (dst @ [c]) fs" by (simp add: can_create_def)
    from copy_file_run [OF assms(1) _ _ _ x this] ok obtain fs' where
      "copy_file d (src @ [c]) (dst @ [c]) fs = (Ok (), fs')" "files_ok fs'"
      "node_at fs' = ?f(dst @ [c] \<mapsto> Contents x)" by auto
    moreover have "?f (src @ c # q) = None" if "q \<noteq> []" for q
      using files_ok_ancestor [of fs "src @ [c]" q] that ok x by (cases "?f (src @ c # q)") auto
    ultimately show ?thesis using copied_file [of ?f src c, OF x] x by simp
  qed
qed

lemma copyable_entry:
  assumes "copyable src dst fs" "files_ok fs'" "node_at fs' = copied_entries src dst names (node_at fs)"
  shows "copyable src dst fs'" "node_at fs' dst = node_at fs dst" "node_at fs' (src @ q) = node_at fs (src @ q)"
  using assms copied_entries_no_clash [of src dst] copied_entries_source [of src dst names _ "[]"]
  by (auto simp: copyable_def)

text \<open>A directory: it is made with what is above it, then its entries are copied (given that
  copying entries does what it should).\<close>

lemma copy_directory_run:
  assumes "works d" "copyable src dst fs" "\<forall>p. prefix p dst \<longrightarrow> node_at fs p \<in> {None, Some Directory}"
    and deep: "beneath src (Suc n) (node_at fs)"
    and rec: "\<And>fs1 names. create_dir_all d dst fs = (Ok (), fs1) \<Longrightarrow> read_dir d src fs1 = Some names \<Longrightarrow>
      copyable src dst fs1 \<Longrightarrow> node_at fs1 dst = Some Directory \<Longrightarrow> beneath src (Suc n) (node_at fs1) \<Longrightarrow>
      distinct names \<Longrightarrow> \<forall>c\<in>set names. node_at fs1 (src @ [c]) \<noteq> None \<Longrightarrow>
      \<exists>fs'. copy_entries d n src dst names fs1 = Some (Ok (), fs') \<and> files_ok fs' \<and>
        node_at fs' = copied_entries src dst names (node_at fs1)"
  shows "\<exists>fs'. copy_dir_all d (Suc n) src dst fs = Some (Ok (), fs') \<and> files_ok fs' \<and>
    node_at fs' = copied src dst (node_at fs)"
proof -
  let ?f = "node_at fs"
  note ok = assms(2)[unfolded copyable_def]
  have par: "src \<parallel> dst" using ok by simp
  obtain fs1 where fs1: "create_dir_all d dst fs = (Ok (), fs1)" "files_ok fs1"
    "node_at fs1 = (\<lambda>p. if prefix p dst then Some Directory else ?f p)"
    using create_dir_all_run [of fs dst d] ok assms(1,3) by (auto simp: works_def)
  have src: "node_at fs1 (src @ q) = ?f (src @ q)" for q
    using parallel_not_prefix(2) [OF par, of q] by (simp add: fs1(3))
  then have "node_at fs1 src = Some Directory" using src [of "[]"] ok by simp
  then obtain names where names: "read_dir d src fs1 = Some names"
    using assms(1) by (auto simp: works_def read_dir_def)
  note listed = read_dir_set [OF fs1(2) names]
  have "no_clash src dst (node_at fs1)"
    using ok unfolding no_clash_def src by (auto simp: fs1(3))
  then have "copyable src dst fs1"
    using ok fs1 \<open>node_at fs1 src = Some Directory\<close> by (simp add: copyable_def)
  moreover have "beneath src (Suc n) (node_at fs1)"
    using deep unfolding beneath_def src by simp
  ultimately obtain fs' where fs': "copy_entries d n src dst names fs1 = Some (Ok (), fs')" "files_ok fs'"
    "node_at fs' = copied_entries src dst names (node_at fs1)"
    using rec [OF fs1(1) names] listed by (auto simp: fs1(3))
  have "?f (src @ [c]) \<noteq> None" if "?f (src @ c # q) \<noteq> None" for c q
    using files_ok_ancestor [of fs "src @ [c]" q] that ok by (cases "q = []") auto
  then have "node_at fs' = copied src dst ?f"
    using copied_all [OF par, of ?f names] ok listed unfolding fs'(3) fs1(3)
    by (simp add: src [unfolded fs1(3)])
  with fs1(1) names fs' show ?thesis by simp
qed

lemma copy_run:
  assumes "works d"
  shows "copyable src dst fs \<Longrightarrow> \<forall>p. prefix p dst \<longrightarrow> node_at fs p \<in> {None, Some Directory} \<Longrightarrow>
      beneath src n (node_at fs) \<Longrightarrow>
      \<exists>fs'. copy_dir_all d n src dst fs = Some (Ok (), fs') \<and> files_ok fs' \<and>
        node_at fs' = copied src dst (node_at fs)"
    and "copyable src dst fs \<Longrightarrow> node_at fs dst = Some Directory \<Longrightarrow> beneath src (Suc n) (node_at fs) \<Longrightarrow>
      distinct names \<Longrightarrow> \<forall>c\<in>set names. node_at fs (src @ [c]) \<noteq> None \<Longrightarrow>
      \<exists>fs'. copy_entries d n src dst names fs = Some (Ok (), fs') \<and> files_ok fs' \<and>
        node_at fs' = copied_entries src dst names (node_at fs)"
  using assms
proof (induction d n src dst fs and d n src dst names fs rule: copy_dir_all_copy_entries.induct)
  case (1 d src dst fs)
  then have "node_at fs (src @ []) = Some Directory" by (simp add: copyable_def)
  with 1 show ?case unfolding beneath_def by blast
next
  case (2 d n src dst fs)
  show ?case
  proof (rule copy_directory_run)
    show "\<exists>fs'. copy_entries d n src dst names fs1 = Some (Ok (), fs') \<and> files_ok fs' \<and>
        node_at fs' = copied_entries src dst names (node_at fs1)"
      if "create_dir_all d dst fs = (Ok (), fs1)" "read_dir d src fs1 = Some names"
        "copyable src dst fs1" "node_at fs1 dst = Some Directory" "beneath src (Suc n) (node_at fs1)"
        "distinct names" "\<forall>c\<in>set names. node_at fs1 (src @ [c]) \<noteq> None" for fs1 names
      using "2.IH" [OF that(1)[symmetric] refl that(2-7) \<open>works d\<close>] .
  qed (use 2 in \<open>blast+\<close>)
next
  case (3 d n src dst fs)
  then show ?case by (auto simp: copyable_def copied_entries_def fun_eq_iff)
next
  case (4 d n src dst c names fs)
  let ?f = "node_at fs"
  have sub: "beneath (src @ [c]) n ?f"
    using \<open>beneath src (Suc n) ?f\<close> unfolding beneath_def
    by (metis Suc_less_eq append.assoc append_Cons append_Nil length_Cons)
  have "\<exists>fs'. copy_dir_all d n (src @ [c]) (dst @ [c]) fs = Some (Ok (), fs') \<and> files_ok fs' \<and>
      node_at fs' = copied (src @ [c]) (dst @ [c]) ?f"
    if "copyable (src @ [c]) (dst @ [c]) fs"
      "\<forall>p. prefix p (dst @ [c]) \<longrightarrow> node_at fs p \<in> {None, Some Directory}"
    using that "4.IH"(1) [OF _ that sub \<open>works d\<close>] by (simp add: copyable_def)
  note rec = this
  have "?f (src @ [c]) \<noteq> None" using 4 by simp
  from copy_entry_run [OF \<open>works d\<close> \<open>copyable src dst fs\<close> \<open>?f dst = Some Directory\<close> this rec]
  obtain fs1 where fs1: "(if ?f (src @ [c]) = Some Directory
      then copy_dir_all d n (src @ [c]) (dst @ [c]) fs
      else Some (copy_file d (src @ [c]) (dst @ [c]) fs)) = Some (Ok (), fs1)"
    "files_ok fs1" "node_at fs1 = copied_entries src dst [c] ?f"
    by blast
  have par: "src \<parallel> dst" using 4 by (simp add: copyable_def)
  note after = copyable_entry [OF \<open>copyable src dst fs\<close> fs1(2,3)]
  have "beneath src (Suc n) (node_at fs1)" using 4 unfolding beneath_def after by simp
  with after 4 have "\<exists>fs'. copy_entries d n src dst names fs1 = Some (Ok (), fs') \<and> files_ok fs' \<and>
      node_at fs' = copied_entries src dst names (node_at fs1)"
    by (intro "4.IH"(2) [OF fs1(1) refl refl]) simp_all
  with fs1 show ?case by (auto simp: copied_entries_Cons [OF par])
qed

text \<open>Whatever fails on the way, nothing is touched but what is below \<open>dst\<close> and the directories
  above it.\<close>

lemma create_dirs_frame:
  "create_dirs d ps fs = (r, fs') \<Longrightarrow> p \<notin> set ps \<Longrightarrow> node_at fs' p = node_at fs p"
proof (induction d ps fs rule: create_dirs.induct)
  case (2 d q ps fs)
  have "node_at (fs @ [(q, Directory)]) p = node_at fs p" if "node_at fs q = None"
  proof -
    from that have "q \<noteq> []" by (auto simp: node_at_def)
    with that 2 show ?thesis by (simp add: node_at_append)
  qed
  with 2 show ?case by (auto split: option.splits node.splits if_splits)
qed simp

lemma write_file_frame:
  "write_file d b c fs = (r, fs') \<Longrightarrow> b \<noteq> [] \<Longrightarrow> p \<noteq> b \<Longrightarrow> node_at fs' p = node_at fs p"
  by (auto simp: write_file_def node_at_set_file split: option.splits)

lemma copy_file_frame:
  "copy_file d a b fs = (r, fs') \<Longrightarrow> b \<noteq> [] \<Longrightarrow> p \<noteq> b \<Longrightarrow> node_at fs' p = node_at fs p"
  by (auto simp: copy_file_def write_file_frame split: option.splits node.splits if_splits)

lemma copy_frame:
  "copy_dir_all d n src dst fs = Some (r, fs') \<Longrightarrow> \<not> prefix dst p \<Longrightarrow> \<not> prefix p dst \<Longrightarrow>
     node_at fs' p = node_at fs p"
  "copy_entries d n src dst names fs = Some (r, fs') \<Longrightarrow> \<not> prefix dst p \<Longrightarrow> \<not> prefix p dst \<Longrightarrow>
     node_at fs' p = node_at fs p"
proof (induction d n src dst fs and d n src dst names fs arbitrary: r fs' and r fs'
    rule: copy_dir_all_copy_entries.induct)
  case (2 d n src dst fs)
  obtain r1 fs1 where run: "create_dir_all d dst fs = (r1, fs1)" by (cases "create_dir_all d dst fs")
  then have "node_at fs1 p = node_at fs p"
    using 2 create_dirs_frame [of d "prefixes dst" fs r1 fs1 p] by (simp add: create_dir_all_def)
  with 2 run show ?case by (cases r1) (auto split: option.splits)
next
  case (4 d n src dst c names fs)
  obtain r1 fs1 where run: "(if node_at fs (src @ [c]) = Some Directory
      then copy_dir_all d n (src @ [c]) (dst @ [c]) fs
      else Some (copy_file d (src @ [c]) (dst @ [c]) fs)) = Some (r1, fs1)"
    using 4 by (auto split: option.splits)
  have p: "p \<noteq> dst @ [c]" "\<not> prefix (dst @ [c]) p" "\<not> prefix p (dst @ [c])"
    using 4 append_prefixD [of dst "[c]" p] by auto
  have "node_at fs1 p = node_at fs p"
  proof (cases "node_at fs (src @ [c]) = Some Directory")
    case True
    with run 4 p show ?thesis by simp
  next
    case False
    with run p show ?thesis by (simp add: copy_file_frame)
  qed
  with 4 run show ?case by (cases r1) auto
qed auto

subsection \<open>Rewriting the bindings\<close>

lemma rewrite_lines_eq:
  "rewrite_lines ls =
     (concat (map (\<lambda>l. rewrite_line l @ [newline]) (takeWhile utf8_valid ls)), list_all utf8_valid ls)"
  by (induction ls) (auto split: prod.split)

lemma replace_all_none: "\<not> sublist pat s \<Longrightarrow> replace_all pat new s = s"
proof (induction pat new s rule: replace_all.induct)
  case (1 pat new s)
  then show ?case
    by (subst replace_all.simps) (auto simp: sublist_Cons_right split: list.split)
qed

lemma replace_all_set: "set (replace_all pat new s) \<subseteq> set new \<union> set s"
proof (induction pat new s rule: replace_all.induct)
  case (1 pat new s)
  show ?case
  proof (cases "pat = [] \<or> s = []")
    case True
    then show ?thesis by (subst replace_all.simps) (auto split: list.split)
  next
    case False
    then obtain c s' where s: "s = c # s'" by (cases s) auto
    show ?thesis
    proof (cases "prefix pat s")
      case True
      with 1(1) [OF _ s True] False s have "set (replace_all pat new (drop (length pat) s)) \<subseteq> set new \<union> set s"
        using set_drop_subset [of "length pat" s] by blast
      with True False s show ?thesis by (subst replace_all.simps) auto
    next
      case notp: False
      with 1(2) [OF _ s notp] False s have "set (replace_all pat new s') \<subseteq> set new \<union> set s'" by blast
      with notp False s show ?thesis by (subst replace_all.simps) auto
    qed
  qed
qed

text \<open>\<open>replace_all\<close> is the replacement of the separators in the leftmost split at the pattern.\<close>

fun join_with :: "string \<Rightarrow> string list \<Rightarrow> string" where
  "join_with sep [] = []"
| "join_with sep [p] = p"
| "join_with sep (p # q # ps) = p @ sep @ join_with sep (q # ps)"

fun leftmost_split :: "string \<Rightarrow> string list \<Rightarrow> bool" where
  "leftmost_split pat [] = False"
| "leftmost_split pat [p] = (\<not> sublist pat p)"
| "leftmost_split pat (p # q # ps) =
     (\<not> sublist pat (butlast (p @ pat)) \<and> leftmost_split pat (q # ps))"

lemma replace_all_split:
  "pat \<noteq> [] \<Longrightarrow> \<exists>ps. leftmost_split pat ps \<and> s = join_with pat ps \<and> replace_all pat new s = join_with new ps"
proof (induction pat new s rule: replace_all.induct)
  case (1 pat new s)
  show ?case
  proof (cases s)
    case Nil
    then show ?thesis using 1 by (intro exI [of _ "[[]]"]) (simp add: replace_all.simps)
  next
    case s: (Cons c s')
    show ?thesis
    proof (cases "prefix pat s")
      case True
      with 1(1) [OF _ s True] 1(3) obtain ps where ps: "leftmost_split pat ps"
        "drop (length pat) s = join_with pat ps"
        "replace_all pat new (drop (length pat) s) = join_with new ps" by auto
      then obtain q qs where qs: "ps = q # qs" by (cases ps) auto
      have "s = pat @ drop (length pat) s" using True by (auto simp: prefix_def)
      moreover have "\<not> sublist pat (butlast pat)"
        using sublist_length_le [of pat "butlast pat"] 1(3) by (cases pat) auto
      moreover have "replace_all pat new s = new @ join_with new ps"
        using True 1(3) s ps by (subst replace_all.simps) simp
      ultimately show ?thesis using ps qs by (intro exI [of _ "[] # ps"]) simp
    next
      case False
      with 1(2) [OF _ s False] 1(3) obtain ps where ps: "leftmost_split pat ps"
        "s' = join_with pat ps" "replace_all pat new s' = join_with new ps" by auto
      then obtain q qs where qs: "ps = q # qs" by (cases ps) auto
      have "replace_all pat new s = c # join_with new ps"
        using False 1(3) s ps by (subst replace_all.simps) simp
      moreover have "\<not> prefix pat (butlast ((c # q) @ pat))" if "qs \<noteq> []"
      proof -
        have "prefix (butlast ((c # q) @ pat)) s"
          using s ps qs that 1(3)
          by (cases qs) (auto simp: butlast_append intro: prefix_order.trans [OF prefixeq_butlast])
        with False show ?thesis by (meson prefix_order.trans)
      qed
      ultimately show ?thesis
        using False s ps qs 1(3)
        by (intro exI [of _ "(c # q) # qs"]; cases qs) (auto simp: sublist_Cons_right butlast_append)
    qed
  qed
qed

lemma rewrite_line_set:
  "c \<in> {newline, carriage_return} \<Longrightarrow> c \<notin> set l \<Longrightarrow> c \<notin> set (rewrite_line l)"
proof -
  assume c: "c \<in> {newline, carriage_return}" and l: "c \<notin> set l"
  have keep: "c \<notin> set new \<Longrightarrow> c \<notin> set s \<Longrightarrow> c \<notin> set (replace_all pat new s)" for pat new s
    using replace_all_set [of pat new s] by blast
  show ?thesis
    unfolding rewrite_line_def add_enum_debug_def fix_doc_build_def fix_unsafe_fn_unused_def
      fix_unused_imports_def Let_def
    by (intro keep l; use c in \<open>auto simp: newline_def carriage_return_def\<close>)
qed

lemma lines_of_cons:
  assumes "newline \<notin> set l" "l = [] \<or> last l \<noteq> carriage_return"
  shows "lines_of (l @ newline # s) = l # lines_of s"
proof -
  let ?s = "l @ newline # s"
  have "takeWhile (\<lambda>c. c \<noteq> newline) ?s = l" "dropWhile (\<lambda>c. c \<noteq> newline) ?s = newline # s"
    using assms(1) by (induction l) auto
  moreover have "?s \<noteq> []" by simp
  ultimately show ?thesis using assms(2)
    by (subst lines_of.simps) (auto simp only: Let_def list.case split: list.split if_splits)
qed

lemma lines_of_lines:
  "\<forall>l\<in>set ls. newline \<notin> set l \<and> carriage_return \<notin> set l \<Longrightarrow>
     lines_of (concat (map (\<lambda>l. l @ [newline]) ls)) = ls"
proof (induction ls)
  case (Cons l ls)
  have "l = [] \<or> last l \<noteq> carriage_return" using Cons.prems last_in_set [of l] by (metis list.set_intros(1))
  with Cons lines_of_cons [of l "concat (map (\<lambda>l. l @ [newline]) ls)"] show ?case by simp
qed (simp add: lines_of.simps)

lemma lines_of_set: "l \<in> set (lines_of s) \<Longrightarrow> newline \<notin> set l \<and> set l \<subseteq> set s"
proof (induction s rule: lines_of.induct)
  case (1 s)
  show ?case
  proof (cases s)
    case Nil
    with 1 show ?thesis by (simp add: lines_of.simps)
  next
    case s: (Cons c cs)
    let ?rest = "dropWhile (\<lambda>c. c \<noteq> newline) s"
    have sub: "set (takeWhile (\<lambda>c. c \<noteq> newline) s) \<subseteq> set s - {newline}"
      by (auto dest: set_takeWhileD)
    show ?thesis
    proof (cases ?rest)
      case Nil
      with 1(2) s sub show ?thesis by (subst (asm) lines_of.simps) (auto split: list.splits)
    next
      case rest: (Cons d ds)
      have "set ds \<subseteq> set s" using rest by (metis list.set_intros(2) set_dropWhileD subsetI)
      moreover have "l \<in> set (lines_of ds) \<Longrightarrow> newline \<notin> set l \<and> set l \<subseteq> set ds"
        using 1(1) [OF s refl refl rest] .
      moreover have "l \<in> set (lines_of ds) \<or> set l \<subseteq> set (takeWhile (\<lambda>c. c \<noteq> newline) s)"
        using 1(2) s rest
        by (subst (asm) lines_of.simps) (auto simp: Let_def dest: in_set_butlastD split: if_splits)
      ultimately show ?thesis using sub by blast
    qed
  qed
qed

subsection \<open>Paths\<close>

lemma split_at_nonempty [simp]: "split_at d s \<noteq> []"
  by (induction s) (auto split: list.split)

lemma split_at_append: "split_at d (p @ d # s) = split_at d p @ split_at d s"
  by (induction p) (auto split: list.split)

lemma components_append: "components (p @ slash # s) = components p @ components s"
  by (simp add: components_def split_at_append)

lemma components_join:
  assumes "s = [] \<or> hd s \<noteq> slash" shows "components (path_join p s) = components p @ components s"
proof (cases "p = [] \<or> last p = slash")
  case True
  then obtain q where "p = [] \<or> p = q @ [slash]" by (metis append_butlast_last_id)
  then show ?thesis
    using assms components_append [of q s] components_append [of q "[]"]
    by (auto simp: path_join_def components_def)
next
  case False
  with assms components_append [of p s] show ?thesis by (auto simp: path_join_def)
qed

lemma path_join_last: "s \<noteq> [] \<Longrightarrow> path_join p s \<noteq> [] \<and> last (path_join p s) = last s"
  by (simp add: path_join_def)

lemma with_extension_join:
  assumes "slash \<notin> set stem" "slash \<notin> set e" "CHR ''.'' \<notin> set e" "stem \<noteq> []"
  shows "with_extension (p @ slash # stem @ CHR ''.'' # e) ext = p @ slash # stem @ CHR ''.'' # ext"
proof -
  let ?n = "stem @ CHR ''.'' # e"
  have dot: "CHR ''.'' \<noteq> slash" by (simp add: slash_def)
  have "takeWhile (\<lambda>c. c \<noteq> slash) (rev ?n @ slash # rev p) = rev ?n"
    "dropWhile (\<lambda>c. c \<noteq> slash) (rev ?n @ slash # rev p) = slash # rev p"
    using assms dot by (subst takeWhile_append2 dropWhile_append2; auto)+
  moreover have "dropWhile (\<lambda>c. c \<noteq> CHR ''.'') (rev e @ CHR ''.'' # rev stem) = CHR ''.'' # rev stem"
    using assms by (subst dropWhile_append2) auto
  ultimately show ?thesis using assms by (simp add: with_extension_def Let_def)
qed

definition temporary_file :: "string \<Rightarrow> string" where
  "temporary_file out_dir = with_extension (bindings_file out_dir) ''tmp''"

lemma bindings_components:
  "components (bindings_file out_dir) =
     components out_dir @ [''autocxx-build-dir'', ''rs'', ''autocxx-ffi-default-gen.rs'']"
  by (simp add: bindings_file_def components_join slash_def)
    (simp add: components_def slash_def)

lemma temporary_components:
  "components (temporary_file out_dir) =
     components out_dir @ [''autocxx-build-dir'', ''rs'', ''autocxx-ffi-default-gen.tmp'']"
proof -
  let ?dir = "path_join (path_join out_dir ''autocxx-build-dir'') ''rs''"
  have "?dir \<noteq> []" "last ?dir = CHR ''s''" using path_join_last [of "''rs''"] by simp_all
  then have "bindings_file out_dir = ?dir @ slash # ''autocxx-ffi-default-gen'' @ CHR ''.'' # ''rs''"
    unfolding bindings_file_def path_join_def [of ?dir] by (simp add: slash_def)
  moreover have "with_extension (?dir @ slash # ''autocxx-ffi-default-gen'' @ CHR ''.'' # ''rs'') ''tmp'' =
      ?dir @ slash # ''autocxx-ffi-default-gen'' @ CHR ''.'' # ''tmp''"
    by (rule with_extension_join) (simp_all add: slash_def)
  ultimately have temp: "temporary_file out_dir =
      ?dir @ slash # ''autocxx-ffi-default-gen'' @ CHR ''.'' # ''tmp''"
    by (simp only: temporary_file_def)
  have name: "components (''autocxx-ffi-default-gen'' @ CHR ''.'' # ''tmp'') = [''autocxx-ffi-default-gen.tmp'']"
    by (simp add: components_def slash_def)
  have "components ?dir = components out_dir @ [''autocxx-build-dir'', ''rs'']"
    by (simp add: components_join slash_def) (simp add: components_def slash_def)
  then show ?thesis unfolding temp components_append name by simp
qed

subsection \<open>The rewritten file\<close>

definition rewritten :: "string \<Rightarrow> string" where
  "rewritten input = concat (map (\<lambda>l. rewrite_line l @ [newline]) (lines_of input))"

lemma node_at_filter: "node_at (filter (\<lambda>(q, _). q \<noteq> a) fs) = (\<lambda>p. if p = a \<and> p \<noteq> [] then None else node_at fs p)"
proof -
  have "map_of (filter (\<lambda>(q, _). q \<noteq> a) fs) p = (if p = a then None else map_of fs p)" for p
    by (induction fs) auto
  then show ?thesis by (auto simp: node_at_def fun_eq_iff)
qed

lemma write_file_cases:
  assumes "write_file d p c fs = (r, fs')" "p \<noteq> []"
  shows "(r = Ok () \<and> node_at fs' = (node_at fs)(p \<mapsto> Contents c)) \<or>
    (r = Err () \<and> (\<forall>q. q \<noteq> p \<longrightarrow> node_at fs' q = node_at fs q))"
  using assms by (auto simp: write_file_def node_at_set_file split: option.splits if_splits)

lemma rename_file_cases:
  assumes "rename_file d a b fs = (r, fs')" "a \<noteq> []" "b \<noteq> []" "a \<noteq> b" "node_at fs a = Some (Contents c)"
  shows "(r = Ok () \<and> node_at fs' = (node_at fs)(a := None, b \<mapsto> Contents c)) \<or> (r = Err () \<and> fs' = fs)"
  using assms by (auto simp: rename_file_def node_at_set_file node_at_filter fun_eq_iff split: if_splits)

lemma rewrite_opened_cases:
  assumes run: "rewrite_opened t file temp input fs = (r, fs')"
    and names: "file \<noteq> []" "temp \<noteq> []" "temp \<noteq> file"
  shows "(r = Ok () \<and> list_all utf8_valid (lines_of input) \<and>
      node_at fs' = (node_at fs)(temp := None, file \<mapsto> Contents (rewritten input))) \<or>
    (r = Panic \<and> (\<forall>q. q \<noteq> temp \<longrightarrow> node_at fs' q = node_at fs q))"
proof (cases "refuses t (Create temp) \<or> \<not> can_create temp fs")
  case True
  with run show ?thesis by (auto simp: rewrite_opened_def)
next
  case False
  let ?w = "fst (rewrite_lines (lines_of input))"
  obtain r1 fs1 where w: "write_file t temp ?w fs = (r1, fs1)" by (cases "write_file t temp ?w fs")
  from write_file_cases [OF this names(2)] show ?thesis
  proof
    assume err: "r1 = Err () \<and> (\<forall>q. q \<noteq> temp \<longrightarrow> node_at fs1 q = node_at fs q)"
    with run w False show ?thesis by (auto simp: rewrite_opened_def split: prod.splits)
  next
    assume ok: "r1 = Ok () \<and> node_at fs1 = (node_at fs)(temp \<mapsto> Contents ?w)"
    show ?thesis
    proof (cases "list_all utf8_valid (lines_of input)")
      case bad: False
      with run w False ok show ?thesis by (auto simp: rewrite_opened_def rewrite_lines_eq)
    next
      case valid: True
      then have written: "?w = rewritten input"
        by (simp add: rewrite_lines_eq rewritten_def list_all_iff takeWhile_eq_all_conv [THEN iffD2])
      obtain r2 fs2 where mv: "rename_file t temp file fs1 = (r2, fs2)"
        by (cases "rename_file t temp file fs1")
      then have "(r, fs') = expect_ok (r2, fs2)"
        using run w False ok valid by (auto simp: rewrite_opened_def rewrite_lines_eq)
      moreover have "node_at fs1 temp = Some (Contents ?w)" using ok by simp
      ultimately show ?thesis
        using rename_file_cases [OF mv names(2,1,3)] valid ok
        by (auto simp: written fun_eq_iff)
    qed
  qed
qed

lemma rewrite_bindings_cases:
  assumes run: "rewrite_bindings t file_path fs = (r, fs')"
    and there: "node_at fs (components file_path) \<noteq> None"
    and rustfmt: "run_command t [''rustfmt'', file_path] fs = (status, fs1)"
    and names: "components file_path \<noteq> []" "components (with_extension file_path ''tmp'') \<noteq> []"
      "components (with_extension file_path ''tmp'') \<noteq> components file_path"
  shows "(\<exists>input. r = Ok () \<and> node_at fs1 (components file_path) = Some (Contents input) \<and>
       list_all utf8_valid (lines_of input) \<and>
       node_at fs' = (node_at fs1)(components (with_extension file_path ''tmp'') := None,
         components file_path \<mapsto> Contents (rewritten input))) \<or>
    (r = Panic \<and> (\<forall>q. q \<noteq> components (with_extension file_path ''tmp'') \<longrightarrow> node_at fs' q = node_at fs1 q))"
  using run there rustfmt rewrite_opened_cases [OF _ names]
  unfolding rewrite_bindings_def
  by (auto split: option.splits bool.splits node.splits if_splits)

lemma rewritten_lines:
  assumes "carriage_return \<notin> set input" shows "lines_of (rewritten input) = map rewrite_line (lines_of input)"
proof -
  have "newline \<notin> set (rewrite_line l) \<and> carriage_return \<notin> set (rewrite_line l)"
    if "l \<in> set (lines_of input)" for l
    using lines_of_set [OF that] assms rewrite_line_set by blast
  then show ?thesis
    using lines_of_lines [of "map rewrite_line (lines_of input)"] by (simp add: rewritten_def comp_def)
qed

subsection \<open>The lines for Cargo\<close>

lemma on_files_cargo:
  "on_files f s = (r, s') \<Longrightarrow> cargo_lines s' = cargo_lines s"
  by (auto simp: on_files_def split: prod.splits)

lemma generate_bindings_cargo:
  assumes "generate_bindings bundled t out_dir i g a root w s = (Ok (), s')"
  shows "\<exists>lib. vsomeip_lib_path bundled t = Ok lib \<and> cargo_lines s' = cargo_lines s @
    [''cargo:rerun-if-changed=src/lib.rs'', ''cargo:rustc-link-lib=vsomeip3'',
     ''cargo:rustc-link-search=native='' @ lib, ''cargo:rerun-if-changed=src/cxx_bridge.rs'']"
  using assms unfolding generate_bindings_def Let_def and_then_Ok_iff
  by (auto simp: print_cargo_def dest!: on_files_cargo)

subsection \<open>What the script does\<close>

definition sample_tools :: "(io_call \<Rightarrow> bool) \<Rightarrow> bool \<Rightarrow> tools" where
  "sample_tools r success =
     \<lparr>refuses = r, short_write = (\<lambda>_. None),
      env_var = map_of [(''CARGO_MANIFEST_DIR'', ''/c''), (''OUT_DIR'', ''/o'')],
      run_command = (\<lambda>_ fs. (Some success, fs)),
      autocxx_build = (\<lambda>_ _ _ fs. (Ok (), fs)), autocxx_compile = (\<lambda>_ _ fs. (Ok (), fs)),
      cxx_compile = (\<lambda>_ _ _ _ _ _ fs. (Ok (), fs)), cmake_build = (\<lambda>_ _ _ fs. (Ok (), fs))\<rparr>"

definition sample_tree :: files where
  "sample_tree =
     [([''o''], Directory), ([''c''], Directory), ([''c'', ''s''], Directory),
      ([''c'', ''s'', ''x''], Contents ''1''), ([''c'', ''y''], Contents ''2'')]"

lemma sample_tree_ok: "files_ok sample_tree"
  by (simp add: files_ok_def sample_tree_def node_at_def)

text \<open>C39. On a disk that works, copying a directory to a place outside it returns \<open>Ok\<close>: everything in
  the source is at the destination, what else was there stays, and nothing elsewhere changes.
  The conditions are that no file stands where a directory goes nor the other way round, that no
  file is above the destination, and that the fuel exceeds the depth of the source.\<close>

theorem copy_dir_all_copies:
  assumes "works d" "files_ok fs" "src \<parallel> dst" "node_at fs src = Some Directory"
    and clash: "\<And>q x y. node_at fs (src @ q) = Some x \<Longrightarrow> node_at fs (dst @ q) = Some y \<Longrightarrow>
      (x = Directory \<longleftrightarrow> y = Directory)"
    and above: "\<And>p. prefix p dst \<Longrightarrow> node_at fs p \<in> {None, Some Directory}"
    and deep: "\<And>q. node_at fs (src @ q) = Some Directory \<Longrightarrow> length q < n"
  shows "\<exists>fs'. copy_dir_all d n src dst fs = Some (Ok (), fs') \<and> files_ok fs' \<and>
    (\<forall>q. node_at fs' (dst @ q) =
       (case node_at fs (src @ q) of Some x \<Rightarrow> Some x | None \<Rightarrow> node_at fs (dst @ q))) \<and>
    (\<forall>p. \<not> prefix dst p \<and> \<not> prefix p dst \<longrightarrow> node_at fs' p = node_at fs p)"
proof -
  have "copyable src dst fs" using assms(2-4) clash by (auto simp: copyable_def no_clash_def)
  moreover have "beneath src n (node_at fs)" using deep by (simp add: beneath_def)
  ultimately obtain fs' where "copy_dir_all d n src dst fs = Some (Ok (), fs')" "files_ok fs'"
    "node_at fs' = copied src dst (node_at fs)"
    using copy_run(1) [OF assms(1), of src dst fs n] above by blast
  then show ?thesis
    using assms(4) by (intro exI [of _ fs']) (auto simp: copied_def split: option.split)
qed

theorem copy_dir_all_copies_witness:
  "\<exists>fs'. copy_dir_all (sample_tools (\<lambda>_. False) True) 3 [''c''] [''o'', ''v''] sample_tree = Some (Ok (), fs') \<and>
     node_at fs' [''o'', ''v'', ''s'', ''x''] = Some (Contents ''1'')"
proof -
  note tree = sample_tree_def node_at_def
  have "\<exists>fs'. copy_dir_all (sample_tools (\<lambda>_. False) True) 3 [''c''] [''o'', ''v''] sample_tree = Some (Ok (), fs') \<and>
      files_ok fs' \<and>
      (\<forall>q. node_at fs' ([''o'', ''v''] @ q) = (case node_at sample_tree ([''c''] @ q) of
         Some x \<Rightarrow> Some x | None \<Rightarrow> node_at sample_tree ([''o'', ''v''] @ q))) \<and>
      (\<forall>p. \<not> prefix [''o'', ''v''] p \<and> \<not> prefix p [''o'', ''v''] \<longrightarrow> node_at fs' p = node_at sample_tree p)"
  proof (rule copy_dir_all_copies, goal_cases)
    case 1 show ?case by (simp add: works_def sample_tools_def)
  next
    case 2 show ?case by (rule sample_tree_ok)
  next
    case 3 show ?case by (simp add: parallel_def)
  next
    case 4 show ?case by (simp add: tree)
  next
    case (5 q x y) then show ?case by (auto simp: tree split: if_splits)
  next
    case (6 p) then show ?case by (auto simp: tree prefix_Cons split: if_splits)
  next
    case (7 q) then show ?case by (auto simp: tree split: if_splits)
  qed
  then obtain fs' where fs': "copy_dir_all (sample_tools (\<lambda>_. False) True) 3 [''c''] [''o'', ''v''] sample_tree = Some (Ok (), fs')"
    "\<And>q. node_at fs' ([''o'', ''v''] @ q) = (case node_at sample_tree ([''c''] @ q) of
         Some x \<Rightarrow> Some x | None \<Rightarrow> node_at sample_tree ([''o'', ''v''] @ q))" by blast
  from fs'(2) [of "[''s'', ''x'']"] have "node_at fs' [''o'', ''v'', ''s'', ''x''] = Some (Contents ''1'')"
    by (simp add: tree)
  with fs'(1) show ?thesis by blast
qed

text \<open>C40. Rewriting the generated bindings begins with rustfmt, which works on the file in place;
  whatever rustfmt changed stays changed, also when rustfmt failed.  Compared with what it left,
  the rewriting either returns, only after rustfmt succeeded, with the file replaced by its
  rewritten lines, the temporary file gone and everything else unchanged, or panics and changes
  no file but the temporary one.\<close>

theorem rewriting_is_all_or_nothing:
  assumes "rewrite_bindings t (bindings_file out_dir) fs = (r, fs')"
    and "node_at fs (components (bindings_file out_dir)) \<noteq> None"
    and "run_command t [''rustfmt'', bindings_file out_dir] fs = (status, fs1)"
  shows "(\<exists>input. r = Ok () \<and> status = Some True \<and>
       node_at fs1 (components (bindings_file out_dir)) = Some (Contents input) \<and>
       node_at fs' = (node_at fs1)(components (temporary_file out_dir) := None,
         components (bindings_file out_dir) \<mapsto> Contents (rewritten input))) \<or>
    (r = Panic \<and> (\<forall>q. q \<noteq> components (temporary_file out_dir) \<longrightarrow> node_at fs' q = node_at fs1 q))"
proof -
  have "components (temporary_file out_dir) \<noteq> components (bindings_file out_dir)"
    by (simp add: temporary_components bindings_components)
  moreover have "r = Ok () \<Longrightarrow> status = Some True"
    using assms unfolding rewrite_bindings_def by (auto split: option.splits bool.splits)
  ultimately show ?thesis
    using rewrite_bindings_cases [OF assms, folded temporary_file_def]
    by (auto simp: temporary_components bindings_components)
qed

definition sample_bindings :: files where
  "sample_bindings =
     [([''o''], Directory), ([''o'', ''autocxx-build-dir''], Directory),
      ([''o'', ''autocxx-build-dir'', ''rs''], Directory),
      ([''o'', ''autocxx-build-dir'', ''rs'', ''autocxx-ffi-default-gen.rs''],
       Contents ''pub unsafe fn create_payload1();'')]"

theorem rewriting_is_all_or_nothing_witness:
  "\<exists>fs'. rewrite_bindings (sample_tools (\<lambda>_. False) True) (bindings_file ''/o'') sample_bindings = (Ok (), fs') \<and>
     node_at fs' (components (bindings_file ''/o'')) =
       Some (Contents (rewritten ''pub unsafe fn create_payload1();''))"
proof -
  let ?t = "sample_tools (\<lambda>_. False) True" and ?file = "components (bindings_file ''/o'')"
  have path: "?file = [''o'', ''autocxx-build-dir'', ''rs'', ''autocxx-ffi-default-gen.rs'']"
    by (simp add: bindings_components) (simp add: components_def slash_def)
  obtain r fs' where run: "rewrite_bindings ?t (bindings_file ''/o'') sample_bindings = (r, fs')"
    by (cases "rewrite_bindings ?t (bindings_file ''/o'') sample_bindings")
  have "fst (rewrite_bindings ?t (bindings_file ''/o'') sample_bindings) = Ok ()" by code_simp
  with run have "r = Ok ()" by simp
  moreover have "node_at sample_bindings ?file = Some (Contents ''pub unsafe fn create_payload1();'')"
    by (simp add: path sample_bindings_def node_at_def)
  moreover have "run_command ?t [''rustfmt'', bindings_file ''/o''] sample_bindings = (Some True, sample_bindings)"
    by (simp add: sample_tools_def)
  ultimately show ?thesis
    using rewriting_is_all_or_nothing [OF run, of "Some True" sample_bindings] run by auto
qed

text \<open>Neither the result of copying vsomeip's sources nor the exit status of patch has a say in
  the build: when patch can be started at all, cmake runs on whatever there is, and its result is
  that of the build.\<close>

theorem build_goes_on_after_failures:
  assumes "env_var t ''CARGO_MANIFEST_DIR'' = Some root" "env_var t ''OUT_DIR'' = Some out_dir"
    and "dir = path_join (path_join out_dir ''vsomeip'') ''vsomeip_build''"
    and "copy_dir_all t fuel (components (path_join root ''vsomeip'')) (components dir)
      (checkout_step t root fs) = Some (copy_result, fs1)"
    and "run_command t [''patch'', ''-d'', dir, ''-p1'', ''-i'',
      path_join (path_join root ''patches'') ''disable_tests.patch''] fs1 = (Some patched, fs2)"
    and "vsomeip_install_path t = Ok install"
  shows "build fuel t fs = Some (cmake_build t dir
    [(''CMAKE_INSTALL_PREFIX'', install), (''ENABLE_SIGNAL_HANDLING'', ''1'')] ''install'' fs2)"
  using assms by (simp add: build_def expect_var_def patch_step_def Let_def)

theorem build_goes_on_after_failures_witness:
  "copy_dir_all (sample_tools (\<lambda>_. True) False) 3 [''c'', ''vsomeip''] [''o'', ''vsomeip'', ''vsomeip_build''] [] =
       Some (Err (), []) \<and>
     build 3 (sample_tools (\<lambda>_. True) False) [] = Some (Ok (), [])"
proof -
  let ?t = "sample_tools (\<lambda>_. True) False"
  have copy: "copy_dir_all ?t 3 [''c'', ''vsomeip''] [''o'', ''vsomeip'', ''vsomeip_build''] [] = Some (Err (), [])"
    by (simp add: numeral_3_eq_3 create_dir_all_def sample_tools_def node_at_def)
  have "components (path_join ''/c'' ''vsomeip'') = [''c'', ''vsomeip'']"
    "components (path_join (path_join ''/o'' ''vsomeip'') ''vsomeip_build'') = [''o'', ''vsomeip'', ''vsomeip_build'']"
    "checkout_step ?t ''/c'' [] = []"
    by code_simp+
  with copy have "copy_dir_all ?t 3 (components (path_join ''/c'' ''vsomeip''))
      (components (path_join (path_join ''/o'' ''vsomeip'') ''vsomeip_build'')) (checkout_step ?t ''/c'' []) =
      Some (Err (), [])" by simp
  from build_goes_on_after_failures [OF _ _ refl this, of False "[]"]
  have "build 3 ?t [] = Some (Ok (), [])"
    by (simp add: sample_tools_def vsomeip_install_path_def expect_var_def)
  with copy show ?thesis by blast
qed

text \<open>When the script ends well Cargo is told to link vsomeip from the directory below the one cmake
  installs to, and to watch the two sources of the bindings.\<close>

theorem linker_searches_what_was_installed:
  assumes "main bundled fuel t s = Some (Ok (), s')" "vsomeip_install_path t = Ok install"
    and "bundled \<or> env_var t ''VSOMEIP_INSTALL_PATH'' \<noteq> None"
  shows "cargo_lines s' = cargo_lines s @
    [''cargo:rerun-if-changed=src/lib.rs'', ''cargo:rustc-link-lib=vsomeip3'',
     ''cargo:rustc-link-search=native='' @ path_join install ''lib'',
     ''cargo:rerun-if-changed=src/cxx_bridge.rs'']"
proof -
  have "vsomeip_lib_path bundled t = Ok (path_join install ''lib'')"
    using assms(2,3) by (auto simp: vsomeip_lib_path_def vsomeip_install_path_def expect_var_def
        split: option.splits)
  then show ?thesis
    using assms(1) by (auto simp: main_def and_then_Ok_iff dest!: generate_bindings_cargo
        split: option.splits prod.splits)
qed

subsection \<open>The protobuf definitions\<close>

fun_cases expect_ok_returns: "expect_ok r = (Ok a, s)"

text \<open>Where the five definitions go: below the folder protoc is given as its include path, each under the
  path by which the others import it.\<close>

lemma hello_world_proto_paths:
  "map (proto_path ''/o/proto'') hello_world_protos =
     [''/o/proto/google/protobuf/descriptor.proto'', ''/o/proto/google/type/timeofday.proto'',
      ''/o/proto/uprotocol/uoptions.proto'', ''/o/proto/example/hello_world/v1/hello_world_topics.proto'',
      ''/o/proto/example/hello_world/v1/hello_world_service.proto'']"
  by code_simp

lemma create_dirs_keeps:
  "create_dirs d ps fs = (r, fs') \<Longrightarrow> node_at fs p = Some x \<Longrightarrow> node_at fs' p = Some x"
proof (induction d ps fs rule: create_dirs.induct)
  case (2 d q ps fs)
  have "node_at (fs @ [(q, Directory)]) p = Some x" if "node_at fs q = None"
  proof -
    from that have "q \<noteq> []" by (auto simp: node_at_def)
    with that 2 show ?thesis by (auto simp: node_at_append)
  qed
  with 2 show ?case by (auto split: option.splits node.splits if_splits)
qed simp

lemma download_ok:
  assumes "download_and_write_file t url dest fs = (Ok (), fs')" "dest \<noteq> []"
  shows "\<exists>body. http_get t url = Some (body, True) \<and> node_at fs' dest = Some (Contents body)"
    "p \<noteq> dest \<Longrightarrow> node_at fs p = Some x \<Longrightarrow> node_at fs' p = Some x"
proof -
  obtain body fs1 where run: "http_get t url = Some (body, True)"
    "create_dir_all t (butlast dest) fs = (Ok (), fs1)" "write_file t dest body fs1 = (Ok (), fs')"
    using assms(1) by (auto simp: download_and_write_file_def and_then_Ok_iff split: option.splits if_splits)
  from write_file_cases [OF run(3) assms(2)]
  have "node_at fs' = (node_at fs1)(dest \<mapsto> Contents body)" by simp
  then show "\<exists>body. http_get t url = Some (body, True) \<and> node_at fs' dest = Some (Contents body)"
    "p \<noteq> dest \<Longrightarrow> node_at fs p = Some x \<Longrightarrow> node_at fs' p = Some x"
    using run(1,2) create_dirs_keeps [of t _ fs _ fs1 p x] by (auto simp: create_dir_all_def)
qed

lemma fetch_protos_keeps:
  "fetch_protos t folder urls fs = (Ok ps, fs') \<Longrightarrow> node_at fs p = Some x \<Longrightarrow>
     \<forall>url\<in>set urls. components (proto_path folder url) \<notin> {[], p} \<Longrightarrow> node_at fs' p = Some x"
proof (induction urls arbitrary: fs ps)
  case (Cons url urls)
  obtain fs1 fs2 qs where run: "create_dir_all t (butlast (components (proto_path folder url))) fs = (Ok (), fs1)"
    "download_and_write_file t url (components (proto_path folder url)) fs1 = (Ok (), fs2)"
    "fetch_protos t folder urls fs2 = (Ok qs, fs')"
    using Cons.prems(1)
    by (auto simp: Let_def and_then_Ok_iff elim!: expect_ok_returns)
  have "node_at fs1 p = Some x"
    using run(1) Cons.prems(2) create_dirs_keeps by (auto simp: create_dir_all_def)
  then have "node_at fs2 p = Some x" using download_ok(2) [OF run(2)] Cons.prems(3) by fastforce
  with Cons.IH [OF run(3)] Cons.prems(3) show ?case by simp
qed simp

text \<open>When the script has fetched its files each holds what was served for its URL.\<close>

lemma fetched_protos_are_served:
  "fetch_protos t folder urls fs = (Ok ps, fs') \<Longrightarrow>
     distinct (map (\<lambda>url. components (proto_path folder url)) urls) \<Longrightarrow>
     \<forall>url\<in>set urls. components (proto_path folder url) \<noteq> [] \<Longrightarrow>
     ps = map (proto_path folder) urls \<and>
     (\<forall>url\<in>set urls. \<exists>body. http_get t url = Some (body, True) \<and>
        node_at fs' (components (proto_path folder url)) = Some (Contents body))"
proof (induction urls arbitrary: fs ps)
  case (Cons url urls)
  let ?c = "\<lambda>url. components (proto_path folder url)"
  obtain fs1 fs2 qs where run: "create_dir_all t (butlast (?c url)) fs = (Ok (), fs1)"
    "download_and_write_file t url (?c url) fs1 = (Ok (), fs2)"
    "fetch_protos t folder urls fs2 = (Ok qs, fs')" "ps = proto_path folder url # qs"
    using Cons.prems(1)
    by (auto simp: Let_def and_then_Ok_iff elim!: expect_ok_returns)
  obtain body where body: "http_get t url = Some (body, True)" "node_at fs2 (?c url) = Some (Contents body)"
    using download_ok(1) [OF run(2)] Cons.prems(3) by auto
  have "\<forall>u\<in>set urls. ?c u \<notin> {[], ?c url}" using Cons.prems by (auto simp: image_iff)
  from fetch_protos_keeps [OF run(3) body(2) this] Cons.IH [OF run(3)] Cons.prems body(1) run(4)
  show ?case by auto
qed simp

end
