(* ===== verification/Glue_Registrations.thy ===== *)
theory Glue_Registrations
  imports Message_Conversions
begin

text \<open>
  The way of a registration from the wrappers of \<^verbatim>\<open>vsomeip-sys/src/glue_additions.rs\<close> through
  the bridge (\<^verbatim>\<open>cxx_bridge.rs\<close>) and the C++ functions of \<^verbatim>\<open>glue/application_registrations.cpp\<close>
  to the methods of vsomeip's application.  Elsewhere the development takes it as one call.

  A function pointer (\<^verbatim>\<open>extern_callback_wrappers.rs\<close>) is the function it points to; \<open>'o\<close> is what a
  run of it does.  What vsomeip is given is a handler of its own, a \<open>std::function\<close>.  The states
  of a service's availability are the library's: \<open>'st\<close> is their type and \<open>unavailable\<close> the constant
  \<open>AS_UNAVAILABLE\<close>.  A C++ function that follows a null pointer has undefined behaviour: its
  result is \<open>None\<close>.
\<close>

subsection \<open>Function pointers and handlers\<close>

datatype 'o availability_fn = AvailabilityHandlerFnPtr "ServiceId \<Rightarrow> InstanceId \<Rightarrow> bool \<Rightarrow> 'o"

datatype 'o message_fn = MessageHandlerFnPtr "vmessage \<Rightarrow> 'o"

datatype 'o subscription_fn =
  SubscriptionStatusHandlerFnPtr "ServiceId \<Rightarrow> InstanceId \<Rightarrow> EventId \<Rightarrow> EventId \<Rightarrow> u16 \<Rightarrow> 'o"

datatype 'o state_fn = AvailableStateHandlerFnPtr "state_type \<Rightarrow> 'o"

text \<open>The calls of an application's methods, with the handlers they are given; those without a
  handler or an event group are as in \<open>vs_call\<close>.\<close>

datatype ('st, 'o) library_call =
    Plain vs_call
  | request_event ApplicationName ServiceId InstanceId EventId "EventId set"
  | offer_event ApplicationName ServiceId InstanceId EventId "EventId set"
  | register_message_handler ApplicationName ServiceId InstanceId MethodId "vmessage \<Rightarrow> 'o"
  | register_availability_handler ApplicationName ServiceId InstanceId
      "ServiceId \<Rightarrow> InstanceId \<Rightarrow> 'st \<Rightarrow> 'o" u8 u32
  | register_subscription_status_handler ApplicationName ServiceId InstanceId EventId EventId
      "ServiceId \<Rightarrow> InstanceId \<Rightarrow> EventId \<Rightarrow> EventId \<Rightarrow> u16 \<Rightarrow> 'o" bool
  | register_state_handler ApplicationName "state_type \<Rightarrow> 'o"

type_synonym ('st, 'o) library = "('st, 'o) library_call list"

subsection \<open>Wrappers of applications and of the runtime\<close>

text \<open>The shared pointer an \<open>ApplicationWrapper\<close> holds, and the one a \<open>RuntimeWrapper\<close> holds; there is
  one runtime.\<close>

datatype application_wrapper = ApplicationWrapper "ApplicationName option"

datatype runtime_wrapper = RuntimeWrapper "unit option"

fun application_get_mut :: "application_wrapper \<Rightarrow> ApplicationName option" where
  "application_get_mut (ApplicationWrapper p) = p"

fun application_get_shared_ptr :: "application_wrapper \<Rightarrow> ApplicationName option" where
  "application_get_shared_ptr (ApplicationWrapper p) = p"

fun runtime_get_mut :: "runtime_wrapper \<Rightarrow> unit option" where
  "runtime_get_mut (RuntimeWrapper p) = p"

definition make_application_wrapper_possible :: "ApplicationName option \<Rightarrow> application_wrapper" where
  "make_application_wrapper_possible p = ApplicationWrapper p"

definition make_application_wrapper :: "ApplicationName option \<Rightarrow> application_wrapper option" where
  "make_application_wrapper app_shared_ptr =
     (if app_shared_ptr = None then None
      else Some (make_application_wrapper_possible app_shared_ptr))"

definition make_runtime_wrapper :: "unit option \<Rightarrow> runtime_wrapper" where
  "make_runtime_wrapper p = RuntimeWrapper p"

definition application_get_pinned :: "application_wrapper \<Rightarrow> ApplicationName result" where
  "application_get_pinned w = (case application_get_mut w of None \<Rightarrow> Panic | Some app \<Rightarrow> Ok app)"

definition runtime_get_pinned :: "runtime_wrapper \<Rightarrow> unit result" where
  "runtime_get_pinned w = (case runtime_get_mut w of None \<Rightarrow> Panic | Some r \<Rightarrow> Ok r)"

subsection \<open>The C++ functions\<close>

definition through ::
  "application_wrapper \<Rightarrow> (ApplicationName \<Rightarrow> ('st, 'o) library_call) \<Rightarrow> ('st, 'o) library \<Rightarrow>
     ('st, 'o) library option" where
  "through application_wrapper f calls =
     (case application_get_shared_ptr application_wrapper of
        None \<Rightarrow> None
      | Some app \<Rightarrow> Some (calls @ [f app]))"

definition request_single_event ::
  "application_wrapper \<Rightarrow> ServiceId \<Rightarrow> InstanceId \<Rightarrow> EventId \<Rightarrow> EventId \<Rightarrow>
     ('st, 'o) library \<Rightarrow> ('st, 'o) library option" where
  "request_single_event w service inst notifier eventgroup =
     (let eventgroups = {eventgroup}
      in through w (\<lambda>app. request_event app service inst notifier eventgroups))"

definition offer_single_event ::
  "application_wrapper \<Rightarrow> ServiceId \<Rightarrow> InstanceId \<Rightarrow> EventId \<Rightarrow> EventId \<Rightarrow>
     ('st, 'o) library \<Rightarrow> ('st, 'o) library option" where
  "offer_single_event w service inst notifier eventgroup =
     (let eventgroups = {eventgroup}
      in through w (\<lambda>app. offer_event app service inst notifier eventgroups))"

definition register_message_handler_fn_ptr ::
  "application_wrapper \<Rightarrow> ServiceId \<Rightarrow> InstanceId \<Rightarrow> MethodId \<Rightarrow> 'o message_fn \<Rightarrow>
     ('st, 'o) library \<Rightarrow> ('st, 'o) library option" where
  "register_message_handler_fn_ptr w service inst the_method fn_ptr_handler =
     (let handler = (case fn_ptr_handler of MessageHandlerFnPtr f \<Rightarrow> f)
      in through w (\<lambda>app. register_message_handler app service inst the_method handler))"

definition register_availability_handler_fn_ptr ::
  "'st \<Rightarrow> application_wrapper \<Rightarrow> ServiceId \<Rightarrow> InstanceId \<Rightarrow> 'o availability_fn \<Rightarrow> u8 \<Rightarrow> u32 \<Rightarrow>
     ('st, 'o) library \<Rightarrow> ('st, 'o) library option" where
  "register_availability_handler_fn_ptr unavailable w service inst fn_ptr_handler major minor =
     (let handler = (\<lambda>service inst availability_state.
            let available = (availability_state \<noteq> unavailable)
            in case fn_ptr_handler of AvailabilityHandlerFnPtr f \<Rightarrow> f service inst available)
      in through w (\<lambda>app. register_availability_handler app service inst handler major minor))"

definition register_subscription_status_handler_fn_ptr ::
  "application_wrapper \<Rightarrow> ServiceId \<Rightarrow> InstanceId \<Rightarrow> EventId \<Rightarrow> EventId \<Rightarrow> 'o subscription_fn \<Rightarrow> bool \<Rightarrow>
     ('st, 'o) library \<Rightarrow> ('st, 'o) library option" where
  "register_subscription_status_handler_fn_ptr w service inst eventgroup event fn_ptr_handler is_selective =
     (let handler = (\<lambda>service inst eventgroup event status.
            case fn_ptr_handler of
              SubscriptionStatusHandlerFnPtr f \<Rightarrow> f service inst eventgroup event status)
      in through w (\<lambda>app.
           register_subscription_status_handler app service inst eventgroup event handler is_selective))"

definition register_state_handler_fn_ptr ::
  "application_wrapper \<Rightarrow> 'o state_fn \<Rightarrow> ('st, 'o) library \<Rightarrow> ('st, 'o) library option" where
  "register_state_handler_fn_ptr w fn_ptr_handler =
     (let handler = (case fn_ptr_handler of AvailableStateHandlerFnPtr f \<Rightarrow> f)
      in through w (\<lambda>app. register_state_handler app handler))"

subsection \<open>The safe wrappers\<close>

text \<open>Each takes the address of the wrapper it is a method of, so the C++ function's wrapper is that
  one.\<close>

definition wrapper_request_single_event ::
  "application_wrapper \<Rightarrow> ServiceId \<Rightarrow> InstanceId \<Rightarrow> EventId \<Rightarrow> EventId \<Rightarrow>
     ('st, 'o) library \<Rightarrow> ('st, 'o) library option" where
  "wrapper_request_single_event self_ptr service inst notifier eventgroup =
     request_single_event self_ptr service inst notifier eventgroup"

definition wrapper_offer_single_event ::
  "application_wrapper \<Rightarrow> ServiceId \<Rightarrow> InstanceId \<Rightarrow> EventId \<Rightarrow> EventId \<Rightarrow>
     ('st, 'o) library \<Rightarrow> ('st, 'o) library option" where
  "wrapper_offer_single_event self_ptr service inst notifier eventgroup =
     offer_single_event self_ptr service inst notifier eventgroup"

definition wrapper_register_message_handler ::
  "application_wrapper \<Rightarrow> ServiceId \<Rightarrow> InstanceId \<Rightarrow> MethodId \<Rightarrow> 'o message_fn \<Rightarrow>
     ('st, 'o) library \<Rightarrow> ('st, 'o) library option" where
  "wrapper_register_message_handler self_ptr service inst the_method fn_ptr_handler =
     register_message_handler_fn_ptr self_ptr service inst the_method fn_ptr_handler"

definition register_availability_handler_fn_ptr_safe ::
  "'st \<Rightarrow> application_wrapper \<Rightarrow> ServiceId \<Rightarrow> InstanceId \<Rightarrow> 'o availability_fn \<Rightarrow> u8 \<Rightarrow> u32 \<Rightarrow>
     ('st, 'o) library \<Rightarrow> ('st, 'o) library option" where
  "register_availability_handler_fn_ptr_safe unavailable self_ptr service inst fn_ptr_handler
       major_version minor_version =
     register_availability_handler_fn_ptr unavailable self_ptr service inst fn_ptr_handler
       major_version minor_version"

definition register_subscription_status_handler_fn_ptr_safe ::
  "application_wrapper \<Rightarrow> ServiceId \<Rightarrow> InstanceId \<Rightarrow> EventId \<Rightarrow> EventId \<Rightarrow> 'o subscription_fn \<Rightarrow> bool \<Rightarrow>
     ('st, 'o) library \<Rightarrow> ('st, 'o) library option" where
  "register_subscription_status_handler_fn_ptr_safe self_ptr service inst eventgroup event
       fn_ptr_handler is_selective =
     register_subscription_status_handler_fn_ptr self_ptr service inst eventgroup event
       fn_ptr_handler is_selective"

definition wrapper_register_state_handler ::
  "application_wrapper \<Rightarrow> 'o state_fn \<Rightarrow> ('st, 'o) library \<Rightarrow> ('st, 'o) library option" where
  "wrapper_register_state_handler self_ptr fn_ptr_handler =
     register_state_handler_fn_ptr self_ptr fn_ptr_handler"

lemmas cxx_functions =
  request_single_event_def offer_single_event_def register_message_handler_fn_ptr_def
  register_availability_handler_fn_ptr_def register_subscription_status_handler_fn_ptr_def
  register_state_handler_fn_ptr_def through_def Let_def

lemmas safe_wrappers =
  wrapper_request_single_event_def wrapper_offer_single_event_def
  wrapper_register_message_handler_def register_availability_handler_fn_ptr_safe_def
  register_subscription_status_handler_fn_ptr_safe_def wrapper_register_state_handler_def

subsection \<open>What becomes of a registration\<close>

text \<open>A wrapper that was made is not null, so none of its methods panics or follows a null pointer.\<close>

lemma made_wrapper [simp]:
  "make_application_wrapper p = Some w \<longleftrightarrow> (\<exists>app. p = Some app \<and> w = ApplicationWrapper (Some app))"
  by (auto simp: make_application_wrapper_def make_application_wrapper_possible_def)

lemma made_wrapper_pinned:
  "make_application_wrapper p = Some w \<Longrightarrow> \<exists>app. p = Some app \<and> application_get_pinned w = Ok app"
  by (auto simp: application_get_pinned_def)

text \<open>The calls the rest of the development records, at the library: the function pointers stand for
  the generated functions, whose code is \<open>on_message\<close> and \<open>on_state\<close>.\<close>

fun at_library ::
  "(nat \<Rightarrow> vmessage \<Rightarrow> 'o) \<Rightarrow> (nat \<Rightarrow> state_type \<Rightarrow> 'o) \<Rightarrow> vs_call \<Rightarrow> ('st, 'o) library_call" where
  "at_library on_message on_state (RequestEvent app service inst notifier eventgroup) =
     request_event app service inst notifier {eventgroup}"
| "at_library on_message on_state (OfferEvent app service inst notifier eventgroup) =
     offer_event app service inst notifier {eventgroup}"
| "at_library on_message on_state
     (RegisterMessageHandler app service inst the_method (Extern_fn_message_handler i)) =
     register_message_handler app service inst the_method (on_message i)"
| "at_library on_message on_state (RegisterStateHandler app (Available_state_handler_extern_fn i)) =
     register_state_handler app (on_state i)"
| "at_library on_message on_state c = Plain c"

definition library_of ::
  "(nat \<Rightarrow> vmessage \<Rightarrow> 'o) \<Rightarrow> (nat \<Rightarrow> state_type \<Rightarrow> 'o) \<Rightarrow> ('bm, 'z) core_scheme \<Rightarrow> ('st, 'o) library" where
  "library_of on_message on_state w = map (at_library on_message on_state) (hist w)"

text \<open>With a wrapper of an existing application the wrappers' way through the C++ functions comes to
  the calls the transport is modelled with: an event has the one group, and a handler is the
  generated function.\<close>

theorem registrations_reach_the_library:
  assumes "make_application_wrapper (get_application V (hist w) app) = Some wrapper"
  shows "wrapper_request_single_event wrapper service inst notifier eventgroup (library_of f g w) =
      Some (library_of f g (request_single_event_safe app service inst notifier eventgroup w)) \<and>
    wrapper_offer_single_event wrapper service inst notifier eventgroup (library_of f g w) =
      Some (library_of f g (offer_single_event_safe app service inst notifier eventgroup w)) \<and>
    wrapper_register_message_handler wrapper service inst the_method (MessageHandlerFnPtr (f i)) (library_of f g w) =
      Some (library_of f g (register_message_handler_fn_ptr_safe app service inst the_method
        (Extern_fn_message_handler i) w)) \<and>
    wrapper_register_state_handler wrapper (AvailableStateHandlerFnPtr (g i)) (library_of f g w) =
      Some (library_of f g (register_state_handler_fn_ptr_safe app (Available_state_handler_extern_fn i) w))"
  using assms
  by (auto simp: safe_wrappers cxx_functions library_of_def call_vs_def get_application_def split: if_splits)

text \<open>A function registered for a service's availability is told that it is available in every state
  but \<open>AS_UNAVAILABLE\<close>; one registered for the status of a subscription is passed what the library
  passes.\<close>

lemma availability_is_anything_but_unavailable:
  assumes "make_application_wrapper (Some app) = Some wrapper"
  shows "\<exists>handler. register_availability_handler_fn_ptr_safe unavailable wrapper service inst
      (AvailabilityHandlerFnPtr f) major minor calls =
      Some (calls @ [register_availability_handler app service inst handler major minor]) \<and>
    (\<forall>s i state. handler s i state = f s i (state \<noteq> unavailable))"
  using assms by (auto simp: safe_wrappers cxx_functions)

lemma subscription_status_is_passed_on:
  assumes "make_application_wrapper (Some app) = Some wrapper"
  shows "register_subscription_status_handler_fn_ptr_safe wrapper service inst eventgroup event
      (SubscriptionStatusHandlerFnPtr f) is_selective calls =
      Some (calls @ [register_subscription_status_handler app service inst eventgroup event f is_selective])"
  using assms by (auto simp: safe_wrappers cxx_functions)

end
