(* ===== verification/Example_Programs.thy ===== *)
theory Example_Programs
  imports Glue_Registrations Build_Script
begin

text \<open>
  The programs under \<^verbatim>\<open>vsomeip-sys/examples\<close>, which use the wrappers without the transport: a
  publisher and a subscriber of an event, a client and a service.

  Each starts its application on a thread of its own (\<open>start_app\<close>), sleeps two seconds and looks
  the application up.  The state is what the library was called with by then and since; it is
  arbitrary at the start, so that the thread may or may not have got anywhere.  A loop that does
  not end is run for a number of rounds.  What is printed is left out, apart from what the
  handlers print of the messages they are given.
\<close>

subsection \<open>What the programs run on\<close>

text \<open>What a run of a handler does: a panic in an \<open>extern "C"\<close> function aborts the process; else the
  values it prints.\<close>

datatype demo_effect =
    Aborts
  | Prints_Payload "u8 list"
  | Prints_Text "u8 list" "string option"
  | Prints_Status ServiceId InstanceId EventId u16 u16

record 'st demo_library =
  lib_runtime :: "unit option"
  lib_creates :: "('st, demo_effect) library \<Rightarrow> ApplicationName \<Rightarrow> bool"
  lib_exists :: "('st, demo_effect) library \<Rightarrow> ApplicationName \<Rightarrow> bool"
  lib_ANY_SERVICE :: ServiceId
  lib_ANY_INSTANCE :: InstanceId
  lib_ANY_EVENTGROUP :: EventId
  lib_ANY_EVENT :: EventId
  lib_ANY_MAJOR :: u8
  lib_ANY_MINOR :: u32
  lib_request :: vmessage

record 'st demo =
  calls :: "('st, demo_effect) library"
  undefined_behaviour :: bool

definition get_runtime :: "'st demo_library \<Rightarrow> 'st demo \<Rightarrow> unit result \<times> 'st demo" where
  "get_runtime L s = (runtime_get_pinned (make_runtime_wrapper (lib_runtime L)), s)"

definition app_call ::
  "application_wrapper \<Rightarrow> (ApplicationName \<Rightarrow> vs_call) \<Rightarrow> 'st demo \<Rightarrow> unit result \<times> 'st demo" where
  "app_call w c s =
     and_then (application_get_pinned w, s) (\<lambda>app s. (Ok (), s\<lparr>calls := calls s @ [Plain (c app)]\<rparr>))"

definition cxx_call ::
  "(('st, demo_effect) library \<Rightarrow> ('st, demo_effect) library option) \<Rightarrow> 'st demo \<Rightarrow>
     unit result \<times> 'st demo" where
  "cxx_call f s = (Ok (), case f (calls s) of
       None \<Rightarrow> s\<lparr>undefined_behaviour := True\<rparr>
     | Some c \<Rightarrow> s\<lparr>calls := c\<rparr>)"

definition start_app :: "'st demo_library \<Rightarrow> ApplicationName \<Rightarrow> 'st demo \<Rightarrow> unit result \<times> 'st demo" where
  "start_app L APP_NAME s =
     and_then (get_runtime L s) (\<lambda>_ s.
       let app = (if lib_creates L (calls s) APP_NAME then Some APP_NAME else None);
           s = s\<lparr>calls := calls s @ [Plain (CreateApplication APP_NAME None)]\<rparr>
       in case make_application_wrapper app of
            None \<Rightarrow> (Panic, s)
          | Some app_wrapper \<Rightarrow>
              and_then (app_call app_wrapper Init s) (\<lambda>_ s. app_call app_wrapper StartApplication s))"

text \<open>Each program starts its own.\<close>

definition publisher_start :: "'st demo_library \<Rightarrow> 'st demo \<Rightarrow> unit result \<times> 'st demo" where
  "publisher_start L s = start_app L ''Publisher'' s"

definition subscriber_start :: "'st demo_library \<Rightarrow> 'st demo \<Rightarrow> unit result \<times> 'st demo" where
  "subscriber_start L s = start_app L ''Subscriber'' s"

definition client_start :: "'st demo_library \<Rightarrow> 'st demo \<Rightarrow> unit result \<times> 'st demo" where
  "client_start L s = start_app L ''Hello'' s"

definition service_start :: "'st demo_library \<Rightarrow> 'st demo \<Rightarrow> unit result \<times> 'st demo" where
  "service_start L s = start_app L ''World'' s"

definition find_app ::
  "'st demo_library \<Rightarrow> ApplicationName \<Rightarrow> 'st demo \<Rightarrow> application_wrapper result \<times> 'st demo" where
  "find_app L APP_NAME s =
     and_then (get_runtime L s) (\<lambda>_ s.
       case make_application_wrapper (if lib_exists L (calls s) APP_NAME then Some APP_NAME else None) of
         None \<Rightarrow> (Panic, s)
       | Some app_wrapper \<Rightarrow> (Ok app_wrapper, s))"

text \<open>\<open>loop\<close>, for a number of rounds.\<close>

fun rounds :: "nat \<Rightarrow> ('s \<Rightarrow> unit result \<times> 's) \<Rightarrow> 's \<Rightarrow> unit result \<times> 's" where
  "rounds 0 body s = (Ok (), s)"
| "rounds (Suc n) body s = and_then (body s) (\<lambda>_ s. rounds n body s)"

definition SAMPLE_SERVICE_ID :: ServiceId where [simp]: "SAMPLE_SERVICE_ID = 0x1234"
definition SAMPLE_INSTANCE_ID :: InstanceId where [simp]: "SAMPLE_INSTANCE_ID = 1"
definition SAMPLE_EVENTGROUP_ID :: EventId where [simp]: "SAMPLE_EVENTGROUP_ID = 0x4465"
definition SAMPLE_EVENT_ID :: EventId where [simp]: "SAMPLE_EVENT_ID = 0x4465"
definition SAMPLE_METHOD_ID :: MethodId where [simp]: "SAMPLE_METHOD_ID = 0x0421"

subsection \<open>Publisher and subscriber\<close>

definition publisher_payload :: "u8 list" where
  "publisher_payload = map (\<lambda>i. of_nat (i mod 256)) [0..<10]"

definition publisher_round ::
  "'st demo_library \<Rightarrow> application_wrapper \<Rightarrow> 'st demo \<Rightarrow> unit result \<times> 'st demo" where
  "publisher_round L app_wrapper s =
     and_then (get_runtime L s) (\<lambda>_ s.
       app_call app_wrapper (\<lambda>app. Notify app SAMPLE_SERVICE_ID SAMPLE_INSTANCE_ID SAMPLE_EVENT_ID
         (set_data_safe publisher_payload) True) s)"

definition publisher_main :: "'st demo_library \<Rightarrow> nat \<Rightarrow> 'st demo \<Rightarrow> unit result \<times> 'st demo" where
  "publisher_main L n s =
     and_then (find_app L ''Publisher'' s) (\<lambda>app_wrapper s.
     and_then (app_call app_wrapper (\<lambda>app. OfferService app SAMPLE_SERVICE_ID SAMPLE_INSTANCE_ID
       (lib_ANY_MAJOR L) (lib_ANY_MINOR L)) s) (\<lambda>_ s.
     and_then (cxx_call (wrapper_offer_single_event app_wrapper SAMPLE_SERVICE_ID SAMPLE_INSTANCE_ID
       SAMPLE_EVENT_ID SAMPLE_EVENTGROUP_ID) s) (\<lambda>_ s.
     rounds n (publisher_round L app_wrapper) s)))"

definition subscription_status_listener ::
  "ServiceId \<Rightarrow> InstanceId \<Rightarrow> EventId \<Rightarrow> EventId \<Rightarrow> u16 \<Rightarrow> demo_effect" where
  "subscription_status_listener service inst eventgroup event status =
     Prints_Status service inst eventgroup inst status"

definition subscriber_msg_handler :: "vmessage \<Rightarrow> demo_effect" where
  "subscriber_msg_handler msg =
     (case get_message_payload msg of
        None \<Rightarrow> Aborts
      | Some payload_wrapper \<Rightarrow> Prints_Payload (get_data_safe payload_wrapper))"

definition subscriber_main :: "'st demo_library \<Rightarrow> 'st demo \<Rightarrow> unit result \<times> 'st demo" where
  "subscriber_main L s =
     and_then (find_app L ''Subscriber'' s) (\<lambda>app_wrapper s.
     and_then (application_get_pinned app_wrapper, s) (\<lambda>_ s.
     and_then (app_call app_wrapper (\<lambda>app. RequestService app SAMPLE_SERVICE_ID SAMPLE_INSTANCE_ID
       (lib_ANY_MAJOR L) (lib_ANY_MINOR L)) s) (\<lambda>_ s.
     and_then (cxx_call (wrapper_request_single_event app_wrapper SAMPLE_SERVICE_ID SAMPLE_INSTANCE_ID
       SAMPLE_EVENT_ID SAMPLE_EVENTGROUP_ID) s) (\<lambda>_ s.
     and_then (cxx_call (register_subscription_status_handler_fn_ptr_safe app_wrapper (lib_ANY_SERVICE L)
       (lib_ANY_INSTANCE L) (lib_ANY_EVENTGROUP L) (lib_ANY_EVENT L) (SubscriptionStatusHandlerFnPtr subscription_status_listener) True) s) (\<lambda>_ s.
     and_then (app_call app_wrapper (\<lambda>app. Subscribe app SAMPLE_SERVICE_ID SAMPLE_INSTANCE_ID
       SAMPLE_EVENTGROUP_ID (lib_ANY_MAJOR L) SAMPLE_EVENT_ID) s) (\<lambda>_ s.
     cxx_call (wrapper_register_message_handler app_wrapper SAMPLE_SERVICE_ID (lib_ANY_INSTANCE L) SAMPLE_EVENT_ID
       (MessageHandlerFnPtr subscriber_msg_handler)) s))))))"

subsection \<open>Client and service\<close>

definition client_payload :: "u8 list" where
  "client_payload = map of_char ''Hello, vsomeip!''"

definition client_request :: "'st demo_library \<Rightarrow> vmessage" where
  "client_request L = set_message_payload (set_data_safe client_payload)
     ((lib_request L)\<lparr>v_service := SAMPLE_SERVICE_ID, v_instance := SAMPLE_INSTANCE_ID,
        v_method := SAMPLE_METHOD_ID\<rparr>)"

definition client_round ::
  "'st demo_library \<Rightarrow> application_wrapper \<Rightarrow> 'st demo \<Rightarrow> unit result \<times> 'st demo" where
  "client_round L app_wrapper s =
     and_then (get_runtime L s) (\<lambda>_ s.
       app_call app_wrapper (\<lambda>app. SendMessage app (client_request L)) s)"

definition client_main :: "'st demo_library \<Rightarrow> nat \<Rightarrow> 'st demo \<Rightarrow> unit result \<times> 'st demo" where
  "client_main L n s =
     and_then (find_app L ''Hello'' s) (\<lambda>app_wrapper s.
     and_then (app_call app_wrapper (\<lambda>app. RequestService app SAMPLE_SERVICE_ID SAMPLE_INSTANCE_ID
       (lib_ANY_MAJOR L) (lib_ANY_MINOR L)) s) (\<lambda>_ s.
     rounds n (client_round L app_wrapper) s))"

definition from_utf8 :: "u8 list \<Rightarrow> string option" where
  "from_utf8 bytes = (let s = map (\<lambda>b. char_of (unat b)) bytes in if utf8_valid s then Some s else None)"

definition service_msg_handler :: "vmessage \<Rightarrow> demo_effect" where
  "service_msg_handler msg =
     (case get_message_payload msg of
        None \<Rightarrow> Aborts
      | Some payload_wrapper \<Rightarrow>
          let payload = get_data_safe payload_wrapper in Prints_Text payload (from_utf8 payload))"

definition service_main :: "'st demo_library \<Rightarrow> 'st demo \<Rightarrow> unit result \<times> 'st demo" where
  "service_main L s =
     and_then (find_app L ''World'' s) (\<lambda>app_wrapper s.
     and_then (app_call app_wrapper (\<lambda>app. OfferService app SAMPLE_SERVICE_ID SAMPLE_INSTANCE_ID
       (lib_ANY_MAJOR L) (lib_ANY_MINOR L)) s) (\<lambda>_ s.
     cxx_call (wrapper_register_message_handler app_wrapper SAMPLE_SERVICE_ID (lib_ANY_INSTANCE L) SAMPLE_METHOD_ID
       (MessageHandlerFnPtr service_msg_handler)) s))"

subsection \<open>What they call\<close>

lemma found [simp]:
  "lib_runtime L = Some () \<Longrightarrow> find_app L name s =
     (if lib_exists L (calls s) name then (Ok (ApplicationWrapper (Some name)), s) else (Panic, s))"
  by (simp add: find_app_def get_runtime_def runtime_get_pinned_def make_runtime_wrapper_def
      make_application_wrapper_def make_application_wrapper_possible_def)

lemma app_call_made [simp]:
  "app_call (ApplicationWrapper (Some app)) c s = (Ok (), s\<lparr>calls := calls s @ [Plain (c app)]\<rparr>)"
  by (simp add: app_call_def application_get_pinned_def)

lemma rounds_of_calls:
  assumes "\<And>s. body s = (Ok (), s\<lparr>calls := calls s @ [c]\<rparr>)"
  shows "rounds n body s = (Ok (), s\<lparr>calls := calls s @ replicate n c\<rparr>)"
  by (induction n arbitrary: s) (simp_all add: assms)

lemma runtime_there [simp]: "lib_runtime L = Some () \<Longrightarrow> get_runtime L s = (Ok (), s)"
  by (simp add: get_runtime_def runtime_get_pinned_def make_runtime_wrapper_def)

text \<open>A program whose application is not there by the time it looks for it panics; nothing else
  stops it, and it never follows a null pointer.\<close>

lemma publisher_main_run:
  assumes "lib_runtime L = Some ()"
  shows "publisher_main L n s =
    (if lib_exists L (calls s) ''Publisher''
     then (Ok (), s\<lparr>calls := calls s @
       [Plain (OfferService ''Publisher'' 0x1234 1 (lib_ANY_MAJOR L) (lib_ANY_MINOR L)),
        offer_event ''Publisher'' 0x1234 1 0x4465 {0x4465}] @
       replicate n (Plain (Notify ''Publisher'' 0x1234 1 0x4465 (set_data_safe publisher_payload) True))\<rparr>)
     else (Panic, s))"
proof -
  have "publisher_round L (ApplicationWrapper (Some ''Publisher'')) s = (Ok (), s\<lparr>calls := calls s @
      [Plain (Notify ''Publisher'' 0x1234 1 0x4465 (set_data_safe publisher_payload) True)]\<rparr>)" for s
    using assms by (simp add: publisher_round_def)
  from rounds_of_calls [OF this, of n] show ?thesis
    using assms by (simp add: publisher_main_def cxx_call_def safe_wrappers cxx_functions)
qed

lemma subscriber_main_run:
  assumes "lib_runtime L = Some ()"
  shows "subscriber_main L s =
    (if lib_exists L (calls s) ''Subscriber''
     then (Ok (), s\<lparr>calls := calls s @
       [Plain (RequestService ''Subscriber'' 0x1234 1 (lib_ANY_MAJOR L) (lib_ANY_MINOR L)),
        request_event ''Subscriber'' 0x1234 1 0x4465 {0x4465},
        register_subscription_status_handler ''Subscriber'' (lib_ANY_SERVICE L) (lib_ANY_INSTANCE L)
          (lib_ANY_EVENTGROUP L) (lib_ANY_EVENT L)
          subscription_status_listener True,
        Plain (Subscribe ''Subscriber'' 0x1234 1 0x4465 (lib_ANY_MAJOR L) 0x4465),
        register_message_handler ''Subscriber'' 0x1234 (lib_ANY_INSTANCE L) 0x4465 subscriber_msg_handler]\<rparr>)
     else (Panic, s))"
  using assms
  by (simp add: subscriber_main_def cxx_call_def safe_wrappers cxx_functions application_get_pinned_def)

lemma client_main_run:
  assumes "lib_runtime L = Some ()"
  shows "client_main L n s =
    (if lib_exists L (calls s) ''Hello''
     then (Ok (), s\<lparr>calls := calls s @
       [Plain (RequestService ''Hello'' 0x1234 1 (lib_ANY_MAJOR L) (lib_ANY_MINOR L))] @
       replicate n (Plain (SendMessage ''Hello'' (client_request L)))\<rparr>)
     else (Panic, s))"
proof -
  have "client_round L (ApplicationWrapper (Some ''Hello'')) s =
      (Ok (), s\<lparr>calls := calls s @ [Plain (SendMessage ''Hello'' (client_request L))]\<rparr>)" for s
    using assms by (simp add: client_round_def)
  from rounds_of_calls [OF this, of n] show ?thesis
    using assms by (simp add: client_main_def)
qed

lemma service_main_run:
  assumes "lib_runtime L = Some ()"
  shows "service_main L s =
    (if lib_exists L (calls s) ''World''
     then (Ok (), s\<lparr>calls := calls s @
       [Plain (OfferService ''World'' 0x1234 1 (lib_ANY_MAJOR L) (lib_ANY_MINOR L)),
        register_message_handler ''World'' 0x1234 (lib_ANY_INSTANCE L) 0x0421 service_msg_handler]\<rparr>)
     else (Panic, s))"
  using assms by (simp add: service_main_def cxx_call_def safe_wrappers cxx_functions)

subsection \<open>The programs fit together\<close>

lemma client_text: "from_utf8 (get_data_safe (set_data_safe client_payload)) = Some ''Hello, vsomeip!''"
  by code_simp

text \<open>What the client sends is a message for the service and method the service's handler is
  registered for, and that handler prints the client's text.\<close>

theorem service_understands_client:
  assumes "lib_runtime L = Some ()"
    and "client_main L n s = (Ok (), s')" "Plain (SendMessage app m) \<in> set (calls s') - set (calls s)"
    and "service_main L t = (Ok (), t')"
  shows "\<exists>handler. register_message_handler ''World'' (v_service m) (lib_ANY_INSTANCE L) (v_method m) handler \<in> set (calls t') \<and>
    handler m = Prints_Text client_payload (Some ''Hello, vsomeip!'')"
proof -
  have m: "m = client_request L"
    using assms(2,3) by (auto simp: client_main_run [OF assms(1)] split: if_splits)
  have "get_data_safe (set_data_safe client_payload) = client_payload"
    by (rule get_data_set_data) (simp add: client_payload_def)
  with client_text have "service_msg_handler m = Prints_Text client_payload (Some ''Hello, vsomeip!'')"
    by (simp add: m service_msg_handler_def client_request_def get_message_payload_def
        set_message_payload_def Let_def)
  moreover have "register_message_handler ''World'' (v_service m) (lib_ANY_INSTANCE L) (v_method m) service_msg_handler
      \<in> set (calls t')"
    using assms(4) by (auto simp: service_main_run [OF assms(1)] m client_request_def
        set_message_payload_def split: if_splits)
  ultimately show ?thesis by blast
qed

text \<open>What the publisher notifies is an event it has offered in one group, which the subscriber has
  requested and subscribed to; a message with its payload makes the subscriber's handler print
  that payload.\<close>

theorem subscriber_fits_publisher:
  assumes "lib_runtime L = Some ()"
    and "publisher_main L n s = (Ok (), s')" "Plain (Notify app sv ins ev pl force) \<in> set (calls s') - set (calls s)"
    and "subscriber_main L t = (Ok (), t')"
  shows "\<exists>gr handler. offer_event app sv ins ev {gr} \<in> set (calls s') \<and>
    request_event ''Subscriber'' sv ins ev {gr} \<in> set (calls t') \<and>
    Plain (Subscribe ''Subscriber'' sv ins gr (lib_ANY_MAJOR L) ev) \<in> set (calls t') \<and>
    register_message_handler ''Subscriber'' sv (lib_ANY_INSTANCE L) ev handler \<in> set (calls t') \<and>
    (\<forall>m. handler (m\<lparr>v_payload := Some pl\<rparr>) = Prints_Payload [0, 1, 2, 3, 4, 5, 6, 7, 8, 9])"
proof -
  have n: "app = ''Publisher''" "sv = 0x1234" "ins = 1" "ev = 0x4465" "pl = set_data_safe publisher_payload"
    using assms(2,3) by (auto simp: publisher_main_run [OF assms(1)] split: if_splits)
  have "get_data_safe pl = [0, 1, 2, 3, 4, 5, 6, 7, 8, 9]"
    unfolding n by code_simp
  then have "subscriber_msg_handler (m\<lparr>v_payload := Some pl\<rparr>) =
      Prints_Payload [0, 1, 2, 3, 4, 5, 6, 7, 8, 9]" for m
    by (simp add: subscriber_msg_handler_def get_message_payload_def)
  then show ?thesis
    using assms(2,4) unfolding n
    by (intro exI [of _ "0x4465"] exI [of _ subscriber_msg_handler])
      (auto simp: publisher_main_run [OF assms(1)] subscriber_main_run [OF assms(1)] split: if_splits)
qed

text \<open>The subscriber prints the instance where it says it prints the event.\<close>

lemma status_listener_prints_instance_as_event:
  "subscription_status_listener service inst eventgroup e status =
     Prints_Status service inst eventgroup event status \<longleftrightarrow> event = inst"
  by (auto simp: subscription_status_listener_def)

text \<open>A thread that starts its application makes three calls, in this order.\<close>

lemma start_app_run:
  assumes "lib_runtime L = Some ()"
  shows "start_app L name s =
    (if lib_creates L (calls s) name
     then (Ok (), s\<lparr>calls := calls s @ map Plain [CreateApplication name None, Init name, StartApplication name]\<rparr>)
     else (Panic, s\<lparr>calls := calls s @ [Plain (CreateApplication name None)]\<rparr>))"
  using assms by (simp add: start_app_def make_application_wrapper_def make_application_wrapper_possible_def Let_def)

end
