(* ===== verification/Hello_Example.thy ===== *)
theory Hello_Example
  imports Process_Properties Build_Script
begin

text \<open>
  The programs \<^verbatim>\<open>hello_service.rs\<close> and \<^verbatim>\<open>hello_client.rs\<close> under \<^verbatim>\<open>up-transport-vsomeip/examples\<close>.

  They talk through the communication layer of up-rust, which is outside the repository: what the
  code uses of it are the fields of \<open>communication_api\<close>, an argument of the definitions.  A payload
  is bytes in a format; the generated protobuf types \<open>HelloRequest\<close> and \<open>HelloResponse\<close> have one
  field, a name and a message.  The client's loop does not end: \<open>hello_client_rounds\<close> runs it for a
  number of rounds and gives the responses printed.
\<close>

record 'p communication_api =
  payload_wrapped_in_any :: "u8 list \<Rightarrow> 'p"
  payload_bytes :: "'p \<Rightarrow> u8 list"
  extract_hello_request :: "'p \<Rightarrow> string option"
  extract_hello_response :: "'p \<Rightarrow> string option"
  payload_from_hello_request :: "string \<Rightarrow> 'p option"
  payload_from_hello_response :: "string \<Rightarrow> 'p option"

definition HELLO_SERVICE_ID :: u16 where [simp]: "HELLO_SERVICE_ID = 0x6000"
definition HELLO_INSTANCE_ID :: u32 where [simp]: "HELLO_INSTANCE_ID = 0x0001"
definition HELLO_METHOD_ID :: u16 where [simp]: "HELLO_METHOD_ID = 0x7FFF"
definition HELLO_SERVICE_MAJOR :: u8 where [simp]: "HELLO_SERVICE_MAJOR = 1"
definition HELLO_SERVICE_AUTHORITY :: AuthorityName where [simp]: "HELLO_SERVICE_AUTHORITY = ''linux''"
definition CLIENT_AUTHORITY :: AuthorityName where [simp]: "CLIENT_AUTHORITY = ''me_authority''"
definition CLIENT_UE_ID :: u32 where [simp]: "CLIENT_UE_ID = 0x5678"
definition CLIENT_UE_VERSION_MAJOR :: u8 where [simp]: "CLIENT_UE_VERSION_MAJOR = 1"
definition CLIENT_RESOURCE_ID :: u16 where [simp]: "CLIENT_RESOURCE_ID = 0"

definition HELLO_SERVICE_UE_ID :: u32 where
  "HELLO_SERVICE_UE_ID = push_bit 16 HELLO_INSTANCE_ID OR ucast HELLO_SERVICE_ID"

subsection \<open>The service's request handler\<close>

text \<open>The error of \<open>handle_request\<close> is \<open>RpcError\<close> with the status below.\<close>

definition handle_request ::
  "'p communication_api \<Rightarrow> u16 \<Rightarrow> uattributes \<Rightarrow> 'p option \<Rightarrow> 'p option result" where
  "handle_request C requested_resource uattrs request_payload =
     (case request_payload of
        None \<Rightarrow> Panic
      | Some p \<Rightarrow>
          (case extract_hello_request C (payload_wrapped_in_any C (payload_bytes C p)) of
             None \<Rightarrow> Err INTERNAL
           | Some the_name \<Rightarrow>
               (case payload_from_hello_response C (''The response to the request: '' @ the_name) of
                  None \<Rightarrow> Panic
                | Some r \<Rightarrow> Ok (Some r))))"

subsection \<open>Making the transports\<close>

definition hello_config :: "string \<Rightarrow> string" where
  "hello_config crate_dir = path_join crate_dir ''vsomeip_configs/hello_service.json''"

text \<open>\<open>canonicalize\<close> is the file system's; each \<open>unwrap\<close> panics on an error.\<close>

definition hello_transport ::
  "('bm, 'v) env \<Rightarrow> (string \<Rightarrow> string option) \<Rightarrow> string \<Rightarrow> storage_ref \<Rightarrow> AuthorityName \<Rightarrow> u32 \<Rightarrow> u8 \<Rightarrow>
     u16 \<Rightarrow> AuthorityName \<Rightarrow> statics \<times> vs_call list \<Rightarrow> 'bm world result \<times> statics \<times> vs_call list" where
  "hello_transport E canonicalize crate_dir me authority the_ue_id version res remote s =
     (let vsomeip_config = canonicalize (hello_config crate_dir) in
      case u_try_from_parts (e_up E) authority the_ue_id version res of
        None \<Rightarrow> (Panic, s)
      | Some local_uuri \<Rightarrow>
          (case vsomeip_config of
             None \<Rightarrow> (Panic, s)
           | Some path \<Rightarrow> expect_ok (new_with_config E me local_uuri remote path None s)))"

definition hello_service_transport ::
  "('bm, 'v) env \<Rightarrow> (string \<Rightarrow> string option) \<Rightarrow> string \<Rightarrow> storage_ref \<Rightarrow> statics \<times> vs_call list \<Rightarrow>
     'bm world result \<times> statics \<times> vs_call list" where
  "hello_service_transport E canonicalize crate_dir me s =
     hello_transport E canonicalize crate_dir me HELLO_SERVICE_AUTHORITY HELLO_SERVICE_UE_ID
       HELLO_SERVICE_MAJOR 0 CLIENT_AUTHORITY s"

definition hello_client_transport ::
  "('bm, 'v) env \<Rightarrow> (string \<Rightarrow> string option) \<Rightarrow> string \<Rightarrow> storage_ref \<Rightarrow> statics \<times> vs_call list \<Rightarrow>
     'bm world result \<times> statics \<times> vs_call list" where
  "hello_client_transport E canonicalize crate_dir me s =
     hello_transport E canonicalize crate_dir me CLIENT_AUTHORITY CLIENT_UE_ID
       CLIENT_UE_VERSION_MAJOR CLIENT_RESOURCE_ID HELLO_SERVICE_AUTHORITY s"

subsection \<open>The client's loop\<close>

fun decimal :: "nat \<Rightarrow> string" where
  "decimal n = (if n < 10 then [char_of (48 + n)] else decimal (n div 10) @ [char_of (48 + n mod 10)])"

declare decimal.simps [simp del]

text \<open>The counter is an \<open>i32\<close>.\<close>

definition i32_text :: "32 word \<Rightarrow> string" where
  "i32_text i = (if sint i < 0 then ''-'' @ decimal (nat (- sint i)) else decimal (nat (sint i)))"

definition i32_increment :: "bool \<Rightarrow> 32 word \<Rightarrow> 32 word result" where
  "i32_increment overflow_checks i =
     (if overflow_checks \<and> sint i = 2 ^ 31 - 1 then Panic else Ok (i + 1))"

text \<open>One round.  The call goes through \<open>invoke\<close>, the communication layer's \<open>invoke_method\<close>, which may
  change the state; on an error the client panics, as it does on a response without payload or
  of another type.\<close>

definition hello_client_round ::
  "'p communication_api \<Rightarrow> bool \<Rightarrow> (uuri \<Rightarrow> 'p option \<Rightarrow> 's \<Rightarrow> 'p option result \<times> 's) \<Rightarrow> uuri \<Rightarrow> 32 word \<Rightarrow> 's \<Rightarrow>
     (string \<times> 32 word) result \<times> 's" where
  "hello_client_round C overflow_checks invoke sink i s =
     (let hello_request = ''me_client@i='' @ i32_text i in
      and_then (i32_increment overflow_checks i, s) (\<lambda>i s.
        case payload_from_hello_request C hello_request of
          None \<Rightarrow> (Panic, s)
        | Some p \<Rightarrow>
            and_then (expect_ok (invoke sink (Some p) s)) (\<lambda>response s.
              case response of
                None \<Rightarrow> (Panic, s)
              | Some r \<Rightarrow>
                  (case extract_hello_response C (payload_wrapped_in_any C (payload_bytes C r)) of
                     None \<Rightarrow> (Panic, s)
                   | Some hello_response \<Rightarrow> (Ok (hello_response, i), s)))))"

fun hello_client_rounds ::
  "'p communication_api \<Rightarrow> bool \<Rightarrow> (uuri \<Rightarrow> 'p option \<Rightarrow> 's \<Rightarrow> 'p option result \<times> 's) \<Rightarrow> uuri \<Rightarrow> nat \<Rightarrow> 32 word \<Rightarrow>
     's \<Rightarrow> string list result \<times> 's" where
  "hello_client_rounds C overflow_checks invoke sink 0 i s = (Ok [], s)"
| "hello_client_rounds C overflow_checks invoke sink (Suc n) i s =
     and_then (hello_client_round C overflow_checks invoke sink i s) (\<lambda>(hello_response, i) s.
     and_then (hello_client_rounds C overflow_checks invoke sink n i s) (\<lambda>responses s.
       (Ok (hello_response # responses), s)))"

text \<open>The client after it has made its transport and its end of the communication layer.\<close>

definition hello_client_calls ::
  "up_rust_api \<Rightarrow> 'p communication_api \<Rightarrow> bool \<Rightarrow> (uuri \<Rightarrow> 'p option \<Rightarrow> 's \<Rightarrow> 'p option result \<times> 's) \<Rightarrow> nat \<Rightarrow>
     's \<Rightarrow> string list result \<times> 's" where
  "hello_client_calls U C overflow_checks invoke n s =
     (case u_try_from_parts U HELLO_SERVICE_AUTHORITY HELLO_SERVICE_UE_ID HELLO_SERVICE_MAJOR HELLO_METHOD_ID of
        None \<Rightarrow> (Panic, s)
      | Some sink \<Rightarrow> hello_client_rounds C overflow_checks invoke sink n 0 s)"

subsection \<open>The programs\<close>

text \<open>\<open>register_endpoint\<close> and \<open>new_client\<close> are the communication layer's: they register listeners with the
  transport.  What is returned is the transport with it, if one was made; afterwards the service's
  thread is parked and the client runs its loop.\<close>

definition hello_service_main ::
  "('bm, 'v) env \<Rightarrow> 'p communication_api \<Rightarrow> (string \<Rightarrow> string option) \<Rightarrow> string \<Rightarrow>
     (u16 \<Rightarrow> (u16 \<Rightarrow> uattributes \<Rightarrow> 'p option \<Rightarrow> 'p option result) \<Rightarrow> 'bm world \<Rightarrow> unit result \<times> 'bm world) \<Rightarrow>
     storage_ref \<Rightarrow> statics \<times> vs_call list \<Rightarrow> unit result \<times> 'bm world option" where
  "hello_service_main E C canonicalize crate_dir register_endpoint me s =
     (case hello_service_transport E canonicalize crate_dir me s of
        (Ok service, _) \<Rightarrow>
          (let (r, service) = expect_ok (register_endpoint HELLO_METHOD_ID (handle_request C) service)
           in (r, Some service))
      | _ \<Rightarrow> (Panic, None))"

definition hello_client_main ::
  "('bm, 'v) env \<Rightarrow> 'p communication_api \<Rightarrow> (string \<Rightarrow> string option) \<Rightarrow> string \<Rightarrow>
     ('bm world \<Rightarrow> unit result \<times> 'bm world) \<Rightarrow>
     (uuri \<Rightarrow> 'p option \<Rightarrow> 'bm world \<Rightarrow> 'p option result \<times> 'bm world) \<Rightarrow> nat \<Rightarrow>
     storage_ref \<Rightarrow> statics \<times> vs_call list \<Rightarrow> string list result \<times> 'bm world option" where
  "hello_client_main E C canonicalize crate_dir new_client invoke n me s =
     (case hello_client_transport E canonicalize crate_dir me s of
        (Ok client, _) \<Rightarrow>
          (let (r, client) = and_then (expect_ok (new_client client)) (\<lambda>_ client.
             hello_client_calls (e_up E) C (e_overflow_checks E) invoke n client)
           in (r, Some client))
      | _ \<Rightarrow> (Panic, None))"

subsection \<open>The answer to a request\<close>

text \<open>What is documented of the messages: a request or response can be made a payload, whose bytes, read
  as a protobuf in an \<open>Any\<close>, give it back.\<close>

locale hello_messages =
  fixes C :: "'p communication_api"
  assumes request_made: "\<exists>p. payload_from_hello_request C n = Some p"
    and response_made: "\<exists>p. payload_from_hello_response C n = Some p"
    and request_read: "payload_from_hello_request C n = Some p \<Longrightarrow>
      extract_hello_request C (payload_wrapped_in_any C (payload_bytes C p)) = Some n"
    and response_read: "payload_from_hello_response C n = Some p \<Longrightarrow>
      extract_hello_response C (payload_wrapped_in_any C (payload_bytes C p)) = Some n"
    and bytes_kept: "payload_bytes C (payload_wrapped_in_any C b) = b"
begin

lemma handler_answers:
  assumes "payload_from_hello_request C n = Some p" "payload_bytes C q = payload_bytes C p"
  shows "\<exists>r. handle_request C m a (Some q) = Ok (Some r) \<and>
    extract_hello_response C (payload_wrapped_in_any C (payload_bytes C r)) =
      Some (''The response to the request: '' @ n)"
proof -
  obtain r where "payload_from_hello_response C (''The response to the request: '' @ n) = Some r"
    using response_made by blast
  with assms request_read response_read show ?thesis by (simp add: handle_request_def)
qed

end

text \<open>An instance: a payload is its bytes, a message the bytes of its text.\<close>

definition plain_communication :: "u8 list communication_api" where
  "plain_communication =
     \<lparr>payload_wrapped_in_any = (\<lambda>b. b), payload_bytes = (\<lambda>b. b),
      extract_hello_request = (\<lambda>b. Some (map (\<lambda>x. char_of (unat x)) b)),
      extract_hello_response = (\<lambda>b. Some (map (\<lambda>x. char_of (unat x)) b)),
      payload_from_hello_request = (\<lambda>n. Some (map of_char n)),
      payload_from_hello_response = (\<lambda>n. Some (map of_char n))\<rparr>"

lemma char_byte: "char_of (unat (of_char c :: u8)) = c"
proof -
  have "(of_char c :: u8) = of_nat (of_char c)" by (simp only: of_nat_of_char)
  then have "unat (of_char c :: u8) = of_char c"
    using nat_of_char_less_256 [of c] by (simp only: unat_of_nat) (simp add: take_bit_nat_eq_self)
  then show ?thesis by simp
qed

interpretation plain: hello_messages plain_communication
  by unfold_locales (auto simp: plain_communication_def char_byte comp_def)

text \<open>The name of the service the client calls and the service it takes requests for are the same for
  vsomeip.\<close>

lemma hello_service_at_vsomeip:
  "split_u32_to_u16 HELLO_SERVICE_UE_ID = (1, 0x6000)"
  "ue_id sink = HELLO_SERVICE_UE_ID \<Longrightarrow> resource_id sink = 0x7FFF \<Longrightarrow>
     v_service (request_message V sink) = 0x6000 \<and> v_method (request_message V sink) = 0x7FFF"
  by (simp_all add: split_u32_to_u16_def HELLO_SERVICE_UE_ID_def Let_def request_message_def)

text \<open>Both programs read the same configuration, so both run the same application: the client does
  not use \<^verbatim>\<open>hello_client.json\<close>, which is there for it.\<close>

lemma new_with_config_Ok:
  assumes "new_with_config E me u remote path rc s = (Ok w, s')"
  shows "extract_application (e_json E) path = Ok (vsomeip_application_config (storage w))"
proof -
  obtain c where c: "extract_application (e_json E) path = Ok c"
    "new_internal E me c u remote (Some path) rc s = (Ok w, s')"
    using assms by (auto simp: new_with_config_def split: if_splits outcome.splits)
  obtain g h g' h' where "s = (g, h)" "s' = (g', h')" by (metis prod.exhaust)
  with new_internal_Ok(2) [of E me c u remote "Some path" rc g h w g' h'] c
  show ?thesis by (simp add: addressed_def)
qed

theorem hello_programs_run_the_same_application:
  assumes "hello_service_transport E canonicalize crate_dir me s = (Ok w, s1)"
    and "hello_client_transport E canonicalize crate_dir me' s' = (Ok w', s2)"
  shows "application_of w' = application_of w"
proof -
  have made: "\<exists>path. canonicalize (hello_config crate_dir) = Some path \<and>
      extract_application (e_json E) path = Ok (vsomeip_application_config (storage w))"
    if "hello_transport E canonicalize crate_dir me a i v r remote s = (Ok w, s1)" for me a i v r remote s w s1
    using that new_with_config_Ok [of E me _ remote _ None s w s1]
    by (auto simp: hello_transport_def Let_def split: option.splits elim!: expect_ok.elims)
  from assms [unfolded hello_service_transport_def hello_client_transport_def, THEN made]
  show ?thesis by (auto simp: application_of_def)
qed

end
