(* ===== verification/Spec2Isabelle.thy ===== *)
theory Spec2Isabelle
  imports Remote_Calls Dispatch_Steps Point_To_Point Glue_Safety Registry_Locks Build_Properties Example_Programs Hello_Example
begin

text \<open>
  A verification development for the vsomeip transport of uProtocol (repository
  up-client-vsomeip-rust).

  \<^bold>\<open>The program.\<close>  A uEntity holds a transport (\<^verbatim>\<open>up-transport-vsomeip/src/lib.rs\<close>,
  \<^verbatim>\<open>transport.rs\<close>) and sends messages and registers listeners with it.  A method of the
  transport takes a handler function out of a process-wide pool when it needs one, sends a
  command to the transport's engine (\<^verbatim>\<open>transport_engine.rs\<close>), a thread of its own, and waits
  up to three seconds for the answer.  The engine converts messages
  (\<^verbatim>\<open>message_conversions.rs\<close>) and calls the C++ library vsomeip.  When a SOME/IP message
  arrives, vsomeip calls one of the generated \<open>extern "C"\<close> functions
  (\<^verbatim>\<open>vsomeip-proc-macro/src/lib.rs\<close>), which finds the transport in a process-wide table,
  converts the message and calls the listener filed under the function.

  \<^bold>\<open>The theories\<close>, each importing those it builds on:

  \<^item> \<open>Prelude\<close>: words for Rust's integers, the type \<open>outcome\<close> (\<open>Ok\<close>, \<open>Err\<close>, \<open>Panic\<close>) of every
    fallible function, \<open>and_then\<close> for the question mark operator, lemmas on maps.
  \<^item> \<open>Up_Types\<close>: the data of up-rust, the record \<open>up_rust_api\<close> of its functions, what is
    documented of them (locales \<open>up_rust_uri\<close>, \<open>up_rust_builder\<close>), an instance.
  \<^item> \<open>Utils\<close>, \<open>Determine_Type\<close>, \<open>Vsomeip_Config\<close>: the files of the same names.
  \<^item> \<open>Offered_Requested\<close>, \<open>Rpc_Correlation\<close>, \<open>Extern_Fns\<close>, \<open>Message_Handler_Registry\<close>: the
    registries under \<^verbatim>\<open>storage/\<close> and the pools the macros generate.  Every registry's trait
    is a locale (\<open>mark_registry\<close>, \<open>correlation_table\<close>, \<open>rpc_correlation_contract\<close>, \<open>id_pool\<close>,
    \<open>handler_registry_contract\<close> in \<open>Handler_Contract\<close>), interpreted on the registry and again
    on the storage that delegates to it (\<open>Storage\<close>, for \<^verbatim>\<open>storage.rs\<close>).  The bimap crate is a
    record of operations with the locale \<open>bimap_spec\<close> of its documented laws.
  \<^item> \<open>Vsomeip_Api\<close>: vsomeip as the list \<open>hist\<close> of the calls made to it and a record of
    functions from that list to its answers; the payload wrappers of
    \<^verbatim>\<open>vsomeip-sys/src/glue_additions.rs\<close>.
  \<^item> \<open>Data_Properties\<close>: numbers, the configuration file, session counters, pools, and the
    refinement of the message handler registry to a map.
  \<^item> \<open>Message_Conversions\<close>, \<open>Conversion_Properties\<close>: one definition per conversion function
    over the state \<open>core\<close>, then requests and their answers, remote procedure calls and events
    from one transport to another.
  \<^item> \<open>Transport_Engine\<close>, \<open>Engine_Calls\<close>, \<open>Well_Formed_Calls\<close>, \<open>Request_Identifiers\<close>,
    \<open>Engine_Properties\<close>: the commands, \<open>execute\<close> for one command, \<open>event_loop\<close> for a list;
    which calls each command makes and of which form, what no command touches, when one panics,
    and why the identifier of the next request is never in use.
  \<^item> \<open>Transport\<close>, \<open>Transport_Lemmas\<close>, \<open>Transport_Properties\<close>, \<open>Transport_Runs\<close>: the state
    \<open>world\<close> of one transport, its methods, its construction and drop; the invariant
    \<open>transport_ok\<close> (every filter filed at most once, the two-way map and the process-wide table
    agree, the free functions are exactly those without an entry), its preservation, what each
    method does, and how the engine works its channel off.
  \<^item> \<open>Process\<close>: several transports over the same statics as a step relation, with the invariant
    of every reachable state and the dispatch of incoming messages.
  \<^item> \<open>Process_Properties\<close>: what holds of every transport of a reachable process beyond its
    handlers (its address, its request identifiers, no panic for an incoming message), and how
    often a method waits.
  \<^item> \<open>Method_Programs\<close>, \<open>Interleaving\<close>: each method as a program of atomic actions, proved equal to
    the method when run alone, and any number of calls, the engine and incoming messages
    interleaved.
  \<^item> \<open>Concurrent_Process\<close>: the same for any number of transports in one process, over the shared
    statics: exclusive handler functions, request identifiers.
  \<^item> \<open>Dispatch_Steps\<close>: the calls vsomeip makes of handler functions in such a process, each a thread
    of three steps (the transport, the conversion, the listener) with anything in between, and
    the storages such threads keep alive after their transport is dropped.
  \<^item> \<open>Point_To_Point\<close>: the point-to-point listener over a transport's life.
  \<^item> \<open>Remote_Calls\<close>: a remote procedure call between two transports of such a process, through
    both engines, both handler functions and both listeners.
  \<^item> \<open>Lock_Programs\<close>, \<open>Registry_Locks\<close>: the registry methods at the grain of their locks; the locale
    \<open>lock_protocol\<close> is the discipline by which a locked method is atomic and cannot deadlock, and
    the registries' methods follow it.  So the other theories take a registry method as one step.
  \<^item> \<open>Glue_Objects\<close>, \<open>Glue_Safety\<close>: the wrappers of \<^verbatim>\<open>glue_additions.rs\<close> and of the headers in
    \<^verbatim>\<open>glue/include\<close> on a store of message and payload objects with counted owners; the engine's
    conversions and sending on that store, proved equal to the model that passes messages as
    values, with every access going to a live object.
  \<^item> \<open>Build_Script\<close>, \<open>Build_Properties\<close>: the build scripts (\<^verbatim>\<open>vsomeip-sys/build.rs\<close> and that of
    \<^verbatim>\<open>example-utils/hello-world-protos\<close>) over a list of files: copying vsomeip's sources, rewriting
    the generated bindings, fetching protobuf files; what cmake, autocxx, cxx, the programs
    they start and the network do is a parameter.
  \<^item> \<open>Glue_Registrations\<close>: the other wrappers of \<^verbatim>\<open>glue_additions.rs\<close>, down through the C++ functions of
    \<^verbatim>\<open>glue/application_registrations.cpp\<close> to the handlers vsomeip is given; what the transport's
    registrations come to there.
  \<^item> \<open>Example_Programs\<close>, \<open>Hello_Example\<close>: the example programs of vsomeip-sys and of the transport;
    what they call, that each pair fits together, and how the hello service answers a request.  The
    communication layer of up-rust is a parameter (\<open>communication_api\<close>, locale \<open>hello_messages\<close>).

  \<^bold>\<open>Time.\<close>  The engine and the caller run concurrently.  \<open>e_slots E k\<close> is the number of commands
  the engine completes during the caller's \<open>k\<close>-th wait; if its own command is not among them
  the wait ends in \<open>DEADLINE_EXCEEDED\<close>.  This number is not a
  bound on the program: the theorems hold for every value, or assume it to be positive
  (\<open>prompt\<close>) where an answer in time is needed.  \<open>Interleaving\<close> and
  \<open>Concurrent_Process\<close> have no such number: there the engine, the tasks and
  the time-outs step in any order.  All definitions are total functions.  The only other fuel is the depth to which \<open>copy_dir_all\<close> goes down a directory;
  \<open>copy_dir_all_copies\<close> shows that one more than the depth of the source is enough.
  The 50 milliseconds an application has to report a state are the split between the reports in
  \<open>vs_reported_states\<close> and later ones.

  \<^bold>\<open>Arguments of the model.\<close>  up-rust (\<open>up_rust_api\<close>), vsomeip (\<open>vsomeip_api\<close>), bimap
  (\<open>bimap_api\<close>), serde_json and the file system (\<open>json_api\<close>), the element a hash set's iterator
  yields first (\<open>pick\<close>), whether arithmetic overflow is checked.  Each witness runs on the
  instances \<open>ref_up_rust\<close>, \<open>ref_vsomeip\<close>, \<open>pair_bimap\<close>, \<open>demo_json_api\<close> and \<open>Min\<close>.  The build
  scripts and the examples have their own: \<open>tools\<close>, \<open>proto_tools\<close>, \<open>demo_library\<close>,
  \<open>communication_api\<close>.

  \<^bold>\<open>What is shown.\<close>  A handler function serves one listener of one transport in every reachable
  state.  A message is given to the listener that is filed under the function when the thread
  looks it up, which is not always the one it was delivered for.  Registering, unregistering and
  dropping keep and restore the registry, unless the engine has stopped.  Requests and responses
  find each other, across two transports and back, under identifiers that are never in use twice,
  whenever up-rust accepts the addresses and messages of the call.  Concurrent
  calls keep the transport's invariant, and each gets its own answer.  Every method waits a
  bounded number of times.  Events are offered and subscribed to once.  The engine panics in one
  situation only, the overflow of a session counter, and then stops the transport.  On the objects
  behind the wrappers the engine touches live objects only and leaks none; a message that
  vsomeip keeps beyond the call has lost its payload.  The build script copies vsomeip's tree as
  it is and replaces the generated bindings in whole or not at all, but goes on when copying or
  patching fails.  Several
  theorems state what the code does where that is hardly what it means to do: functions that
  vsomeip keeps after a listener is gone, handlers lost by failed registrations and starts, a
  registration overtaken by an unregistration, a message given to the next listener of its
  function, a point-to-point listener that is never cleared, a drop that panics and releases nothing,
  an application stopped by another transport, two example programs that run the same application.

  \<^bold>\<open>Not modelled\<close>: log output; the texts of errors; the thread of the callback runtime
  (\<open>get_callback_runtime_handle\<close> is: how many workers, whether tokio builds it, and whether it
  still runs); a system that gives the engine no thread or tokio no runtime; panics of tokio for
  methods called outside a multi-threaded runtime; an application whose starting thread comes to
  the call of \<open>start\<close> only after the wait for a state is over; the room in the channel that a
  sender waits for without a time limit (in the sequential model the engine then takes one
  command out, which is not counted as a wait); the locks of the registries whose methods take
  a single one; the declarations of the C++ library and of the C++ functions
  (\<^verbatim>\<open>vsomeip-sys/src/lib.rs\<close>, \<^verbatim>\<open>cxx_bridge.rs\<close>), which have no bodies; the owners of applications
  and of the runtime, which vsomeip keeps alive by itself; symbolic links and permissions in the
  files the build scripts copy, and the lines they print for debugging; what the examples print
  beyond the messages they receive; the tests.  What remains of the sources beside these are
  imports, trait declarations and documentation.
\<close>

end
